(* ===== verification/Bub_Prelude.thy ===== *)
theory Bub_Prelude
  imports Main "HOL-Library.Word"
begin

text \<open>
  What every component of the development shares: machine integers at their C width, memory
  blocks as byte lists, little-endian views of integers, the faults of a C program (accesses
  outside an object, NULL dereferences, \<open>bub_abort\<close>, loops that never end) and the
  state-and-fault monad \<open>io\<close> in which the effectful code is written.
\<close>

unbundle bit_operations_syntax

section \<open>Automation\<close>

named_theorems run_simps
  \<open>equations that execute the monadic model one statement at a time\<close>
named_theorems layout_simps
  \<open>sizes and field offsets of the packed structures\<close>

section \<open>Machine integers and memory blocks\<close>

type_synonym byte = "8 word"
type_synonym u16 = "16 word"
type_synonym u32 = "32 word"
type_synonym u64 = "64 word"

text \<open>A C string literal: its characters and the terminating NUL.\<close>

definition cstr :: "string \<Rightarrow> byte list" where
  "cstr s = map (\<lambda>c. of_nat (of_char c)) s @ [0]"

text \<open>\<open>blit off src dst\<close> overwrites \<open>dst\<close> from index \<open>off\<close> on with all of \<open>src\<close>.\<close>

definition blit :: "nat \<Rightarrow> 'a list \<Rightarrow> 'a list \<Rightarrow> 'a list" where
  "blit off src dst = take off dst @ src @ drop (off + length src) dst"

text \<open>\<open>chunk off n xs\<close> is the run of \<open>n\<close> elements of \<open>xs\<close> at index \<open>off\<close>.\<close>

definition chunk :: "nat \<Rightarrow> nat \<Rightarrow> 'a list \<Rightarrow> 'a list" where
  "chunk off n xs = take n (drop off xs)"

lemma length_cstr [simp]: "length (cstr s) = Suc (length s)"
  by (simp add: cstr_def)

lemma length_blit [simp]: "off + length src \<le> length dst \<Longrightarrow> length (blit off src dst) = length dst"
  by (simp add: blit_def)

lemma length_chunk [simp]: "off + n \<le> length xs \<Longrightarrow> length (chunk off n xs) = n"
  by (simp add: chunk_def)

lemma chunk_blit_same [simp]:
  "off + length src \<le> length dst \<Longrightarrow> n = length src \<Longrightarrow> chunk off n (blit off src dst) = src"
  by (simp add: chunk_def blit_def)

lemma chunk_blit_before:
  assumes "off' + n \<le> off" "off \<le> length dst"
  shows "chunk off' n (blit off src dst) = chunk off' n dst"
proof -
  have "take n (drop off' (blit off src dst)) = take n (drop off' (take off dst))"
    using assms by (simp add: blit_def)
  also have "\<dots> = take n (drop off' dst)"
    using assms by (simp add: drop_take)
  finally show ?thesis by (simp add: chunk_def)
qed

lemma chunk_blit_after:
  assumes "off + length src \<le> off'" "off + length src \<le> length dst"
  shows "chunk off' n (blit off src dst) = chunk off' n dst"
proof -
  have "drop off' (blit off src dst) = drop off' dst"
    using assms by (simp add: blit_def min_def)
  then show ?thesis by (simp add: chunk_def)
qed

lemma chunk_0 [simp]: "chunk 0 n xs = take n xs"
  by (simp add: chunk_def)

lemma blit_0 [simp]: "blit 0 src dst = src @ drop (length src) dst"
  by (simp add: blit_def)

lemma chunk_nth [simp]: "i < n \<Longrightarrow> off + n \<le> length xs \<Longrightarrow> chunk off n xs ! i = xs ! (off + i)"
  by (simp add: chunk_def)

lemma xor_eq_0_iff_eq: "x XOR y = (0 :: 'a::len word) \<longleftrightarrow> x = y"
proof
  assume *: "x XOR y = 0"
  have "x = (x XOR y) XOR y" by (simp add: xor.assoc)
  with * show "x = y" by simp
qed simp

lemma xor_cancel_right [simp]: "x XOR z = y XOR z \<longleftrightarrow> x = (y :: 'a::len word)"
  by (auto simp: bit_eq_iff bit_simps)

lemma xor_cancel_left [simp]: "z XOR x = z XOR y \<longleftrightarrow> x = (y :: 'a::len word)"
  by (auto simp: bit_eq_iff bit_simps)

lemma ucast_ucast_widen [simp]:
  "LENGTH('a::len) \<le> LENGTH('b::len) \<Longrightarrow> ucast (ucast w :: 'b word) = (w :: 'a word)"
  by (rule bit_word_eqI) (auto simp add: bit_simps)

lemma ucast_widen_eq_iff:
  assumes "LENGTH('a::len) \<le> LENGTH('b::len)"
  shows "ucast a = (ucast b :: 'b word) \<longleftrightarrow> a = (b :: 'a word)"
  using assms by (metis ucast_ucast_widen)

lemma unat_ucast_widen [simp]:
  assumes "LENGTH('a::len) \<le> LENGTH('b::len)"
  shows "unat (ucast w :: 'b word) = unat (w :: 'a word)"
proof -
  have "(2 :: nat) ^ LENGTH('a) \<le> 2 ^ LENGTH('b)"
    by (rule power_increasing) (use assms in simp_all)
  moreover have "unat w < 2 ^ LENGTH('a)" by (rule unsigned_less)
  ultimately have "unat w < 2 ^ LENGTH('b)" by (rule order_less_le_trans [rotated])
  then show ?thesis by (simp add: unsigned_ucast_eq take_bit_nat_eq_self)
qed

lemma bit_imp_unat_ge: "bit (w :: 'a::len word) i \<Longrightarrow> 2 ^ i \<le> unat w"
proof (rule ccontr)
  assume b: "bit w i" and "\<not> 2 ^ i \<le> unat w"
  then have "unat w div 2 ^ i = 0" by simp
  then have "\<not> bit (unat w) i" by (simp add: bit_nat_def)
  moreover have "i < LENGTH('a)" using b by (rule bit_imp_le_length)
  ultimately show False using b by (simp add: bit_unsigned_iff)
qed

lemma chunk_append_chunk [simp]: "chunk off n xs @ chunk (off + n) m xs = chunk off (n + m) xs"
  by (simp add: chunk_def take_add add.commute [of n off])

lemma chunk_two: "off + 2 \<le> length xs \<Longrightarrow> chunk off 2 xs = [xs ! off, xs ! Suc off]"
  by (simp add: chunk_def numeral_2_eq_2 take_Suc_conv_app_nth)

lemma chunk_all [simp]: "length xs = n \<Longrightarrow> chunk 0 n xs = xs"
  by (simp add: chunk_def)

section \<open>Little-endian views\<close>

text \<open>
  The host is little-endian (the loader is built for x86_64 only): an integer of \<open>n\<close> bytes is
  stored least significant byte first.
\<close>

primrec le_bytes :: "nat \<Rightarrow> 'a::len word \<Rightarrow> byte list" where
  "le_bytes 0 w = []"
| "le_bytes (Suc n) w = ucast w # le_bytes n (drop_bit 8 w)"

primrec le_val :: "byte list \<Rightarrow> 'a::len word" where
  "le_val [] = 0"
| "le_val (b # bs) = ucast b OR push_bit 8 (le_val bs)"

lemma length_le_bytes [simp]: "length (le_bytes n w) = n"
  by (induction n arbitrary: w) simp_all

lemma le_val_le_bytes_take_bit: "le_val (le_bytes n w) = take_bit (8 * n) w"
proof (induction n arbitrary: w)
  case (Suc n)
  show ?case
    by (rule bit_word_eqI) (auto simp add: Suc.IH bit_simps not_less)
qed simp

lemma le_val_le_bytes [simp]:
  "LENGTH('a::len) \<le> 8 * n \<Longrightarrow> le_val (le_bytes n w) = (w :: 'a word)"
  by (simp add: le_val_le_bytes_take_bit take_bit_word_eq_self)

lemma le_bytes_le_val [simp]:
  "length bs = n \<Longrightarrow> 8 * n \<le> LENGTH('a::len) \<Longrightarrow> le_bytes n (le_val bs :: 'a word) = bs"
proof (induction bs arbitrary: n)
  case (Cons b bs)
  then obtain m where n: "n = Suc m" and m: "length bs = m" by auto
  have w: "8 \<le> LENGTH('a)" "8 * m + 8 \<le> LENGTH('a)" using Cons.prems n by auto
  have hd_eq: "ucast (ucast b OR push_bit 8 (le_val bs) :: 'a word) = b"
    by (rule bit_word_eqI) (use w in \<open>auto simp add: bit_simps\<close>)
  have IH: "le_bytes m (le_val bs :: 'a word) = bs"
    using Cons.IH [of m] m w by simp
  have tl_eq: "drop_bit 8 (ucast b OR push_bit 8 (le_val bs) :: 'a word) =
      take_bit (LENGTH('a) - 8) (le_val bs)"
    by (rule bit_word_eqI)
      (use w in \<open>auto simp add: bit_simps dest: bit_imp_le_length\<close>)
  have trunc: "le_bytes k (take_bit l v :: 'a word) = le_bytes k v" if "8 * k \<le> l" for k l and v :: "'a word"
    using that
  proof (induction k arbitrary: l v)
    case (Suc k)
    have a: "ucast (take_bit l v) = (ucast v :: byte)"
      by (rule bit_word_eqI) (use Suc.prems in \<open>auto simp add: bit_simps\<close>)
    have b: "drop_bit 8 (take_bit l v) = take_bit (l - 8) (drop_bit 8 v)"
      by (simp add: drop_bit_take_bit)
    from Suc.prems have "8 * k \<le> l - 8" by simp
    then show ?case by (simp add: a b Suc.IH)
  qed simp
  have "8 * m \<le> LENGTH('a) - 8" using w by simp
  then show ?case by (simp only: n le_val.simps le_bytes.simps hd_eq tl_eq trunc IH)
qed simp

lemma le_bytes_2: "le_bytes 2 (v :: u16) = [ucast v, ucast (drop_bit 8 v)]"
  unfolding numeral_2_eq_2 by simp

lemma bit_le_val_bound: "bit (le_val bs :: 'a::len word) i \<Longrightarrow> i < 8 * length bs"
proof (induction bs arbitrary: i)
  case (Cons b bs)
  then consider "bit b i" | "8 \<le> i" "bit (le_val bs :: 'a word) (i - 8)"
    by (auto simp: bit_simps)
  then show ?case
  proof cases
    case 1
    then show ?thesis using bit_imp_le_length by fastforce
  next
    case 2
    then show ?thesis using Cons.IH [of "i - 8"] by simp
  qed
qed simp

section \<open>Faults and the state-and-fault monad\<close>

text \<open>
  A statement of the C code runs on a world \<open>'w\<close> (the firmware, the disk, the file system) and
  either yields a value or ends the program in one of these ways; the world at that point is kept.
  The type of the ends is a parameter of the monad, since the processes of the seccomp tests end in
  other ways.
\<close>

datatype fault =
    Oob_Read          \<comment> \<open>a read outside the accessed object\<close>
  | Oob_Write         \<comment> \<open>a write outside the accessed object\<close>
  | Null_Deref        \<comment> \<open>an access through a NULL pointer\<close>
  | Aborted           \<comment> \<open>\<open>bub_abort\<close>\<close>
  | Diverges          \<comment> \<open>a loop that never ends\<close>

type_synonym ('w, 'e, 'a) prog = "'w \<Rightarrow> ('e + 'a) \<times> 'w"
type_synonym ('w, 'a) io = "('w, fault, 'a) prog"

definition ret :: "'a \<Rightarrow> ('w, 'e, 'a) prog" where
  "ret x = (\<lambda>w. (Inr x, w))"

definition fail :: "'e \<Rightarrow> ('w, 'e, 'a) prog" where
  "fail e = (\<lambda>w. (Inl e, w))"

definition bnd :: "('w, 'e, 'a) prog \<Rightarrow> ('a \<Rightarrow> ('w, 'e, 'b) prog) \<Rightarrow> ('w, 'e, 'b) prog" where
  "bnd m f = (\<lambda>w. case m w of (Inl e, w') \<Rightarrow> (Inl e, w') | (Inr x, w') \<Rightarrow> f x w')"

text \<open>Effect-free computations and calls that cannot fault, as statements.\<close>

definition pure :: "'e + 'a \<Rightarrow> ('w, 'e, 'a) prog" where
  "pure r = (\<lambda>w. (r, w))"

definition call :: "('w \<Rightarrow> 'a \<times> 'w) \<Rightarrow> ('w, 'a) io" where
  "call f = (\<lambda>w. case f w of (x, w') \<Rightarrow> (Inr x, w'))"

lemma ret_run [simp, run_simps]: "ret x w = (Inr x, w)"
  by (simp add: ret_def)

lemma fail_run [simp, run_simps]: "fail e w = (Inl e, w)"
  by (simp add: fail_def)

lemma pure_run [simp, run_simps]: "pure r w = (r, w)"
  by (simp add: pure_def)

lemma call_run [simp, run_simps]: "f w = (x, w') \<Longrightarrow> call f w = (Inr x, w')"
  by (simp add: call_def)

lemma bnd_Inr [simp, run_simps]: "m w = (Inr x, w') \<Longrightarrow> bnd m f w = f x w'"
  by (simp add: bnd_def)

lemma bnd_Inl [simp, run_simps]: "m w = (Inl e, w') \<Longrightarrow> bnd m f w = (Inl e, w')"
  by (simp add: bnd_def)

lemma bnd_ret_left [simp]: "bnd (ret x) f = f x"
  by (simp add: bnd_def ret_def fun_eq_iff)

lemma bnd_ret_right [simp]: "bnd m ret = m"
  by (auto simp: bnd_def ret_def fun_eq_iff split: prod.splits sum.splits)

lemma bnd_assoc: "bnd (bnd m f) g = bnd m (\<lambda>x. bnd (f x) g)"
  by (auto simp: bnd_def fun_eq_iff split: prod.splits sum.splits)

lemma bnd_eq_InrE:
  assumes "bnd m f w = (Inr y, w2)"
  obtains x w1 where "m w = (Inr x, w1)" "f x w1 = (Inr y, w2)"
  using assms by (auto simp: bnd_def split: prod.splits sum.splits)

lemma pure_eq_Inr_iff [simp]: "pure r w = (Inr y, w') \<longleftrightarrow> r = Inr y \<and> w' = w"
  by (auto simp: pure_def)

text \<open>Sequencing of effect-free computations.\<close>

definition sbind :: "fault + 'a \<Rightarrow> ('a \<Rightarrow> fault + 'b) \<Rightarrow> fault + 'b" where
  "sbind m f = (case m of Inl e \<Rightarrow> Inl e | Inr x \<Rightarrow> f x)"

lemma sbind_simps [simp, run_simps]: "sbind (Inr x) f = f x" "sbind (Inl e) f = Inl e"
  by (simp_all add: sbind_def)

end
