(* ===== verification/Bub_Ops.thy ===== *)
theory Bub_Ops
  imports Bub_Prelude
begin

text \<open>
  \<open>bub_ops.h\<close>: the platform interface the A/B logic calls. The record is the C structure of
  function pointers; the locale states what its documentation promises of the two operations the
  loader uses, \<open>read_from_partition\<close> and \<open>write_to_partition\<close>. Two providers of the source fill
  the structure: the firmware back end (\<open>Bub_Ops_Uefi\<close>) and the host files of the tests and of
  \<open>make_misc_image\<close> (\<open>Image_Util\<close>).
\<close>

section \<open>The interface\<close>

datatype BubIOResult =
    BUB_IO_RESULT_OK
  | BUB_IO_RESULT_ERROR_NO_SUCH_PARTITION
  | BUB_IO_RESULT_ERROR_RANGE_OUTSIDE_PARTITION
  | BUB_IO_RESULT_ERROR_IO

text \<open>
  A partition name is the memory of the C string. An output buffer is passed with its contents and
  comes back in the result; \<open>None\<close> in place of an output integer means that the operation did not
  assign it. Offsets are \<open>int64_t\<close> and sizes \<open>size_t\<close>, both held as 64-bit words.
\<close>

record 'w BubOps =
  read_from_partition ::
    "byte list \<Rightarrow> byte list \<Rightarrow> u64 \<Rightarrow> u64 \<Rightarrow> ('w, BubIOResult \<times> byte list \<times> u64 option) io"
  write_to_partition :: "byte list \<Rightarrow> byte list \<Rightarrow> u64 \<Rightarrow> u64 \<Rightarrow> ('w, BubIOResult) io"
  validate_public_key :: "byte list \<Rightarrow> u64 \<Rightarrow> ('w, int) io"
  read_rollback_index :: "u64 \<Rightarrow> ('w, int \<times> u64 option) io"
  write_rollback_index :: "u64 \<Rightarrow> u64 \<Rightarrow> ('w, int) io"
  read_is_unlocked :: "('w, int \<times> int option) io"
  get_unique_guid_for_partition :: "byte list \<Rightarrow> byte list \<Rightarrow> u64 \<Rightarrow> ('w, int \<times> byte list) io"

section \<open>Its contract\<close>

text \<open>
  \<open>part w name\<close> is the contents of the partition called \<open>name\<close> in world \<open>w\<close>, if there is one, and
  \<open>inv\<close> the provider's own invariant (a working device). Accesses inside a partition succeed,
  transfer exactly the requested bytes and keep the invariant; a read changes no partition.
\<close>

locale partition_io =
  fixes ops :: "'w BubOps"
    and part :: "'w \<Rightarrow> byte list \<Rightarrow> byte list option"
    and inv :: "'w \<Rightarrow> bool"
  assumes part_size: "inv w \<Longrightarrow> part w name = Some c \<Longrightarrow> length c < 2 ^ 63"
    and read_inside:
      "inv w \<Longrightarrow> part w name = Some c \<Longrightarrow> off + n \<le> length c \<Longrightarrow> length buf = n \<Longrightarrow>
       \<exists>w'. read_from_partition ops name buf (of_nat off) (of_nat n) w =
              (Inr (BUB_IO_RESULT_OK, chunk off n c, Some (of_nat n)), w') \<and>
            inv w' \<and> part w' = part w"
    and write_inside:
      "inv w \<Longrightarrow> part w name = Some c \<Longrightarrow> off + length buf \<le> length c \<Longrightarrow>
       \<exists>w'. write_to_partition ops name buf (of_nat off) (of_nat (length buf)) w =
              (Inr BUB_IO_RESULT_OK, w') \<and>
            inv w' \<and> part w' name = Some (blit off buf c)"
begin

text \<open>What was written is what a later read at the same place returns.\<close>

lemma read_after_write:
  assumes "inv w" "part w name = Some c" "off + length buf \<le> length c" "length buf' = length buf"
  shows "\<exists>w1 w2. write_to_partition ops name buf (of_nat off) (of_nat (length buf)) w =
           (Inr BUB_IO_RESULT_OK, w1) \<and>
         read_from_partition ops name buf' (of_nat off) (of_nat (length buf)) w1 =
           (Inr (BUB_IO_RESULT_OK, buf, Some (of_nat (length buf))), w2) \<and>
         inv w2 \<and> part w2 name = Some (blit off buf c)"
proof -
  obtain w1 where w1: "write_to_partition ops name buf (of_nat off) (of_nat (length buf)) w =
      (Inr BUB_IO_RESULT_OK, w1)" "inv w1" "part w1 name = Some (blit off buf c)"
    using write_inside assms by blast
  have "off + length buf \<le> length (blit off buf c)"
    using assms(3) by simp
  then obtain w2 where "read_from_partition ops name buf' (of_nat off) (of_nat (length buf)) w1 =
      (Inr (BUB_IO_RESULT_OK, chunk off (length buf) (blit off buf c), Some (of_nat (length buf))), w2)"
    "inv w2" "part w2 = part w1"
    using read_inside [OF w1(2,3) _ assms(4)] by blast
  with w1 assms(3) show ?thesis by auto
qed

end

end
