(* ===== verification/Bub_Sysdeps.thy ===== *)
theory Bub_Sysdeps
  imports Bub_Prelude
begin

text \<open>
  The memory and string primitives of \<open>bub_sysdeps.h\<close>, as the two back ends
  (\<open>bub_sysdeps_posix.c\<close>, \<open>bub_sysdeps_uefi.c\<close>) provide them. A pointer argument is the list of
  the bytes that may be accessed through it; an access beyond that list is a fault. The primitives
  that need the firmware (\<open>bub_malloc_\<close>, \<open>bub_free\<close>, \<open>bub_print\<close>, \<open>bub_abort\<close>) are in
  \<open>Bub_Efi\<close>.
\<close>

section \<open>Comparing\<close>

text \<open>
  \<open>memcmp\<close> and \<open>CompareMem\<close>: the difference of the first two bytes that differ, 0 if there are none.
\<close>

fun diff_bytes :: "byte list \<Rightarrow> byte list \<Rightarrow> int" where
  "diff_bytes (a # as) (b # bs) = (if a = b then diff_bytes as bs else uint a - uint b)"
| "diff_bytes _ _ = 0"

definition bub_memcmp :: "byte list \<Rightarrow> byte list \<Rightarrow> nat \<Rightarrow> fault + int" where
  "bub_memcmp src1 src2 n =
     (if n \<le> length src1 \<and> n \<le> length src2
      then Inr (diff_bytes (take n src1) (take n src2)) else Inl Oob_Read)"

fun bub_strcmp :: "byte list \<Rightarrow> byte list \<Rightarrow> fault + int" where
  "bub_strcmp (a # as) (b # bs) =
     (if a \<noteq> b then Inr (uint a - uint b) else if a = 0 then Inr 0 else bub_strcmp as bs)"
| "bub_strcmp _ _ = Inl Oob_Read"

text \<open>
  \<open>bub_safe_memcmp\<close>: the accumulator \<open>result\<close> is an \<open>int\<close> that collects the exclusive ors of all
  the byte pairs; the loop visits every one of the \<open>n\<close> bytes.
\<close>

fun safe_memcmp_loop :: "byte list \<Rightarrow> byte list \<Rightarrow> nat \<Rightarrow> u32 \<Rightarrow> fault + u32" where
  "safe_memcmp_loop us1 us2 0 result = Inr result"
| "safe_memcmp_loop (a # us1) (b # us2) (Suc n) result =
     safe_memcmp_loop us1 us2 n (result OR (ucast a XOR ucast b))"
| "safe_memcmp_loop _ _ (Suc n) result = Inl Oob_Read"

definition bub_safe_memcmp :: "byte list \<Rightarrow> byte list \<Rightarrow> nat \<Rightarrow> fault + int" where
  "bub_safe_memcmp s1 s2 n =
     (if n = 0 then Inr 0
      else sbind (safe_memcmp_loop s1 s2 n 0) (\<lambda>result. Inr (if result \<noteq> 0 then 1 else 0)))"

section \<open>Copying, filling, measuring\<close>

text \<open>
  \<open>bub_memcpy (dest + off, src, n)\<close> and \<open>bub_memset (dest, c, n)\<close>, with the new contents of the
  destination as result.
\<close>

definition bub_memcpy :: "byte list \<Rightarrow> nat \<Rightarrow> byte list \<Rightarrow> nat \<Rightarrow> fault + byte list" where
  "bub_memcpy dest off src n =
     (if length src < n then Inl Oob_Read
      else if length dest < off + n then Inl Oob_Write
      else Inr (blit off (take n src) dest))"

definition bub_memset :: "byte list \<Rightarrow> int \<Rightarrow> nat \<Rightarrow> fault + byte list" where
  "bub_memset dest c n =
     (if length dest < n then Inl Oob_Write
      else Inr (blit 0 (replicate n (word_of_int c)) dest))"

fun bub_strlen :: "byte list \<Rightarrow> fault + nat" where
  "bub_strlen [] = Inl Oob_Read"
| "bub_strlen (b # str) = (if b = 0 then Inr 0 else sbind (bub_strlen str) (\<lambda>n. Inr (Suc n)))"

text \<open>The characters before the NUL, as \<open>std::string (s)\<close> and \<open>printf ("%s", s)\<close> take them.\<close>

definition c_string :: "byte list \<Rightarrow> ('w, byte list) io" where
  "c_string s = (if 0 \<in> set s then ret (takeWhile (\<lambda>c. c \<noteq> 0) s) else fail Oob_Read)"

section \<open>Messages\<close>

text \<open>
  \<open>bub_print\<close> is resolved when the program is linked: the code that calls it takes it as a
  parameter \<open>pr\<close>. \<open>bub_warning\<close> puts a prefix in front of the literal it is given; the host's
  \<open>bub_print\<close> writes to \<open>stderr\<close>, which is not part of any world of the model.
\<close>

abbreviation nl :: string where "nl \<equiv> [CHR 0x0A]"

definition bub_warning :: "(byte list \<Rightarrow> ('w, unit) io) \<Rightarrow> string \<Rightarrow> ('w, unit) io" where
  "bub_warning pr format = pr (cstr (''WARNING: '' @ format))"

definition bub_print_posix :: "byte list \<Rightarrow> ('w, unit) io" where
  "bub_print_posix format = bnd (pure (bub_strlen format)) (\<lambda>_. ret ())"

text \<open>The messages of the program: non-empty ASCII texts, shorter than 64 KiB.\<close>

definition ascii_text :: "string \<Rightarrow> bool" where
  "ascii_text s \<longleftrightarrow> list_all (\<lambda>c. 0 < (of_char c :: nat) \<and> (of_char c :: nat) < 128) s \<and> length s < 2 ^ 16"

definition console_msg :: "byte list \<Rightarrow> bool" where
  "console_msg m \<longleftrightarrow> 1 < length m \<and> length m < 2 ^ 20 \<and> last m = 0 \<and>
     list_all (\<lambda>b. 0 < b \<and> b < 0x80) (butlast m)"

section \<open>Facts about the primitives\<close>

lemma diff_bytes_eq_0_iff:
  "length as = length bs \<Longrightarrow> diff_bytes as bs = 0 \<longleftrightarrow> as = bs"
  by (induction as bs rule: list_induct2) (simp_all flip: word_uint_eq_iff)

lemma diff_bytes_swap: "diff_bytes bs as = - diff_bytes as bs"
  by (induction as bs rule: diff_bytes.induct) auto

lemma bub_memcmp_in_bounds [simp]:
  "n \<le> length s1 \<Longrightarrow> n \<le> length s2 \<Longrightarrow>
   bub_memcmp s1 s2 n = Inr (diff_bytes (take n s1) (take n s2))"
  by (simp add: bub_memcmp_def)

lemma bub_memcmp_eq_0_iff:
  "bub_memcmp s1 s2 n = Inr 0 \<longleftrightarrow> n \<le> length s1 \<and> n \<le> length s2 \<and> take n s1 = take n s2"
  by (auto simp: bub_memcmp_def diff_bytes_eq_0_iff)

lemma or_xor_eq_0_iff:
  fixes r :: u32 and a b :: byte
  shows "r OR (ucast a XOR ucast b) = 0 \<longleftrightarrow> r = 0 \<and> a = b"
proof -
  have "ucast a = (ucast b :: u32) \<longleftrightarrow> a = b"
    by (simp add: ucast_widen_eq_iff)
  then show ?thesis by (simp add: or_eq_0_iff xor_eq_0_iff_eq)
qed

lemma safe_memcmp_loop_run:
  "n \<le> length s1 \<Longrightarrow> n \<le> length s2 \<Longrightarrow>
   \<exists>r'. safe_memcmp_loop s1 s2 n r = Inr r' \<and> (r' = 0 \<longleftrightarrow> r = 0 \<and> take n s1 = take n s2)"
  by (induction s1 s2 n r rule: safe_memcmp_loop.induct) (auto simp: or_xor_eq_0_iff)

lemma bub_memcpy_in_bounds [simp]:
  "n \<le> length src \<Longrightarrow> off + n \<le> length dest \<Longrightarrow>
   bub_memcpy dest off src n = Inr (blit off (take n src) dest)"
  by (simp add: bub_memcpy_def)

lemma bub_memset_in_bounds [simp]:
  "n \<le> length dest \<Longrightarrow>
   bub_memset dest c n = Inr (replicate n (word_of_int c) @ drop n dest)"
  by (simp add: bub_memset_def)

lemma bub_strlen_terminated [simp]:
  "0 \<notin> set s \<Longrightarrow> bub_strlen (s @ 0 # rest) = Inr (length s)"
  by (induction s) auto

lemma bub_strlen_bound: "bub_strlen s = Inr n \<Longrightarrow> n < length s \<and> s ! n = 0 \<and> 0 \<notin> set (take n s)"
proof (induction s arbitrary: n)
  case (Cons b s)
  then show ?case by (cases "bub_strlen s") (auto split: if_splits)
qed simp

lemma ascii_byte: "0 < (of_char c :: nat) \<Longrightarrow> (of_char c :: nat) < 128 \<Longrightarrow>
    0 < (of_nat (of_char c) :: byte) \<and> (of_nat (of_char c) :: byte) < 0x80"
  by (simp add: word_less_nat_alt unat_of_nat)

lemma console_msg_cstr: "ascii_text s \<Longrightarrow> s \<noteq> [] \<Longrightarrow> console_msg (cstr s)"
  by (auto simp: console_msg_def ascii_text_def cstr_def list_all_iff ascii_byte)

lemma console_msg_warning: "ascii_text s \<Longrightarrow> console_msg (cstr (''WARNING: '' @ s))"
  by (auto simp: console_msg_def ascii_text_def cstr_def list_all_iff ascii_byte)

lemma console_msgE:
  assumes "console_msg m"
  obtains s where "m = s @ [0]" "s \<noteq> []" "list_all (\<lambda>b. 0 < b \<and> b < 0x80) s" "length s < 2 ^ 20"
proof (rule that)
  have "m \<noteq> []" using assms by (auto simp: console_msg_def)
  then show "m = butlast m @ [0]"
    using assms append_butlast_last_id [of m] by (simp add: console_msg_def)
  show "butlast m \<noteq> []" "list_all (\<lambda>b. 0 < b \<and> b < 0x80) (butlast m)" "length (butlast m) < 2 ^ 20"
    using assms by (auto simp: console_msg_def simp flip: length_greater_0_conv)
qed

lemma bub_print_posix_run [simp]:
  assumes "console_msg m"
  shows "bub_print_posix m w = (Inr (), w)"
proof -
  obtain s where "m = s @ [0]" "list_all (\<lambda>b. 0 < b \<and> b < 0x80) s"
    using assms by (rule console_msgE)
  then have "bub_strlen m = Inr (length s)"
    using bub_strlen_terminated [of s "[]"] by (auto simp: list_all_iff)
  then show ?thesis by (simp add: bub_print_posix_def)
qed

lemma bub_warning_posix [simp]: "ascii_text s \<Longrightarrow> bub_warning bub_print_posix s w = (Inr (), w)"
  unfolding bub_warning_def by (rule bub_print_posix_run [OF console_msg_warning])

lemma bub_strcmp_run:
  assumes "0 \<in> set a" "0 \<in> set b"
  shows "\<exists>r. bub_strcmp a b = Inr r \<and> (r = 0 \<longleftrightarrow> takeWhile (\<lambda>c. c \<noteq> 0) a = takeWhile (\<lambda>c. c \<noteq> 0) b)"
  using assms by (induction a b rule: bub_strcmp.induct) (auto simp flip: word_uint_eq_iff)

text \<open>\<open>bub_safe_memcmp\<close>, whose loop visits every byte whatever the bytes are, decides what
  \<open>bub_memcmp\<close> decides: 0 for equal and 1 for different contents, within the same bounds.\<close>

lemma bub_safe_memcmp_iff_memcmp:
  assumes "n \<le> length s1" "n \<le> length s2"
  shows "bub_safe_memcmp s1 s2 n = Inr (if bub_memcmp s1 s2 n = Inr 0 then 0 else 1)"
  using safe_memcmp_loop_run [OF assms, of 0] assms
  by (auto simp: bub_safe_memcmp_def bub_memcmp_eq_0_iff simp del: bub_memcmp_in_bounds)

lemma bub_safe_memcmp_iff_memcmp_witness:
  "bub_safe_memcmp [1, 2, 3] [1, 9, 3] 3 = Inr 1 \<and> bub_safe_memcmp [1, 2, 3] [1, 9] 1 = Inr 0"
  using bub_safe_memcmp_iff_memcmp [of 3 "[1, 2, 3]" "[1, 9, 3]"]
    bub_safe_memcmp_iff_memcmp [of 1 "[1, 2, 3]" "[1, 9]"]
  by (simp add: bub_memcmp_def)

end
