(* ===== verification/Bub_Util.thy ===== *)
theory Bub_Util
  imports Bub_Sysdeps
begin

text \<open>
  \<open>bub_util.c\<close>: the byte-order conversions and the conversion of partition names from UTF-8 to
  UCS-2. \<open>bub_calloc\<close> is in \<open>Bub_Efi\<close>, with the firmware allocator it calls.
\<close>

section \<open>Byte order\<close>

text \<open>
  The unions of the source: the bytes are stored one by one and read back as an integer of the
  little-endian host.
\<close>

definition bub_be32toh :: "u32 \<Rightarrow> u32" where
  "bub_be32toh v =
     le_val [ucast (drop_bit 24 v AND 0xff), ucast (drop_bit 16 v AND 0xff),
             ucast (drop_bit 8 v AND 0xff), ucast (v AND 0xff)]"

definition bub_be64toh :: "u64 \<Rightarrow> u64" where
  "bub_be64toh v =
     le_val [ucast (drop_bit 56 v AND 0xff), ucast (drop_bit 48 v AND 0xff),
             ucast (drop_bit 40 v AND 0xff), ucast (drop_bit 32 v AND 0xff),
             ucast (drop_bit 24 v AND 0xff), ucast (drop_bit 16 v AND 0xff),
             ucast (drop_bit 8 v AND 0xff), ucast (v AND 0xff)]"

lemma ucast_and_ff [simp]: "ucast (w AND 0xff :: 'a::len word) = (ucast w :: byte)"
proof (rule bit_word_eqI)
  fix n assume "n < LENGTH(8)"
  then have "bit (0xff :: 'a word) n \<longleftrightarrow> n < LENGTH('a)"
    using bit_mask_iff [where 'a = "'a word", of 8 n] by (simp add: mask_eq_decr_exp)
  then show "bit (ucast (w AND 0xff) :: byte) n = bit (ucast w :: byte) n"
    by (auto simp: bit_simps dest: bit_imp_le_length)
qed

lemma le_bytes_4:
  "le_bytes 4 w = [ucast w, ucast (drop_bit 8 w), ucast (drop_bit 16 w), ucast (drop_bit 24 w)]"
proof -
  have "(4 :: nat) = Suc (Suc (Suc (Suc 0)))" by simp
  then show ?thesis by (simp only: le_bytes.simps) simp
qed

lemma le_bytes_8:
  "le_bytes 8 w = [ucast w, ucast (drop_bit 8 w), ucast (drop_bit 16 w), ucast (drop_bit 24 w),
     ucast (drop_bit 32 w), ucast (drop_bit 40 w), ucast (drop_bit 48 w), ucast (drop_bit 56 w)]"
proof -
  have "(8 :: nat) = Suc (Suc (Suc (Suc 4)))" by simp
  then show ?thesis by (simp only: le_bytes.simps le_bytes_4) simp
qed

lemma bub_be32toh_rev: "bub_be32toh v = le_val (rev (le_bytes 4 v))"
  by (simp only: bub_be32toh_def le_bytes_4 ucast_and_ff) simp

lemma bub_be64toh_rev: "bub_be64toh v = le_val (rev (le_bytes 8 v))"
  by (simp only: bub_be64toh_def le_bytes_8 ucast_and_ff) simp

lemma le_bytes_bub_be32toh: "le_bytes 4 (bub_be32toh v) = rev (le_bytes 4 v)"
  by (simp add: bub_be32toh_rev)

lemma le_bytes_bub_be64toh: "le_bytes 8 (bub_be64toh v) = rev (le_bytes 8 v)"
  by (simp add: bub_be64toh_rev)

lemma bub_be32toh_involution [simp]: "bub_be32toh (bub_be32toh v) = v"
  by (subst bub_be32toh_rev) (simp add: le_bytes_bub_be32toh)

lemma bub_be64toh_involution [simp]: "bub_be64toh (bub_be64toh v) = v"
  by (subst bub_be64toh_rev) (simp add: le_bytes_bub_be64toh)

section \<open>UTF-8 to UCS-2\<close>

text \<open>
  \<open>utf8_at\<close> is \<open>utf8_data[i]\<close> and \<open>ucs2_store\<close> the assignment to \<open>ucs2_data[i]\<close>; both indices are
  \<open>uint32_t\<close>, the sums \<open>i8 + 1\<close> and \<open>i8 + 2\<close> wrap at that width.
\<close>

definition utf8_at :: "byte list \<Rightarrow> u32 \<Rightarrow> fault + byte" where
  "utf8_at u i = (if unat i < length u then Inr (u ! unat i) else Inl Oob_Read)"

definition ucs2_store :: "u16 list \<Rightarrow> u32 \<Rightarrow> u16 \<Rightarrow> fault + u16 list" where
  "ucs2_store d i x = (if unat i < length d then Inr (d[unat i := x]) else Inl Oob_Write)"

text \<open>
  One turn of the loop up to \<open>i2++\<close>: \<open>None\<close> is \<open>return 1\<close>, \<open>Some\<close> the advanced \<open>i8\<close> and the buffer.
\<close>

definition utf8_step :: "byte list \<Rightarrow> u32 \<Rightarrow> u16 list \<Rightarrow> u32 \<Rightarrow> fault + (u32 \<times> u16 list) option" where
  "utf8_step u i8 d i2 =
     sbind (utf8_at u i8) (\<lambda>b0.
       if b0 AND 0xF8 = 0xF0 then Inr None
       else if b0 AND 0xF0 = 0xE0 then
         sbind (utf8_at u (i8 + 1)) (\<lambda>b1.
         sbind (utf8_at u (i8 + 2)) (\<lambda>b2.
         sbind (ucs2_store d i2
                  (push_bit 12 (ucast b0) OR (push_bit 6 (ucast b1) AND 0x0FC0) OR
                   (ucast b2 AND 0x003F))) (\<lambda>d'.
         Inr (Some (i8 + 3, d')))))
       else if b0 AND 0xE0 = 0xC0 then
         sbind (utf8_at u (i8 + 1)) (\<lambda>b1.
         sbind (ucs2_store d i2
                  ((push_bit 6 (ucast b0) AND 0x07C0) OR (ucast b1 AND 0x003F))) (\<lambda>d'.
         Inr (Some (i8 + 2, d'))))
       else if drop_bit 7 b0 = 0 then
         sbind (ucs2_store d i2 (ucast b0 AND 0x00FF)) (\<lambda>d'.
         Inr (Some (i8 + 1, d')))
       else Inr None)"

partial_function (option) utf8_loop ::
    "byte list \<Rightarrow> u64 \<Rightarrow> u32 \<Rightarrow> u16 list \<Rightarrow> u32 \<Rightarrow> (fault + (int \<times> u16 list)) option" where
  "utf8_loop u n i8 d i2 =
     (case utf8_step u i8 d i2 of
        Inl e \<Rightarrow> Some (Inl e)
      | Inr None \<Rightarrow> Some (Inr (1, d))
      | Inr (Some (i8', d')) \<Rightarrow>
          if ucast i8' < n - 1 then utf8_loop u n i8' d' (i2 + 1) else Some (Inr (0, d')))"

text \<open>
  The result is the return value with the final contents of \<open>ucs2_data\<close>; a loop that never ends is
  the fault \<open>Diverges\<close>. The capacity is a parameter of the C function that its body never reads.
\<close>

definition utf8_to_ucs2 :: "byte list \<Rightarrow> u64 \<Rightarrow> u16 list \<Rightarrow> u64 \<Rightarrow> fault + (int \<times> u16 list)" where
  "utf8_to_ucs2 utf8_data utf8_num_bytes ucs2_data ucs2_data_capacity_num_bytes =
     (case utf8_loop utf8_data utf8_num_bytes 0 ucs2_data 0 of
        None \<Rightarrow> Inl Diverges | Some r \<Rightarrow> r)"

section \<open>Termination and memory accesses\<close>

lemma unat_add_small:
  "unat i + k < 2 ^ 32 \<Longrightarrow> unat (i + of_nat k :: u32) = unat i + k"
  by (simp add: unat_word_ariths unat_of_nat)

lemma utf8_at_Inr: "utf8_at u i = Inr b \<longleftrightarrow> unat i < length u \<and> b = u ! unat i"
  by (auto simp: utf8_at_def)

lemma ucs2_store_Inr: "ucs2_store d i x = Inr d' \<longleftrightarrow> unat i < length d \<and> d' = d[unat i := x]"
  by (auto simp: ucs2_store_def)

lemma sbind_eq_Inr: "sbind m f = Inr y \<longleftrightarrow> (\<exists>x. m = Inr x \<and> f x = Inr y)"
  by (cases m) auto

lemma sbind_eq_Inl: "sbind m f = Inl e \<longleftrightarrow> m = Inl e \<or> (\<exists>x. m = Inr x \<and> f x = Inl e)"
  by (cases m) auto

text \<open>A turn that goes on has advanced \<open>i8\<close> by one to three bytes, all of them inside the string.\<close>

lemma utf8_step_Some:
  assumes "utf8_step u i8 d i2 = Inr (Some (i8', d'))" "length u < 2 ^ 32"
  shows "unat i8 < unat i8' \<and> unat i8' \<le> length u \<and> length d' = length d \<and> unat i2 < length d"
proof -
  have u: "unat (i8 + 1) = unat i8 + 1" if "unat i8 < length u"
    using unat_add_small [of i8 1] that assms(2) by simp
  have step1: "unat i8 < unat (i8 + 1) \<and> unat (i8 + 1) \<le> length u" if "unat i8 < length u"
    using u [OF that] that by simp
  have step2: "unat i8 < unat (i8 + 2) \<and> unat (i8 + 2) \<le> length u"
    if "unat i8 < length u" "unat (i8 + 1) < length u"
    using unat_add_small [of i8 2] u that assms(2) by simp
  have step3: "unat i8 < unat (i8 + 3) \<and> unat (i8 + 3) \<le> length u"
    if "unat i8 < length u" "unat (i8 + 1) < length u" "unat (i8 + 2) < length u"
    using unat_add_small [of i8 3] unat_add_small [of i8 2] u that assms(2) by simp
  show ?thesis
    using assms(1) step1 step2 step3
    by (auto simp: utf8_step_def sbind_eq_Inr utf8_at_Inr ucs2_store_Inr split: if_splits)
qed

lemma utf8_loop_returns:
  "length u < 2 ^ 32 \<Longrightarrow> \<exists>r. utf8_loop u n i8 d i2 = Some r"
proof (induction "length u - unat i8" arbitrary: i8 d i2 rule: less_induct)
  case less
  show ?case
  proof (cases "utf8_step u i8 d i2")
    case (Inl e)
    then show ?thesis by (simp add: utf8_loop.simps)
  next
    case (Inr st)
    show ?thesis
    proof (cases st)
      case None
      with Inr show ?thesis by (simp add: utf8_loop.simps)
    next
      case (Some p)
      obtain i8' d' where p: "p = (i8', d')" by force
      with Inr Some less.prems have "unat i8 < unat i8'" "unat i8' \<le> length u"
        by (auto dest: utf8_step_Some)
      then have "\<exists>r. utf8_loop u n i8' d' (i2 + 1) = Some r"
        by (intro less.hyps less.prems) auto
      with Inr Some p show ?thesis by (simp add: utf8_loop.simps [of u n i8])
    qed
  qed
qed



text \<open>
  A string of \<open>n\<close> bytes is read at most one byte beyond its end, and at most \<open>n - 1\<close> code units are
  written: \<open>i8\<close> stays below \<open>n - 1\<close> at the head of the loop and \<open>i2\<close> never overtakes it.
\<close>

lemma utf8_step_safe:
  assumes "unat i8 + 2 < length u" "length u < 2 ^ 32" "unat i2 < length d"
  shows "\<exists>r. utf8_step u i8 d i2 = Inr r"
  using assms unat_add_small [of i8 1] unat_add_small [of i8 2]
  by (auto simp: utf8_step_def utf8_at_def ucs2_store_def)

lemma utf8_loop_safe:
  assumes "2 \<le> n" "n < length u" "length u < 2 ^ 32" "n - 1 \<le> length d"
    and "unat i8 < n - 1" "unat i2 \<le> unat i8"
  shows "\<exists>v. utf8_loop u (of_nat n) i8 d i2 = Some (Inr v)"
  using assms
proof (induction "length u - unat i8" arbitrary: i8 d i2 rule: less_induct)
  case less
  have "unat i8 + 2 < length u" "unat i2 < length d"
    using less.prems by linarith+
  then obtain r where r: "utf8_step u i8 d i2 = Inr r"
    using utf8_step_safe less.prems(3) by blast
  show ?case
  proof (cases r)
    case None
    with r show ?thesis by (simp add: utf8_loop.simps)
  next
    case (Some p)
    obtain i8' d' where p: "p = (i8', d')" by force
    from r Some p have st: "utf8_step u i8 d i2 = Inr (Some (i8', d'))" by simp
    note adv = utf8_step_Some [OF st less.prems(3)]
    have n1: "unat (of_nat n - 1 :: u64) = n - 1"
    proof -
      have "(of_nat n - 1 :: u64) = of_nat (n - 1)" using less.prems(1) by simp
      then show ?thesis using less.prems by (simp add: unat_of_nat del: of_nat_diff)
    qed
    have guard: "ucast i8' < (of_nat n - 1 :: u64) \<longleftrightarrow> unat i8' < n - 1"
      by (simp add: word_less_nat_alt n1)
    show ?thesis
    proof (cases "unat i8' < n - 1")
      case False
      with st guard show ?thesis by (simp add: utf8_loop.simps)
    next
      case True
      have "unat (i2 + 1) \<le> unat i8'"
        using adv less.prems unat_add_small [of i2 1] by (simp add: unat_word_ariths)
      then have "\<exists>v. utf8_loop u (of_nat n) i8' d' (i2 + 1) = Some (Inr v)"
        using adv less.prems True by (intro less.hyps) auto
      with st guard True show ?thesis by (simp add: utf8_loop.simps [of u _ i8])
    qed
  qed
qed



text \<open>That extra byte is needed. A NUL-terminated name that ends in the lead byte of a
  three-byte sequence makes the conversion read the byte behind its terminator.\<close>

lemma utf8_to_ucs2_overreads_truncated_lead:
  "utf8_to_ucs2 [0xE2, 0] 2 [0, 0] 4 = Inl Oob_Read"
  by (simp add: utf8_to_ucs2_def utf8_loop.simps utf8_step_def utf8_at_def)

section \<open>Round trip with the UTF-8 encoding\<close>

text \<open>The UTF-8 encoding of a code unit of the basic multilingual plane.\<close>

definition encode_unit :: "u16 \<Rightarrow> byte list" where
  "encode_unit c =
     (if c < 0x80 then [ucast c]
      else if c < 0x800 then [0xC0 OR ucast (drop_bit 6 c), 0x80 OR (ucast c AND 0x3F)]
      else [0xE0 OR ucast (drop_bit 12 c), 0x80 OR (ucast (drop_bit 6 c) AND 0x3F),
            0x80 OR (ucast c AND 0x3F)])"

definition encode_utf8 :: "u16 list \<Rightarrow> byte list" where
  "encode_utf8 cs = concat (map encode_unit cs)"

lemma encode_unit_length: "0 < length (encode_unit c) \<and> length (encode_unit c) \<le> 3"
  by (simp add: encode_unit_def)

lemma word_eq_upt:
  fixes a b :: "'a::len word"
  assumes "list_all (\<lambda>n. bit a n = bit b n) [0..<LENGTH('a)]"
  shows "a = b"
  by (rule bit_word_eqI) (use assms in \<open>simp add: list_all_iff\<close>)

lemma byte_eqI:
  assumes "bit a 0 = bit b 0" "bit a 1 = bit b 1" "bit a 2 = bit b 2" "bit a 3 = bit b 3"
    "bit a 4 = bit b 4" "bit a 5 = bit b 5" "bit a 6 = bit b 6" "bit a 7 = bit b 7"
  shows "a = (b :: byte)"
  by (rule word_eq_upt) (use assms in \<open>simp add: upt_conv_Cons numeral_eq_Suc\<close>)

lemma u16_eqI:
  assumes "bit a 0 = bit b 0" "bit a 1 = bit b 1" "bit a 2 = bit b 2" "bit a 3 = bit b 3"
    "bit a 4 = bit b 4" "bit a 5 = bit b 5" "bit a 6 = bit b 6" "bit a 7 = bit b 7"
    "bit a 8 = bit b 8" "bit a 9 = bit b 9" "bit a 10 = bit b 10" "bit a 11 = bit b 11"
    "bit a 12 = bit b 12" "bit a 13 = bit b 13" "bit a 14 = bit b 14" "bit a 15 = bit b 15"
  shows "a = (b :: u16)"
  by (rule word_eq_upt) (use assms in \<open>simp add: upt_conv_Cons numeral_eq_Suc\<close>)

lemma bit_small:
  assumes "(c :: u16) < n" "unat n \<le> 2 ^ i"
  shows "\<not> bit c i"
  using bit_imp_unat_ge [of c i] assms by (auto simp: word_less_nat_alt)

text \<open>The three forms of a step: lead byte class and decoded value.\<close>

lemma decode_one:
  fixes c :: u16
  assumes "c < 0x80"
  shows "ucast c AND 0xF8 \<noteq> (0xF0 :: byte)" "ucast c AND 0xF0 \<noteq> (0xE0 :: byte)"
    "ucast c AND 0xE0 \<noteq> (0xC0 :: byte)" "drop_bit 7 (ucast c :: byte) = 0"
    "ucast (ucast c :: byte) AND 0x00FF = c"
proof -
  have hi: "\<not> bit c i" if "7 \<le> i" for i
    using bit_small [OF assms, of i] power_increasing [OF that, of "2 :: nat"] by simp
  show "ucast c AND 0xF8 \<noteq> (0xF0 :: byte)" "ucast c AND 0xF0 \<noteq> (0xE0 :: byte)"
    "ucast c AND 0xE0 \<noteq> (0xC0 :: byte)"
    using hi [of 7] by (auto simp: bit_eq_iff bit_simps intro!: exI [of _ 7])
  show "drop_bit 7 (ucast c :: byte) = 0"
    by (rule byte_eqI) (simp_all add: bit_simps hi)
  show "ucast (ucast c :: byte) AND 0x00FF = c"
    by (rule u16_eqI) (simp_all add: bit_simps hi)
qed

lemma decode_two:
  fixes c :: u16
  assumes "c < 0x800"
  defines "b0 \<equiv> 0xC0 OR ucast (drop_bit 6 c) :: byte" and "b1 \<equiv> 0x80 OR (ucast c AND 0x3F) :: byte"
  shows "b0 AND 0xF8 \<noteq> 0xF0" "b0 AND 0xF0 \<noteq> 0xE0" "b0 AND 0xE0 = 0xC0"
    "(push_bit 6 (ucast b0) AND 0x07C0) OR (ucast b1 AND 0x003F) = c"
proof -
  have hi: "\<not> bit c i" if "11 \<le> i" for i
    using bit_small [OF assms(1), of i] power_increasing [OF that, of "2 :: nat"] by simp
  show "b0 AND 0xF8 \<noteq> 0xF0" "b0 AND 0xF0 \<noteq> 0xE0"
    unfolding b0_def using hi [of 11] by (auto simp: bit_eq_iff bit_simps intro!: exI [of _ 5])
  show "b0 AND 0xE0 = 0xC0"
    unfolding b0_def by (rule byte_eqI) (simp_all add: bit_simps hi)
  show "(push_bit 6 (ucast b0) AND 0x07C0) OR (ucast b1 AND 0x003F) = c"
    unfolding b0_def b1_def by (rule u16_eqI) (simp_all add: bit_simps hi)
qed

lemma decode_three:
  fixes c :: u16
  defines "b0 \<equiv> 0xE0 OR ucast (drop_bit 12 c) :: byte"
    and "b1 \<equiv> 0x80 OR (ucast (drop_bit 6 c) AND 0x3F) :: byte"
    and "b2 \<equiv> 0x80 OR (ucast c AND 0x3F) :: byte"
  shows "b0 AND 0xF8 \<noteq> 0xF0" "b0 AND 0xF0 = 0xE0"
    "push_bit 12 (ucast b0) OR (push_bit 6 (ucast b1) AND 0x0FC0) OR (ucast b2 AND 0x003F) = c"
proof -
  have hi: "\<not> bit c i" if "16 \<le> i" for i
    using that bit_imp_le_length [of c i] by auto
  show "b0 AND 0xF8 \<noteq> 0xF0"
    unfolding b0_def using hi [of 16] by (auto simp: bit_eq_iff bit_simps intro!: exI [of _ 4])
  show "b0 AND 0xF0 = 0xE0"
    unfolding b0_def by (rule byte_eqI) (simp_all add: bit_simps hi)
  show "push_bit 12 (ucast b0) OR (push_bit 6 (ucast b1) AND 0x0FC0) OR (ucast b2 AND 0x003F) = c"
    unfolding b0_def b1_def b2_def by (rule u16_eqI) (simp_all add: bit_simps hi)
qed

lemma utf8_at_append:
  assumes "unat i = length pre" "length pre + k < length u" "length u < 2 ^ 32" "u = pre @ rest"
  shows "utf8_at u (i + of_nat k) = Inr (rest ! k)"
proof -
  have "unat (i + of_nat k) = length pre + k"
    using assms unat_add_small [of i k] by simp
  then show ?thesis using assms by (simp add: utf8_at_def)
qed

lemma utf8_step_encode:
  assumes u: "u = pre @ encode_unit c @ suf" and len: "length u < 2 ^ 32"
    and i8: "unat i8 = length pre" and i2: "unat i2 < length d"
  shows "utf8_step u i8 d i2 = Inr (Some (i8 + of_nat (length (encode_unit c)), d[unat i2 := c]))"
proof -
  let ?rest = "encode_unit c @ suf"
  have at: "utf8_at u (i8 + of_nat k) = Inr (?rest ! k)" if "k < length (encode_unit c)" for k
    by (rule utf8_at_append [OF i8 _ len u]) (use that u in simp)
  have store: "ucs2_store d i2 x = Inr (d[unat i2 := x])" for x
    using i2 by (simp add: ucs2_store_def)
  consider (one) "c < 0x80" | (two) "\<not> c < 0x80" "c < 0x800" | (three) "\<not> c < 0x80" "\<not> c < 0x800"
    by blast
  then show ?thesis
  proof cases
    case one
    then have e: "encode_unit c = [ucast c]" by (simp add: encode_unit_def)
    show ?thesis
      using at [of 0] decode_one [OF one] by (simp add: utf8_step_def e store)
  next
    case two
    then have e: "encode_unit c = [0xC0 OR ucast (drop_bit 6 c), 0x80 OR (ucast c AND 0x3F)]"
      by (simp add: encode_unit_def)
    show ?thesis
      using at [of 0] at [of 1] decode_two [OF two(2)] by (simp add: utf8_step_def e store)
  next
    case three
    then have e: "encode_unit c = [0xE0 OR ucast (drop_bit 12 c),
        0x80 OR (ucast (drop_bit 6 c) AND 0x3F), 0x80 OR (ucast c AND 0x3F)]"
      by (simp add: encode_unit_def)
    show ?thesis
      using at [of 0] at [of 1] at [of 2] decode_three [of c] by (simp add: utf8_step_def e store)
  qed
qed

lemma utf8_guard:
  assumes "0 < length u" "length u < 2 ^ 32"
  shows "ucast i < (of_nat (length u) - 1 :: u64) \<longleftrightarrow> unat (i :: u32) < length u - 1"
proof -
  have "(of_nat (length u) - 1 :: u64) = of_nat (length u - 1)" using assms(1) by (simp add: Suc_leI)
  moreover have "unat (of_nat (length u - 1) :: u64) = length u - 1"
    using assms(2) by (simp add: unat_of_nat)
  ultimately have "unat (of_nat (length u) - 1 :: u64) = length u - 1" by simp
  then show ?thesis by (simp add: word_less_nat_alt)
qed

lemma utf8_loop_encode:
  assumes "u = pre @ encode_utf8 (c # cs) @ [0]" "length u < 2 ^ 32"
    and "unat i8 = length pre" "unat i2 = k" "k + length (c # cs) \<le> length d" "length d < 2 ^ 32"
  shows "utf8_loop u (of_nat (length u)) i8 d i2 = Some (Inr (0, blit k (c # cs) d))"
  using assms
proof (induction cs arbitrary: c pre i8 i2 k d)
  case Nil
  let ?i8 = "i8 + of_nat (length (encode_unit c))"
  have st: "utf8_step u i8 d i2 = Inr (Some (?i8, d[k := c]))"
    using utf8_step_encode [of u pre c "[0]" i8 i2 d] Nil by (simp add: encode_utf8_def)
  have "unat ?i8 = length u - 1"
    using Nil unat_add_small [of i8 "length (encode_unit c)"] by (simp add: encode_utf8_def)
  then have "\<not> ucast ?i8 < (of_nat (length u) - 1 :: u64)"
    using utf8_guard [of u ?i8] Nil by (auto simp: encode_utf8_def)
  moreover have "blit k [c] d = d[k := c]"
    using Nil by (simp add: blit_def upd_conv_take_nth_drop)
  ultimately show ?case by (simp add: utf8_loop.simps st)
next
  case (Cons c' cs)
  let ?i8 = "i8 + of_nat (length (encode_unit c))"
  have u: "u = (pre @ encode_unit c) @ encode_utf8 (c' # cs) @ [0]"
    using Cons.prems(1) by (simp add: encode_utf8_def)
  have st: "utf8_step u i8 d i2 = Inr (Some (?i8, d[k := c]))"
    using utf8_step_encode [of u pre c "encode_utf8 (c' # cs) @ [0]" i8 i2 d] Cons.prems
    by (simp add: encode_utf8_def)
  have i8: "unat ?i8 = length (pre @ encode_unit c)"
    using Cons.prems unat_add_small [of i8 "length (encode_unit c)"] by (simp add: encode_utf8_def)
  have "unat ?i8 < length u - 1"
    using i8 encode_unit_length [of c'] by (subst u) (simp add: encode_utf8_def)
  then have guard: "ucast ?i8 < (of_nat (length u) - 1 :: u64)"
    using utf8_guard [of u ?i8] Cons.prems by (auto simp: encode_utf8_def)
  have i2: "unat (i2 + 1) = Suc k"
    using unat_add_small [of i2 1] Cons.prems by simp
  have "utf8_loop u (of_nat (length u)) ?i8 (d[k := c]) (i2 + 1) =
      Some (Inr (0, blit (Suc k) (c' # cs) (d[k := c])))"
    by (rule Cons.IH [OF u Cons.prems(2) i8 i2]) (use Cons.prems in simp_all)
  moreover have "blit (Suc k) (c' # cs) (d[k := c]) = blit k (c # c' # cs) d"
    using Cons.prems(5) by (simp add: blit_def take_Suc_conv_app_nth drop_update_cancel)
  ultimately show ?case by (simp add: utf8_loop.simps [of u _ i8] st guard)
qed

lemma utf8_to_ucs2_encode:
  assumes "cs \<noteq> []" "length cs \<le> length d" "length d < 2 ^ 32"
    and "length (encode_utf8 cs) < 2 ^ 32 - 1"
  shows "utf8_to_ucs2 (encode_utf8 cs @ [0]) (of_nat (length (encode_utf8 cs @ [0]))) d cap =
    Inr (0, cs @ drop (length cs) d)"
proof -
  obtain c cs' where cs: "cs = c # cs'" using assms(1) by (cases cs) auto
  let ?u = "encode_utf8 cs @ [0]"
  have "utf8_loop ?u (of_nat (length ?u)) 0 d 0 = Some (Inr (0, blit 0 (c # cs') d))"
    by (rule utf8_loop_encode [where pre = "[]"]) (use assms cs in simp_all)
  then show ?thesis by (simp add: utf8_to_ucs2_def cs)
qed

text \<open>C22: encoding any non-empty sequence of 16-bit code units in UTF-8, NUL-terminating it and
  converting it back yields the sequence, in the first cells of the destination, and leaves the
  remaining cells alone.\<close>

theorem utf8_to_ucs2_roundtrip:
  assumes "cs \<noteq> []" "length cs \<le> length d" "length d < 2 ^ 32"
    and "length (encode_utf8 cs) < 2 ^ 32 - 1"
  shows "utf8_to_ucs2 (encode_utf8 cs @ [0]) (of_nat (length (encode_utf8 cs @ [0]))) d cap =
    Inr (0, cs @ drop (length cs) d)"
  using assms by (rule utf8_to_ucs2_encode)

theorem utf8_to_ucs2_roundtrip_witness:
  "utf8_to_ucs2 (encode_utf8 [0x20AC, 0x41] @ [0]) (of_nat (length (encode_utf8 [0x20AC, 0x41] @ [0])))
     [0, 0, 0] 6 = Inr (0, [0x20AC, 0x41] @ drop (length [0x20AC :: u16, 0x41]) [0, 0, 0])"
  by (rule utf8_to_ucs2_roundtrip) (simp_all add: encode_utf8_def encode_unit_def)

text \<open>ASCII strings, such as the loader's partition names, are their own encoding.\<close>

lemma encode_utf8_ascii:
  "(\<And>b. b \<in> set bs \<Longrightarrow> b < 0x80) \<Longrightarrow> encode_utf8 (map ucast bs) = bs"
proof (induction bs)
  case (Cons b bs)
  have "b < 0x80" using Cons.prems by simp
  then have "(ucast b :: u16) < 0x80" by (simp add: word_less_nat_alt)
  then have "encode_unit (ucast b) = [b]" by (simp add: encode_unit_def)
  with Cons show ?case by (simp add: encode_utf8_def)
qed (simp add: encode_utf8_def)

end
