(* ===== verification/Bub_Efi.thy ===== *)
theory Bub_Efi
  imports Bub_Ops Bub_Util
begin

text \<open>
  The firmware as the boot loader sees it, and the primitives of \<open>bub_sysdeps_uefi.c\<close> that call
  it. The UEFI services and the gnu-efi helpers are not part of the repository: they are the fields
  of a record that every definition takes as a parameter, over an abstract firmware state \<open>'w\<close>.
  What the loader relies on is stated as hypotheses where it is needed; here it is the discipline
  of the memory pool.
\<close>

section \<open>The services\<close>

type_synonym EFI_STATUS = u64
type_synonym ptr = u64
type_synonym handle = u64

definition EFI_SUCCESS :: EFI_STATUS where "EFI_SUCCESS = 0"
definition EFI_NOT_FOUND :: EFI_STATUS where "EFI_NOT_FOUND = 0x800000000000000E"

text \<open>A status is an error when its top bit is set.\<close>

definition EFI_ERROR :: "EFI_STATUS \<Rightarrow> bool" where
  "EFI_ERROR err \<longleftrightarrow> bit err 63"

datatype memory_type = EfiLoaderCode | EfiLoaderData | EfiBootServicesData

datatype protocol = LOADED_IMAGE_PROTOCOL | BlockIoProtocol | DiskIoProtocol

record media =
  MediaId :: u32
  BlockSize :: u32
  LogicalPartition :: bool
  MediaPresent :: bool

text \<open>
  A service takes its arguments and the contents of the buffers it may write, and returns its
  status, its outputs and the new contents of the buffers. An allocated block comes with its
  contents; after that the block belongs to the program. A device path is the list of its nodes.
  \<open>Stack n w\<close> is what an uninitialised local array of \<open>n\<close> bytes happens to hold.
\<close>

record 'w efi =
  AllocatePool :: "memory_type \<Rightarrow> u64 \<Rightarrow> 'w \<Rightarrow> (EFI_STATUS \<times> ptr \<times> byte list) \<times> 'w"
  FreePool :: "ptr \<Rightarrow> 'w \<Rightarrow> EFI_STATUS \<times> 'w"
  Media :: "ptr \<Rightarrow> 'w \<Rightarrow> media"
  ReadBlocks :: "ptr \<Rightarrow> u32 \<Rightarrow> u64 \<Rightarrow> u64 \<Rightarrow> byte list \<Rightarrow> 'w \<Rightarrow> (EFI_STATUS \<times> byte list) \<times> 'w"
  ReadDisk :: "ptr \<Rightarrow> u32 \<Rightarrow> u64 \<Rightarrow> u64 \<Rightarrow> byte list \<Rightarrow> 'w \<Rightarrow> (EFI_STATUS \<times> byte list) \<times> 'w"
  WriteDisk :: "ptr \<Rightarrow> u32 \<Rightarrow> u64 \<Rightarrow> u64 \<Rightarrow> byte list \<Rightarrow> 'w \<Rightarrow> EFI_STATUS \<times> 'w"
  HandleProtocol :: "handle \<Rightarrow> protocol \<Rightarrow> 'w \<Rightarrow> (EFI_STATUS \<times> ptr) \<times> 'w"
  LocateDevicePath :: "protocol \<Rightarrow> ptr \<Rightarrow> byte list \<Rightarrow> 'w \<Rightarrow> (EFI_STATUS \<times> ptr \<times> handle) \<times> 'w"
  LoadImage :: "handle \<Rightarrow> ptr \<Rightarrow> byte list \<Rightarrow> u64 \<Rightarrow> 'w \<Rightarrow> (EFI_STATUS \<times> handle) \<times> 'w"
  StartImage :: "handle \<Rightarrow> 'w \<Rightarrow> EFI_STATUS \<times> 'w"
  Stall :: "u64 \<Rightarrow> 'w \<Rightarrow> EFI_STATUS \<times> 'w"
  Exit :: "handle \<Rightarrow> EFI_STATUS \<Rightarrow> u64 \<Rightarrow> 'w \<Rightarrow> EFI_STATUS \<times> 'w"
  Print :: "u16 list \<Rightarrow> 'w \<Rightarrow> u64 \<times> 'w"
  LoadedImageDevice :: "ptr \<Rightarrow> 'w \<Rightarrow> handle"
  SetLoadOptions :: "ptr \<Rightarrow> ptr \<Rightarrow> u16 list \<Rightarrow> u32 \<Rightarrow> 'w \<Rightarrow> 'w"
  DevicePathFromHandle :: "handle \<Rightarrow> 'w \<Rightarrow> byte list list option"
  IsDevicePathEnd :: "byte list \<Rightarrow> bool"
  EndDevicePath :: "byte list"
  CalculateCrc :: "byte list \<Rightarrow> u32"
  StrLen :: "u16 list \<Rightarrow> fault + nat"
  Stack :: "nat \<Rightarrow> 'w \<Rightarrow> byte list"

section \<open>Memory\<close>

text \<open>A NULL pointer is the address 0; it comes with no memory.\<close>

definition bub_malloc :: "'w efi \<Rightarrow> u64 \<Rightarrow> ('w, ptr \<times> byte list) io" where
  "bub_malloc fw n =
     bnd (call (AllocatePool fw EfiBootServicesData n)) (\<lambda>(err, x, mem).
     if EFI_ERROR err then ret (0, []) else ret (x, mem))"

definition bub_calloc :: "'w efi \<Rightarrow> u64 \<Rightarrow> ('w, ptr \<times> byte list) io" where
  "bub_calloc fw n =
     bnd (bub_malloc fw n) (\<lambda>(x, mem).
     if x \<noteq> 0
     then bnd (pure (bub_memset mem 0 (unat n))) (\<lambda>mem. ret (x, mem))
     else ret (x, mem))"

text \<open>The warning text of a failed \<open>FreePool\<close> is formatted by gnu-efi and not part of the model.\<close>

definition bub_free :: "'w efi \<Rightarrow> ptr \<Rightarrow> ('w, unit) io" where
  "bub_free fw p =
     bnd (call (FreePool fw p)) (\<lambda>err.
     if EFI_ERROR err then bnd (call (Stall fw (3 * 1000 * 1000))) (\<lambda>_. ret ()) else ret ())"

text \<open>Several blocks released one after the other.\<close>

fun bub_frees :: "'w efi \<Rightarrow> ptr list \<Rightarrow> ('w, unit) io" where
  "bub_frees fw [] = ret ()"
| "bub_frees fw (p # ps) = bnd (bub_free fw p) (\<lambda>_. bub_frees fw ps)"

section \<open>Devices\<close>

text \<open>
  A transfer into a buffer shorter than the size that is announced to the firmware is a write
  outside the buffer, one out of a shorter buffer a read outside of it.
\<close>

definition read_blocks :: "'w efi \<Rightarrow> ptr \<Rightarrow> u64 \<Rightarrow> u64 \<Rightarrow> byte list \<Rightarrow> ('w, EFI_STATUS \<times> byte list) io" where
  "read_blocks fw block_io lba n buf w =
     (if length buf < unat n then fail Oob_Write w
      else call (ReadBlocks fw block_io (MediaId (Media fw block_io w)) lba n buf) w)"

definition read_disk :: "'w efi \<Rightarrow> ptr \<Rightarrow> u32 \<Rightarrow> u64 \<Rightarrow> u64 \<Rightarrow> byte list \<Rightarrow> ('w, EFI_STATUS \<times> byte list) io" where
  "read_disk fw disk_io media_id off n buf =
     (if length buf < unat n then fail Oob_Write
      else call (ReadDisk fw disk_io media_id off n buf))"

definition write_disk :: "'w efi \<Rightarrow> ptr \<Rightarrow> u32 \<Rightarrow> u64 \<Rightarrow> u64 \<Rightarrow> byte list \<Rightarrow> ('w, EFI_STATUS) io" where
  "write_disk fw disk_io media_id off n buf =
     (if length buf < unat n then fail Oob_Read
      else call (WriteDisk fw disk_io media_id off n buf))"

text \<open>The current contents of \<open>block_io->Media\<close>, and an uninitialised local array.\<close>

definition media_of :: "'w efi \<Rightarrow> ptr \<Rightarrow> ('w, media) io" where
  "media_of fw block_io w = (Inr (Media fw block_io w), w)"

definition stack_array :: "'w efi \<Rightarrow> nat \<Rightarrow> ('w, byte list) io" where
  "stack_array fw n w = (Inr (take n (Stack fw n w @ replicate n 0)), w)"

section \<open>Console and abort\<close>

text \<open>A block of memory as an array of 16-bit units.\<close>

fun u16_list :: "byte list \<Rightarrow> u16 list" where
  "u16_list (a # b # bs) = le_val [a, b] # u16_list bs"
| "u16_list _ = []"

definition u16_bytes :: "u16 list \<Rightarrow> byte list" where
  "u16_bytes cs = concat (map (le_bytes 2) cs)"

definition bub_print :: "'w efi \<Rightarrow> byte list \<Rightarrow> ('w, unit) io" where
  "bub_print fw format =
     bnd (pure (bub_strlen format)) (\<lambda>len.
     let utf8_bytes = of_nat len + 1; max_ucs2_bytes = utf8_bytes * 2 in
     bnd (bub_calloc fw max_ucs2_bytes) (\<lambda>(format_ucs2, mem).
     if format_ucs2 = 0 then ret ()
     else
       bnd (pure (utf8_to_ucs2 format utf8_bytes (u16_list mem) max_ucs2_bytes)) (\<lambda>(res, text_ucs2).
       bnd (if res = 0 then bnd (call (Print fw text_ucs2)) (\<lambda>_. ret ()) else ret ()) (\<lambda>_.
       bub_free fw format_ucs2))))"

text \<open>\<open>bub_warning\<close> in the programs linked with this \<open>bub_print\<close>.\<close>

abbreviation efi_warning :: "'w efi \<Rightarrow> string \<Rightarrow> ('w, unit) io" where
  "efi_warning fw \<equiv> bub_warning (bub_print fw)"

text \<open>
  \<open>bub_abort\<close> is declared not to return; the compiler may assume so, and the model ends there.
  \<open>Exit\<close> gets a NULL image handle.
\<close>

definition bub_abort :: "'w efi \<Rightarrow> ('w, 'a) io" where
  "bub_abort fw =
     bnd (bub_print fw (10 # cstr (''ABORTING...'' @ nl))) (\<lambda>_.
     bnd (call (Stall fw (5 * 1000 * 1000))) (\<lambda>_.
     bnd (call (Exit fw 0 EFI_NOT_FOUND 0)) (\<lambda>_.
     fail Aborted)))"

section \<open>The memory pool\<close>

text \<open>
  What the UEFI specification says of the pool, with \<open>live w\<close> the set of the allocated blocks: an
  allocation that succeeds returns a new block of the size asked for, one that fails changes
  nothing, a block that is freed is gone, and no other service the loader calls between an
  allocation and its release touches the pool.
\<close>

definition alloc_ok :: "'w efi \<Rightarrow> ('w \<Rightarrow> ptr set) \<Rightarrow> memory_type \<Rightarrow> u64 \<Rightarrow> 'w \<Rightarrow> bool" where
  "alloc_ok fw live t n w \<longleftrightarrow>
     (case AllocatePool fw t n w of ((err, x, mem), w') \<Rightarrow>
        if EFI_ERROR err then live w' = live w
        else x \<noteq> 0 \<and> x \<notin> live w \<and> live w' = insert x (live w) \<and> length mem = unat n)"

definition pool_ok :: "'w efi \<Rightarrow> ('w \<Rightarrow> ptr set) \<Rightarrow> bool" where
  "pool_ok fw live \<longleftrightarrow>
     (\<forall>w. 0 \<notin> live w) \<and>
     (\<forall>t n w. alloc_ok fw live t n w) \<and>
     (\<forall>p w. live (snd (FreePool fw p w)) = live w - {p}) \<and>
     (\<forall>t w. live (snd (Stall fw t w)) = live w) \<and>
     (\<forall>s w. live (snd (Print fw s w)) = live w) \<and>
     (\<forall>d m l n b w. live (snd (ReadBlocks fw d m l n b w)) = live w) \<and>
     (\<forall>d m l n b w. live (snd (ReadDisk fw d m l n b w)) = live w) \<and>
     (\<forall>d m l n b w. live (snd (WriteDisk fw d m l n b w)) = live w)"

lemma EFI_SUCCESS_no_error [simp]: "\<not> EFI_ERROR EFI_SUCCESS" "\<not> EFI_ERROR 0"
  by (simp_all add: EFI_ERROR_def EFI_SUCCESS_def)

lemma EFI_NOT_FOUND_error [simp]: "EFI_ERROR EFI_NOT_FOUND"
  by (simp add: EFI_ERROR_def EFI_NOT_FOUND_def bit_numeral_word_iff)

lemma pool_ok_keep:
  assumes "pool_ok fw live"
  shows "live (snd (FreePool fw p w)) = live w - {p}" "live (snd (Stall fw t w)) = live w"
    "live (snd (Print fw s w)) = live w" "live (snd (ReadBlocks fw d m l n b w)) = live w"
    "live (snd (ReadDisk fw d m l n b w)) = live w" "live (snd (WriteDisk fw d m l n b w)) = live w"
  using assms by (simp_all add: pool_ok_def)

lemma pool_ok_null: "pool_ok fw live \<Longrightarrow> 0 \<notin> live w"
  by (simp add: pool_ok_def)

lemma pool_ok_alloc:
  assumes "pool_ok fw live" "AllocatePool fw t n w = ((err, x, mem), w')"
  shows "if EFI_ERROR err then live w' = live w
    else x \<noteq> 0 \<and> x \<notin> live w \<and> live w' = insert x (live w) \<and> length mem = unat n"
proof -
  have "alloc_ok fw live t n w" using assms(1) by (simp add: pool_ok_def)
  with assms(2) show ?thesis by (simp add: alloc_ok_def)
qed

lemma bub_malloc_run:
  assumes "pool_ok fw live"
  obtains w' where "bub_malloc fw n w = (Inr (0, []), w')" "live w' = live w"
  | x mem w' where "bub_malloc fw n w = (Inr (x, mem), w')" "x \<noteq> 0" "x \<notin> live w"
      "live w' = insert x (live w)" "length mem = unat n"
proof -
  obtain err x mem w' where a: "AllocatePool fw EfiBootServicesData n w = ((err, x, mem), w')"
    by (metis surj_pair)
  from pool_ok_alloc [OF assms a] a that show ?thesis
    by (cases "EFI_ERROR err") (auto simp: bub_malloc_def call_def)
qed

lemma bub_calloc_run:
  assumes "pool_ok fw live"
  obtains w' where "bub_calloc fw n w = (Inr (0, []), w')" "live w' = live w"
  | x w' where "bub_calloc fw n w = (Inr (x, replicate (unat n) 0), w')" "x \<noteq> 0" "x \<notin> live w"
      "live w' = insert x (live w)"
  by (rule bub_malloc_run [OF assms, of n w]) (auto simp: bub_calloc_def intro: that)

lemma bub_free_run:
  assumes "pool_ok fw live"
  obtains w' where "bub_free fw p w = (Inr (), w')" "live w' = live w - {p}"
proof -
  obtain err w1 where f: "FreePool fw p w = (err, w1)" by fastforce
  obtain s w2 where st: "Stall fw (3 * 1000 * 1000) w1 = (s, w2)" by fastforce
  have "live w1 = live w - {p}" "live w2 = live w1"
    using pool_ok_keep(1) [OF assms, of p w] pool_ok_keep(2) [OF assms, of "3 * 1000 * 1000" w1] f st
    by simp_all
  with f st that show ?thesis
    by (cases "EFI_ERROR err") (auto simp: bub_free_def call_def)
qed

lemma length_u16_list [simp]: "length (u16_list bs) = length bs div 2"
  by (induction bs rule: u16_list.induct) simp_all

lemma u16_list_zeros: "u16_list (replicate (2 * n) 0) = replicate n 0"
  by (induction n) simp_all

text \<open>
  \<open>bub_print\<close> releases the buffer it takes, whether the text is printed, cannot be converted or
  there is no memory.
\<close>

lemma bub_print_run:
  assumes "pool_ok fw live" "bub_strlen s = Inr n" "Suc n < 2 ^ 30"
  shows "(\<exists>w'. bub_print fw s w = (Inr (), w') \<and> live w' = live w) \<or>
    (\<exists>e x. utf8_to_ucs2 s (of_nat n + 1) (replicate (Suc n) 0) ((of_nat n + 1) * 2) = Inl e)"
proof (rule bub_calloc_run [OF assms(1), of "(of_nat n + 1) * 2" w])
  fix w'
  assume "bub_calloc fw ((of_nat n + 1) * 2) w = (Inr (0, []), w')" "live w' = live w"
  then show ?thesis using assms(2) by (simp add: bub_print_def Let_def)
next
  fix x w1
  assume c: "bub_calloc fw ((of_nat n + 1) * 2) w =
      (Inr (x, replicate (unat ((of_nat n + 1) * 2 :: u64)) 0), w1)"
    and x: "x \<noteq> 0" "x \<notin> live w" "live w1 = insert x (live w)"
  have "(of_nat n + 1) * 2 = (of_nat (2 * Suc n) :: u64)" by simp
  moreover have "unat (of_nat (2 * Suc n) :: u64) = 2 * Suc n"
    using assms(3) by (simp only: unat_of_nat) simp
  ultimately have mem: "u16_list (replicate (unat ((of_nat n + 1) * 2 :: u64)) 0) = replicate (Suc n) 0"
    by (simp only: u16_list_zeros)
  show ?thesis
  proof (cases "utf8_to_ucs2 s (of_nat n + 1) (replicate (Suc n) 0) ((of_nat n + 1) * 2)")
    case (Inr r)
    obtain res out where r: "r = (res, out)" by fastforce
    obtain k w2 where p: "Print fw out w1 = (k, w2)" by fastforce
    have l2: "live w2 = live w1" using pool_ok_keep(3) [OF assms(1), of out w1] p by simp
    obtain w3 where w3: "bub_free fw x w1 = (Inr (), w3)" "live w3 = live w1 - {x}"
      by (rule bub_free_run [OF assms(1), of x w1])
    obtain w4 where w4: "bub_free fw x w2 = (Inr (), w4)" "live w4 = live w2 - {x}"
      by (rule bub_free_run [OF assms(1), of x w2])
    show ?thesis
      using assms(2) c x mem Inr r p l2 w3 w4
      by (cases "res = 0") (auto simp: bub_print_def Let_def call_def)
  qed auto
qed

lemma ascii_to_ucs2:
  assumes "s \<noteq> []" "list_all (\<lambda>b. 0 < b \<and> b < 0x80) s" "length s < 2 ^ 29"
  shows "utf8_to_ucs2 (s @ [0]) (of_nat (length s) + 1) (replicate (Suc (length s)) 0)
      ((of_nat (length s) + 1) * 2) = Inr (0, map ucast s @ [0])"
proof -
  have enc: "encode_utf8 (map ucast s) = s"
    using assms(2) by (intro encode_utf8_ascii) (auto simp: list_all_iff)
  have len: "of_nat (length (s @ [0])) = (of_nat (length s) + 1 :: u64)" by (simp add: add.commute)
  have "utf8_to_ucs2 (s @ [0]) (of_nat (length s) + 1) (replicate (Suc (length s)) 0)
      ((of_nat (length s) + 1) * 2) =
      Inr (0, map ucast s @ drop (length s) (replicate (Suc (length s)) 0))"
    using utf8_to_ucs2_encode [of "map ucast s" "replicate (Suc (length s)) 0"
        "(of_nat (length s) + 1) * 2"] assms(1,3) enc
    unfolding len [symmetric] by (simp flip: replicate_Suc)
  moreover have "drop (length s) (replicate (Suc (length s)) 0) = [0 :: u16]"
    by (simp only: drop_replicate) simp
  ultimately show ?thesis by (simp only:)
qed

lemma bub_print_ascii:
  assumes "pool_ok fw live" "s \<noteq> []" "list_all (\<lambda>b. 0 < b \<and> b < 0x80) s" "length s < 2 ^ 29"
  shows "\<exists>w'. bub_print fw (s @ [0]) w = (Inr (), w') \<and> live w' = live w"
proof -
  have "0 \<notin> set s" using assms(3) by (auto simp: list_all_iff)
  then show ?thesis
    using bub_print_run [OF assms(1), of "s @ [0]" "length s" w] ascii_to_ucs2 [OF assms(2-4)] assms(4)
    by simp
qed

text \<open>Printing an ASCII message never faults and leaves the memory pool as it found it, with or
  without memory for the conversion.\<close>

lemma bub_print_keeps_pool:
  assumes "pool_ok fw live" "s \<noteq> []" "list_all (\<lambda>b. 0 < b \<and> b < 0x80) s" "length s < 2 ^ 29"
  shows "\<exists>w'. bub_print fw (s @ [0]) w = (Inr (), w') \<and> live w' = live w"
  using assms by (rule bub_print_ascii)

section \<open>A firmware\<close>

text \<open>
  A small firmware that fulfils the hypotheses of this development: a disk of 512-byte blocks and a
  pool of 63 blocks, reused after their release.
\<close>

record ram =
  ram_disk :: "byte list"
  blocks :: "ptr list"

definition ram_live :: "ram \<Rightarrow> ptr set" where
  "ram_live w = set (blocks w) - {0}"

definition ram_free :: "ram \<Rightarrow> ptr list" where
  "ram_free w = filter (\<lambda>p. p \<notin> set (blocks w)) (map of_nat [1..<64])"

definition ram_read :: "nat \<Rightarrow> nat \<Rightarrow> byte list \<Rightarrow> ram \<Rightarrow> (EFI_STATUS \<times> byte list) \<times> ram" where
  "ram_read off n buf w =
     (if off + n \<le> length (ram_disk w)
      then ((EFI_SUCCESS, blit 0 (chunk off n (ram_disk w)) buf), w) else ((0x8000000000000002, buf), w))"

definition ram_fw :: "ram efi" where
  "ram_fw = \<lparr>
     AllocatePool = \<lambda>t n w. (case ram_free w of
         [] \<Rightarrow> ((0x8000000000000009, 0, []), w)
       | p # _ \<Rightarrow> ((EFI_SUCCESS, p, replicate (unat n) 0xAF), w\<lparr>blocks := p # blocks w\<rparr>)),
     FreePool = \<lambda>p w. (EFI_SUCCESS, w\<lparr>blocks := removeAll p (blocks w)\<rparr>),
     Media = \<lambda>d w. \<lparr>MediaId = 1, BlockSize = 512, LogicalPartition = False, MediaPresent = True\<rparr>,
     ReadBlocks = \<lambda>d m lba n. ram_read (unat lba * 512) (unat n),
     ReadDisk = \<lambda>d m off n. ram_read (unat off) (unat n),
     WriteDisk = \<lambda>d m off n buf w.
       (if unat off + unat n \<le> length (ram_disk w)
        then (EFI_SUCCESS, w\<lparr>ram_disk := blit (unat off) (take (unat n) buf) (ram_disk w)\<rparr>)
        else (0x8000000000000002, w)),
     HandleProtocol = \<lambda>h p w. ((EFI_SUCCESS, 100), w),
     LocateDevicePath = \<lambda>p path bytes w. ((EFI_SUCCESS, path, 101), w),
     LoadImage = \<lambda>h path image n w. ((EFI_SUCCESS, 102), w),
     StartImage = \<lambda>h w. (EFI_SUCCESS, w),
     Stall = \<lambda>t w. (EFI_SUCCESS, w),
     Exit = \<lambda>h s n w. (EFI_SUCCESS, w),
     Print = \<lambda>s w. (0, w),
     LoadedImageDevice = \<lambda>p w. 103,
     SetLoadOptions = \<lambda>p q s n w. w,
     DevicePathFromHandle = \<lambda>h w. Some [[1, 1, 4, 0], [0x7f, 0xff, 4, 0]],
     IsDevicePathEnd = \<lambda>node. take 2 node = [0x7f, 0xff],
     EndDevicePath = [0x7f, 0xff, 4, 0],
     CalculateCrc = \<lambda>bs. 0,
     StrLen = \<lambda>s. if 0 \<in> set s then Inr (length (takeWhile (\<lambda>c. c \<noteq> 0) s)) else Inl Oob_Read,
     Stack = \<lambda>n w. replicate n 0xAF\<rparr>"

lemma ram_free_sound: "ram_free w = p # ps \<Longrightarrow> p \<notin> set (blocks w) \<and> p \<noteq> 0"
proof -
  assume "ram_free w = p # ps"
  then have "p \<in> set (ram_free w)" by simp
  then obtain i where i: "p \<notin> set (blocks w)" "p = of_nat i" "1 \<le> i" "i < 64"
    by (auto simp: ram_free_def)
  then have "unat p = i" by (simp add: unat_of_nat)
  with i show ?thesis by auto
qed

lemma ram_error [simp]: "EFI_ERROR 0x8000000000000009" "EFI_ERROR 0x8000000000000002"
  by (simp_all add: EFI_ERROR_def bit_numeral_word_iff)

lemma pool_ok_ram: "pool_ok ram_fw ram_live"
proof -
  have "alloc_ok ram_fw ram_live t n w" for t n w
    using ram_free_sound [of w] 
    by (cases "ram_free w") (auto simp: alloc_ok_def ram_fw_def ram_live_def)
  then show ?thesis
    unfolding pool_ok_def
    by (intro conjI allI) (auto simp: ram_fw_def ram_live_def ram_read_def)
qed

lemma bub_print_keeps_pool_witness:
  "\<exists>w'. bub_print ram_fw ([72, 105, 10] @ [0]) \<lparr>ram_disk = [], blocks = [1, 2]\<rparr> = (Inr (), w') \<and>
    ram_live w' = ram_live \<lparr>ram_disk = [], blocks = [1, 2]\<rparr>"
  by (rule bub_print_keeps_pool [OF pool_ok_ram]) simp_all

end
