(* ===== verification/Bub_Gpt.thy ===== *)
theory Bub_Gpt
  imports Bub_Efi
begin

text \<open>
  The partition table: the structures of \<open>bub_boot_kernel.h\<close>, the header check and the search for a
  partition by name of \<open>bub_boot_kernel.c\<close>.
\<close>

section \<open>The structures\<close>

record GPTHeader =
  signature :: "byte list"
  revision :: u32
  header_size :: u32
  header_crc32 :: u32
  gpth_reserved :: u32
  header_lba :: u64
  alternate_header_lba :: u64
  first_usable_lba :: u64
  last_usable_lba :: u64
  disk_guid :: "byte list"
  entry_lba :: u64
  entry_count :: u32
  entry_size :: u32
  entry_crc32 :: u32
  gpth_reserved2 :: "byte list"

record GPTEntry =
  type_GUID :: "byte list"
  unique_GUID :: "byte list"
  first_lba :: u64
  last_lba :: u64
  entry_flags :: u64
  entry_name :: "u16 list"

definition GPT_REVISION :: u32 where "GPT_REVISION = 0x00010000"
definition GPT_MAGIC :: "byte list" where "GPT_MAGIC = cstr ''EFI PART''"
definition GPT_MIN_SIZE :: u32 where "GPT_MIN_SIZE = 92"
definition GPT_ENTRIES_LBA :: u64 where "GPT_ENTRIES_LBA = 2"
definition BUB_BLOCK_SIZE :: u32 where "BUB_BLOCK_SIZE = 512"
definition ENTRIES_PER_BLOCK :: nat where "ENTRIES_PER_BLOCK = 4"
definition MAX_GPT_ENTRIES :: nat where "MAX_GPT_ENTRIES = 128"

text \<open>Their 512 and 128 bytes in memory.\<close>

definition gpth_of :: "byte list \<Rightarrow> GPTHeader" where
  "gpth_of bs = \<lparr>signature = chunk 0 8 bs, revision = le_val (chunk 8 4 bs),
     header_size = le_val (chunk 12 4 bs), header_crc32 = le_val (chunk 16 4 bs),
     gpth_reserved = le_val (chunk 20 4 bs), header_lba = le_val (chunk 24 8 bs),
     alternate_header_lba = le_val (chunk 32 8 bs), first_usable_lba = le_val (chunk 40 8 bs),
     last_usable_lba = le_val (chunk 48 8 bs), disk_guid = chunk 56 16 bs,
     entry_lba = le_val (chunk 72 8 bs), entry_count = le_val (chunk 80 4 bs),
     entry_size = le_val (chunk 84 4 bs), entry_crc32 = le_val (chunk 88 4 bs),
     gpth_reserved2 = chunk 92 420 bs\<rparr>"

definition gpth_bytes :: "GPTHeader \<Rightarrow> byte list" where
  "gpth_bytes h = signature h @ le_bytes 4 (revision h) @ le_bytes 4 (header_size h) @
     le_bytes 4 (header_crc32 h) @ le_bytes 4 (gpth_reserved h) @ le_bytes 8 (header_lba h) @
     le_bytes 8 (alternate_header_lba h) @ le_bytes 8 (first_usable_lba h) @
     le_bytes 8 (last_usable_lba h) @ disk_guid h @ le_bytes 8 (entry_lba h) @
     le_bytes 4 (entry_count h) @ le_bytes 4 (entry_size h) @ le_bytes 4 (entry_crc32 h) @
     gpth_reserved2 h"

definition gpt_entry_of :: "byte list \<Rightarrow> GPTEntry" where
  "gpt_entry_of bs = \<lparr>type_GUID = chunk 0 16 bs, unique_GUID = chunk 16 16 bs,
     first_lba = le_val (chunk 32 8 bs), last_lba = le_val (chunk 40 8 bs),
     entry_flags = le_val (chunk 48 8 bs), entry_name = u16_list (chunk 56 72 bs)\<rparr>"

text \<open>\<open>IMG_SIZE\<close>, on 64-bit unsigned integers.\<close>

definition IMG_SIZE :: "GPTEntry \<Rightarrow> media \<Rightarrow> u64" where
  "IMG_SIZE entry m = (last_lba entry - first_lba entry) * ucast (BlockSize m)"

definition SIZE_BLOCK_ALIGN :: "u64 \<Rightarrow> u64 \<Rightarrow> u64" where
  "SIZE_BLOCK_ALIGN bytes block = ((bytes + block - 1) div block) * block"

definition OFFSET_BLOCK_ALIGN :: "u64 \<Rightarrow> u64 \<Rightarrow> u64" where
  "OFFSET_BLOCK_ALIGN bytes block = (bytes div block) * block"

section \<open>The header check\<close>

definition validate_gpt :: "'w efi \<Rightarrow> GPTHeader \<Rightarrow> ('w, EFI_STATUS) io" where
  "validate_gpt fw gpth =
     bnd (pure (bub_memcmp (signature gpth) GPT_MAGIC 8)) (\<lambda>differs.
     if differs \<noteq> 0 then
       bnd (efi_warning fw (''GPT signature does not match.'' @ nl)) (\<lambda>_. ret EFI_NOT_FOUND)
     else if header_size gpth < GPT_MIN_SIZE then
       bnd (efi_warning fw (''GPT header too small.'' @ nl)) (\<lambda>_. ret EFI_NOT_FOUND)
     else if header_size gpth > BUB_BLOCK_SIZE then
       bnd (efi_warning fw (''GPT header too big.'' @ nl)) (\<lambda>_. ret EFI_NOT_FOUND)
     else
       let gpth_tmp = gpth;
           gpt_header_crc = header_crc32 gpth_tmp;
           gpth_tmp = gpth_tmp\<lparr>header_crc32 := 0\<rparr>;
           gpt_header_crc_calc =
             CalculateCrc fw (take (unat (header_size gpth_tmp)) (gpth_bytes gpth_tmp)) in
       if gpt_header_crc \<noteq> gpt_header_crc_calc then
         bnd (efi_warning fw (''GPT header crc invalid.'' @ nl)) (\<lambda>_. ret EFI_NOT_FOUND)
       else if revision gpth \<noteq> GPT_REVISION then
         bnd (efi_warning fw (''GPT header wrong revision.'' @ nl)) (\<lambda>_. ret EFI_NOT_FOUND)
       else ret EFI_SUCCESS)"

section \<open>The search\<close>

text \<open>
  The loop over the entries. \<open>all\<close> is the memory of the array \<open>all_gpt_entries\<close>, \<open>wanted\<close> that of
  \<open>partition_name_ucs2\<close>, \<open>len\<close> the length of the name in bytes. The bound is the header's own
  \<open>entry_count\<close>, the array has 128 elements; an access to a further one is outside the array, so the
  8-bit index never wraps.
\<close>

function find_entry :: "'w efi \<Rightarrow> u32 \<Rightarrow> nat \<Rightarrow> byte list \<Rightarrow> byte list \<Rightarrow> nat \<Rightarrow> fault + nat option" where
  "find_entry fw count len wanted all i =
     (if unat count \<le> i then Inr None
      else if MAX_GPT_ENTRIES \<le> i then Inl Oob_Read
      else
        let entry_name_mem = drop (128 * i + 56) all in
        sbind (StrLen fw (u16_list wanted)) (\<lambda>n.
        sbind (StrLen fw (u16_list entry_name_mem)) (\<lambda>m.
        sbind (if n = m then bub_memcmp entry_name_mem wanted (2 * len) else Inr 1) (\<lambda>differs.
        if differs = 0 then Inr (Some i)
        else find_entry fw count len wanted all (Suc i)))))"
  by pat_completeness auto
termination
  by (relation "measure (\<lambda>(fw, count, len, wanted, all, i). MAX_GPT_ENTRIES - i)") auto

declare find_entry.simps [simp del]

text \<open>
  The result is the status, and \<open>*entry_buf\<close> with the memory it points to. The NULL check after the
  second allocation tests \<open>entry_buf\<close>, the caller's variable, and never fails.
\<close>

definition bub_partition_entry_by_name ::
    "'w efi \<Rightarrow> ptr \<Rightarrow> byte list \<Rightarrow> ('w, EFI_STATUS \<times> ptr \<times> byte list) io" where
  "bub_partition_entry_by_name fw block_io partition_name =
     bnd (bub_malloc fw 512) (\<lambda>(gpt_header, header).
     if gpt_header = 0
     then bnd (efi_warning fw (''Could not allocate for GPT header'' @ nl)) (\<lambda>_. ret (EFI_NOT_FOUND, 0, []))
     else
     bnd (bub_malloc fw (of_nat (128 * ENTRIES_PER_BLOCK))) (\<lambda>(entry, entry_mem).
     bnd (read_blocks fw block_io 1 512 header) (\<lambda>(err, header).
     if EFI_ERROR err
     then
       bnd (efi_warning fw (''Could not ReadBlocks for gpt header'' @ nl)) (\<lambda>_.
       bnd (bub_frees fw [gpt_header, entry]) (\<lambda>_. ret (EFI_NOT_FOUND, 0, [])))
     else
     bnd (pure (bub_strlen partition_name)) (\<lambda>len.
     let partition_name_bytes = of_nat len + 1 in
     bnd (bub_calloc fw (2 * partition_name_bytes)) (\<lambda>(partition_name_ucs2, wanted).
     if partition_name_ucs2 = 0
     then
       bnd (efi_warning fw (''Could not allocate for ucs2 partition name'' @ nl)) (\<lambda>_.
       bnd (bub_frees fw [gpt_header, entry]) (\<lambda>_. ret (EFI_NOT_FOUND, 0, [])))
     else
     bnd (pure (utf8_to_ucs2 partition_name partition_name_bytes (u16_list wanted)
                  (2 * partition_name_bytes))) (\<lambda>(bad, wanted).
     if bad \<noteq> 0
     then
       bnd (efi_warning fw (''Could not convert partition name to UCS-2'' @ nl)) (\<lambda>_.
       bnd (bub_frees fw [gpt_header, partition_name_ucs2, entry]) (\<lambda>_. ret (EFI_NOT_FOUND, 0, [])))
     else
     bnd (media_of fw block_io) (\<lambda>m.
     let entries_num_bytes = ucast (BlockSize m * of_nat (MAX_GPT_ENTRIES div ENTRIES_PER_BLOCK)) in
     bnd (stack_array fw (128 * MAX_GPT_ENTRIES)) (\<lambda>all_gpt_entries.
     bnd (read_blocks fw block_io GPT_ENTRIES_LBA entries_num_bytes all_gpt_entries)
       (\<lambda>(err, all_gpt_entries).
     if EFI_ERROR err
     then
       bnd (efi_warning fw (''Could not ReadBlocks for GPT header'' @ nl)) (\<lambda>_.
       bnd (bub_frees fw [gpt_header, partition_name_ucs2, entry]) (\<lambda>_. ret (EFI_NOT_FOUND, 0, [])))
     else
     bnd (pure (find_entry fw (entry_count (gpth_of header)) len (u16_bytes wanted) all_gpt_entries 0))
       (\<lambda>found.
     case found of
       Some i \<Rightarrow>
         bnd (if entry = 0 then fail Null_Deref
              else pure (bub_memcpy entry_mem 0 (chunk (128 * i) 128 all_gpt_entries) 128)) (\<lambda>entry_mem.
         bnd (bub_frees fw [partition_name_ucs2, gpt_header]) (\<lambda>_.
         ret (EFI_SUCCESS, entry, entry_mem)))
     | None \<Rightarrow>
         bnd (bub_frees fw [partition_name_ucs2, gpt_header, entry]) (\<lambda>_.
         ret (EFI_NOT_FOUND, 0, []))))))))))))"

section \<open>What the header check accepts\<close>

lemma length_gpth_bytes [layout_simps]:
  "length (signature h) = 8 \<Longrightarrow> length (disk_guid h) = 16 \<Longrightarrow> length (gpth_reserved2 h) = 420 \<Longrightarrow>
   length (gpth_bytes h) = 512"
  by (simp add: gpth_bytes_def)

lemma gpth_bytes_gpth_of [simp]:
  assumes "length bs = 512"
  shows "gpth_bytes (gpth_of bs) = bs"
proof -
  have join: "chunk i n bs @ chunk j m bs @ r = chunk i (n + m) bs @ r" if "j = i + n" for i n j m r
    using that by (simp flip: append_assoc)
  have "gpth_bytes (gpth_of bs) = chunk 0 8 bs @ chunk 8 4 bs @ chunk 12 4 bs @ chunk 16 4 bs @
      chunk 20 4 bs @ chunk 24 8 bs @ chunk 32 8 bs @ chunk 40 8 bs @ chunk 48 8 bs @
      chunk 56 16 bs @ chunk 72 8 bs @ chunk 80 4 bs @ chunk 84 4 bs @ chunk 88 4 bs @ chunk 92 420 bs"
    using assms by (simp add: gpth_bytes_def gpth_of_def)
  also have "\<dots> = chunk 0 92 bs @ chunk 92 420 bs"
    by (simp only: join) simp
  also have "\<dots> = chunk 0 512 bs"
    using chunk_append_chunk [of 0 92 bs 420] by simp
  finally show ?thesis using assms by simp
qed

lemma length_GPT_MAGIC [simp, layout_simps]: "length GPT_MAGIC = 9"
  by (simp add: GPT_MAGIC_def)

text \<open>The condition the check amounts to.\<close>

definition gpt_header_ok :: "'w efi \<Rightarrow> GPTHeader \<Rightarrow> bool" where
  "gpt_header_ok fw h \<longleftrightarrow>
     signature h = take 8 GPT_MAGIC \<and> 92 \<le> header_size h \<and> header_size h \<le> 512 \<and>
     header_crc32 h = CalculateCrc fw (take (unat (header_size h)) (gpth_bytes (h\<lparr>header_crc32 := 0\<rparr>))) \<and>
     revision h = GPT_REVISION"

lemma efi_warning_run:
  assumes "pool_ok fw live" "ascii_text s"
  shows "\<exists>w'. efi_warning fw s w = (Inr (), w') \<and> live w' = live w"
proof -
  obtain m where m: "cstr (''WARNING: '' @ s) = m @ [0]" "m \<noteq> []" "list_all (\<lambda>b. 0 < b \<and> b < 0x80) m"
    "length m < 2 ^ 20"
    using console_msg_warning [OF assms(2)] by (rule console_msgE)
  then have "length m < 2 ^ 29" by simp
  from bub_print_ascii [OF assms(1) m(2,3) this, of w] show ?thesis
    unfolding bub_warning_def m(1) .
qed

lemma validate_gpt_run:
  assumes "length (signature h) = 8" "pool_ok fw live"
  shows "\<exists>w'. validate_gpt fw h w = (Inr (if gpt_header_ok fw h then EFI_SUCCESS else EFI_NOT_FOUND), w') \<and>
    live w' = live w \<and> (gpt_header_ok fw h \<longrightarrow> w' = w)"
proof -
  have sig: "diff_bytes (signature h) (take 8 GPT_MAGIC) = 0 \<longleftrightarrow> signature h = take 8 GPT_MAGIC"
    using assms(1) by (intro diff_bytes_eq_0_iff) simp
  have cmp: "bub_memcmp (signature h) GPT_MAGIC 8 = Inr (diff_bytes (signature h) (take 8 GPT_MAGIC))"
    using assms(1) by simp
  have warn: "\<exists>w'. bnd (efi_warning fw s) (\<lambda>_. ret EFI_NOT_FOUND) w = (Inr EFI_NOT_FOUND, w') \<and> live w' = live w"
    if "ascii_text s" for s
    using efi_warning_run [OF assms(2) that, of w] by auto
  have msgs: "ascii_text (''GPT signature does not match.'' @ nl)" "ascii_text (''GPT header too small.'' @ nl)"
    "ascii_text (''GPT header too big.'' @ nl)" "ascii_text (''GPT header crc invalid.'' @ nl)"
    "ascii_text (''GPT header wrong revision.'' @ nl)"
    by (simp_all add: ascii_text_def)
  note warns = msgs [THEN warn]
  let ?crc = "CalculateCrc fw (take (unat (header_size h)) (gpth_bytes (h\<lparr>header_crc32 := 0\<rparr>)))"
  show ?thesis
  proof (cases "gpt_header_ok fw h")
    case True
    then show ?thesis
      using cmp sig by (simp add: validate_gpt_def gpt_header_ok_def Let_def GPT_MIN_SIZE_def BUB_BLOCK_SIZE_def
          not_less [symmetric])
  next
    case False
    then consider "signature h \<noteq> take 8 GPT_MAGIC"
      | "signature h = take 8 GPT_MAGIC" "header_size h < 92"
      | "signature h = take 8 GPT_MAGIC" "\<not> header_size h < 92" "512 < header_size h"
      | "signature h = take 8 GPT_MAGIC" "\<not> header_size h < 92" "\<not> 512 < header_size h" "header_crc32 h \<noteq> ?crc"
      | "signature h = take 8 GPT_MAGIC" "\<not> header_size h < 92" "\<not> 512 < header_size h" "header_crc32 h = ?crc"
        "revision h \<noteq> GPT_REVISION"
      unfolding gpt_header_ok_def not_less [symmetric] by blast
    then have "\<exists>w'. validate_gpt fw h w = (Inr EFI_NOT_FOUND, w') \<and> live w' = live w"
    proof cases
      case 1
      then show ?thesis using warns(1) cmp sig by (simp add: validate_gpt_def)
    next
      case 2
      then show ?thesis using warns(2) cmp sig by (simp add: validate_gpt_def GPT_MIN_SIZE_def)
    next
      case 3
      then show ?thesis using warns(3) cmp sig by (simp add: validate_gpt_def GPT_MIN_SIZE_def BUB_BLOCK_SIZE_def)
    next
      case 4
      then show ?thesis
        using warns(4) cmp sig by (simp add: validate_gpt_def GPT_MIN_SIZE_def BUB_BLOCK_SIZE_def Let_def)
    next
      case 5
      then show ?thesis
        using warns(5) cmp sig by (simp add: validate_gpt_def GPT_MIN_SIZE_def BUB_BLOCK_SIZE_def Let_def)
    qed
    with False show ?thesis by simp
  qed
qed

section \<open>The pool\<close>

lemma malloc_live:
  "pool_ok fw live \<Longrightarrow> bub_malloc fw n w = (Inr (x, mem), w') \<Longrightarrow>
   (if x = 0 then live w' = live w else x \<notin> live w \<and> live w' = insert x (live w))"
  by (rule bub_malloc_run [of fw live n w]) auto

lemma calloc_live:
  "pool_ok fw live \<Longrightarrow> bub_calloc fw n w = (Inr (x, mem), w') \<Longrightarrow>
   (if x = 0 then live w' = live w else x \<notin> live w \<and> live w' = insert x (live w))"
  by (rule bub_calloc_run [of fw live n w]) auto

lemma frees_live:
  "pool_ok fw live \<Longrightarrow> bub_frees fw ps w = (Inr u, w') \<Longrightarrow> live w' = live w - set ps"
proof (induction ps arbitrary: w)
  case (Cons p ps)
  obtain w1 where w1: "bub_free fw p w = (Inr (), w1)" "live w1 = live w - {p}"
    by (rule bub_free_run [OF Cons.prems(1), of p w])
  then have "bub_frees fw ps w1 = (Inr u, w')" using Cons.prems(2) by simp
  from Cons.IH [OF Cons.prems(1) this] w1(2) show ?case by auto
qed simp

lemma read_blocks_live:
  "pool_ok fw live \<Longrightarrow> read_blocks fw d l n b w = (Inr r, w') \<Longrightarrow> live w' = live w"
  using pool_ok_keep(4) [of fw live d "MediaId (Media fw d w)" l n b w]
  by (auto simp: read_blocks_def call_def split: if_splits prod.splits)

lemma media_of_Inr [simp]: "media_of fw d w = (Inr m, w') \<longleftrightarrow> m = Media fw d w \<and> w' = w"
  by (auto simp: media_of_def)

lemma stack_array_Inr [simp]:
  "stack_array fw n w = (Inr a, w') \<longleftrightarrow> a = take n (Stack fw n w @ replicate n 0) \<and> w' = w"
  by (auto simp: stack_array_def)

lemma free_live: "pool_ok fw live \<Longrightarrow> bub_free fw p w = (Inr u, w') \<Longrightarrow> live w' = live w - {p}"
  by (rule bub_free_run [of fw live p w]) auto

lemma print_call_live: "pool_ok fw live \<Longrightarrow> call (Print fw s) w = (Inr r, w') \<Longrightarrow> live w' = live w"
  using pool_ok_keep(3) [of fw live s w] by (auto simp: call_def split: prod.splits)

lemma print_live:
  assumes "pool_ok fw live" "bub_print fw s w = (Inr u, w')"
  shows "live w' = live w"
  using assms(2) pool_ok_null [OF assms(1), of w]
  by (auto simp: bub_print_def Let_def split: if_splits elim!: bnd_eq_InrE
      dest!: calloc_live [OF assms(1)] free_live [OF assms(1)] print_call_live [OF assms(1)])

lemma warning_live: "pool_ok fw live \<Longrightarrow> efi_warning fw s w = (Inr u, w') \<Longrightarrow> live w' = live w"
  unfolding bub_warning_def by (rule print_live)

lemmas pool_dests = malloc_live calloc_live frees_live read_blocks_live warning_live

lemma entry_by_name_live:
  assumes "pool_ok fw live" "bub_partition_entry_by_name fw d name w = (Inr (err, p, mem), w')"
  shows "if EFI_ERROR err then live w' = live w
    else p \<noteq> 0 \<and> p \<notin> live w \<and> live w' = insert p (live w)"
  using assms(2) pool_ok_null [OF assms(1), of w]
  by (auto simp: bub_partition_entry_by_name_def Let_def simp del: bub_frees.simps
      split: if_splits option.splits
      elim!: bnd_eq_InrE dest!: pool_dests [OF assms(1)])

end
