(* ===== verification/Bub_Lookup.thy ===== *)
theory Bub_Lookup
  imports Bub_Gpt
begin

text \<open>
  The search for a partition, as a lookup in the disk's contents: the entries of the table at block
  2, the first one whose name is the wanted one. The lookup is what the code computes on a firmware
  whose devices and pool work and on a disk whose table is well formed.
\<close>

section \<open>16-bit strings\<close>

lemma u16_list_append: "even (length a) \<Longrightarrow> u16_list (a @ b) = u16_list a @ u16_list b"
  by (induction a rule: u16_list.induct) simp_all

lemma u16_list_bytes [simp]: "u16_list (u16_bytes cs) = cs"
proof (induction cs)
  case (Cons c cs)
  have "u16_list (le_bytes 2 c) = [c]"
    using le_val_le_bytes [of 2 c] by (simp add: numeral_2_eq_2)
  then show ?case using Cons by (simp add: u16_bytes_def u16_list_append)
qed (simp add: u16_bytes_def)

lemma u16_bytes_list: "even (length bs) \<Longrightarrow> u16_bytes (u16_list bs) = bs"
proof (induction bs rule: u16_list.induct)
  case (1 a b bs)
  have "le_bytes 2 (le_val [a, b] :: u16) = [a, b]"
    by (rule le_bytes_le_val) simp_all
  with 1 show ?case by (simp add: u16_bytes_def)
qed (simp_all add: u16_bytes_def)

lemma u16_list_take: "u16_list (take (2 * k) bs) = take k (u16_list bs)"
proof (induction k arbitrary: bs)
  case (Suc k)
  then show ?case by (cases bs rule: u16_list.cases) simp_all
qed simp

lemma length_u16_bytes [simp]: "length (u16_bytes cs) = 2 * length cs"
  by (induction cs) (simp_all add: u16_bytes_def)

lemma u16_list_eq_iff:
  "even (length a) \<Longrightarrow> even (length b) \<Longrightarrow> u16_list a = u16_list b \<longleftrightarrow> a = b"
  by (metis u16_bytes_list)

text \<open>The characters of a name: what precedes the first NUL.\<close>

definition chars :: "'a::zero list \<Rightarrow> 'a list" where
  "chars s = takeWhile (\<lambda>c. c \<noteq> 0) s"

lemma chars_append [simp]: "0 \<in> set s \<Longrightarrow> chars (s @ t) = chars s"
  by (induction s) (auto simp: chars_def)

lemma chars_snoc [simp]: "0 \<notin> set s \<Longrightarrow> chars (s @ 0 # t) = s"
  by (induction s) (auto simp: chars_def)

lemma length_chars: "0 \<in> set s \<Longrightarrow> length (chars s) < length s"
  by (induction s) (auto simp: chars_def)

lemma take_chars: "take (length (chars s)) s = chars s"
  by (induction s) (simp_all add: chars_def)

section \<open>The table on the disk\<close>

definition gpt_header_at :: "byte list \<Rightarrow> GPTHeader" where
  "gpt_header_at img = gpth_of (chunk 512 512 img)"

definition gpt_entry_at :: "byte list \<Rightarrow> nat \<Rightarrow> GPTEntry" where
  "gpt_entry_at img i = gpt_entry_of (chunk (1024 + 128 * i) 128 img)"

definition gpt_index :: "byte list \<Rightarrow> byte list \<Rightarrow> nat option" where
  "gpt_index img name =
     find (\<lambda>i. chars (entry_name (gpt_entry_at img i)) = map ucast (chars name))
       [0..<unat (entry_count (gpt_header_at img))]"

definition gpt_lookup :: "byte list \<Rightarrow> byte list \<Rightarrow> GPTEntry option" where
  "gpt_lookup img name = map_option (gpt_entry_at img) (gpt_index img name)"

text \<open>
  A table the loader can search: at most 128 entries, with names that are NUL-terminated inside
  their field, in the 33 blocks after the first.
\<close>

definition table_ok :: "byte list \<Rightarrow> bool" where
  "table_ok img \<longleftrightarrow> 34 * 512 \<le> length img \<and> unat (entry_count (gpt_header_at img)) \<le> 128 \<and>
     list_all (\<lambda>i. 0 \<in> set (entry_name (gpt_entry_at img i)))
       [0..<unat (entry_count (gpt_header_at img))]"

text \<open>Names as the loader uses them: ASCII, not empty, no longer than the field in the table.\<close>

definition name_ok :: "byte list \<Rightarrow> bool" where
  "name_ok name \<longleftrightarrow> name = chars name @ [0] \<and> chars name \<noteq> [] \<and> length (chars name) < 36 \<and>
     list_all (\<lambda>b. b < 0x80) (chars name)"

text \<open>What gnu-efi documents of \<open>StrLen\<close>.\<close>

definition strlen_ok :: "'w efi \<Rightarrow> bool" where
  "strlen_ok fw \<longleftrightarrow> (\<forall>s. 0 \<in> set s \<longrightarrow> StrLen fw s = Inr (length (chars s)))"

lemma entry_name_mem:
  assumes "128 * i + 128 \<le> length all"
  shows "entry_name (gpt_entry_of (chunk (128 * i) 128 all)) = take 36 (u16_list (drop (128 * i + 56) all))"
proof -
  have "chunk 56 72 (chunk (128 * i) 128 all) = take (2 * 36) (drop (128 * i + 56) all)"
    by (simp add: chunk_def drop_take min_def add.commute)
  then show ?thesis by (simp add: gpt_entry_of_def flip: u16_list_take)
qed

lemma name_test:
  fixes mem wanted :: "byte list"
  assumes "0 \<in> set (u16_list mem)" "0 \<in> set (u16_list wanted)" "len = length (chars (u16_list wanted))"
    and "length (chars (u16_list mem)) = len"
  shows "bub_memcmp mem wanted (2 * len) = Inr 0 \<longleftrightarrow> chars (u16_list mem) = chars (u16_list wanted)"
    and "\<exists>x. bub_memcmp mem wanted (2 * len) = Inr x"
proof -
  have "len < length (u16_list mem)" "len < length (u16_list wanted)"
    using assms length_chars [OF assms(1)] length_chars [OF assms(2)] by simp_all
  then have l: "2 * len \<le> length mem" "2 * len \<le> length wanted" by simp_all
  have "take (2 * len) mem = take (2 * len) wanted \<longleftrightarrow>
      u16_list (take (2 * len) mem) = u16_list (take (2 * len) wanted)"
    using l by (intro u16_list_eq_iff [symmetric]) simp_all
  also have "\<dots> \<longleftrightarrow> chars (u16_list mem) = chars (u16_list wanted)"
    using assms(3,4) take_chars by (metis u16_list_take)
  finally show "bub_memcmp mem wanted (2 * len) = Inr 0 \<longleftrightarrow> chars (u16_list mem) = chars (u16_list wanted)"
    using l by (simp only: bub_memcmp_eq_0_iff) simp
  show "\<exists>x. bub_memcmp mem wanted (2 * len) = Inr x"
    using l by simp
qed

lemma find_entry_run:
  assumes "strlen_ok fw" "length all = 128 * 128" "unat count \<le> 128" "0 \<in> set (u16_list wanted)"
    and "len = length (chars (u16_list wanted))"
    and "list_all (\<lambda>i. 0 \<in> set (entry_name (gpt_entry_of (chunk (128 * i) 128 all)))) [0..<unat count]"
  shows "find_entry fw count len wanted all i =
    Inr (find (\<lambda>i. chars (entry_name (gpt_entry_of (chunk (128 * i) 128 all))) = chars (u16_list wanted))
      [i..<unat count])"
proof (induction "128 - i" arbitrary: i rule: less_induct)
  case less
  show ?case
  proof (cases "i < unat count")
    case True
    let ?mem = "drop (128 * i + 56) all"
    have i: "i < 128" using True assms(3) by simp
    have name: "entry_name (gpt_entry_of (chunk (128 * i) 128 all)) = take 36 (u16_list ?mem)"
      by (rule entry_name_mem) (use i assms(2) in simp)
    have "0 \<in> set (entry_name (gpt_entry_of (chunk (128 * i) 128 all)))"
      using assms(6) True by (simp add: list_all_iff)
    then have z: "0 \<in> set (take 36 (u16_list ?mem))" by (simp add: name)
    then have z': "0 \<in> set (u16_list ?mem)" by (rule in_set_takeD)
    have ch: "chars (take 36 (u16_list ?mem)) = chars (u16_list ?mem)"
      using chars_append [OF z, of "drop 36 (u16_list ?mem)"] by simp
    have sl: "StrLen fw (u16_list wanted) = Inr len"
      "StrLen fw (u16_list ?mem) = Inr (length (chars (u16_list ?mem)))"
      using assms(1,4,5) z' by (simp_all add: strlen_ok_def)
    have IH: "find_entry fw count len wanted all (Suc i) =
        Inr (find (\<lambda>i. chars (entry_name (gpt_entry_of (chunk (128 * i) 128 all))) = chars (u16_list wanted))
          [Suc i..<unat count])"
      by (rule less) (use i in simp)
    show ?thesis
    proof (cases "length (chars (u16_list ?mem)) = len")
      case l: True
      obtain x where x: "bub_memcmp ?mem wanted (2 * len) = Inr x"
        using name_test(2) [OF z' assms(4,5) l] by blast
      then have "x = 0 \<longleftrightarrow> chars (u16_list ?mem) = chars (u16_list wanted)"
        using name_test(1) [OF z' assms(4,5) l] by simp
      then show ?thesis
        using True i sl l x IH
        by (subst find_entry.simps)
           (auto simp: MAX_GPT_ENTRIES_def Let_def upt_conv_Cons name ch)
    next
      case l: False
      then have "chars (u16_list ?mem) \<noteq> chars (u16_list wanted)" using assms(5) by auto
      then show ?thesis
        using True i sl l IH
        by (subst find_entry.simps)
           (auto simp: MAX_GPT_ENTRIES_def Let_def upt_conv_Cons name ch)
    qed
  next
    case False
    then show ?thesis by (subst find_entry.simps) simp
  qed
qed

section \<open>A working device\<close>

text \<open>
  \<open>dev_ok\<close>: what the loader relies on when all goes well. In a good state the block device \<open>bio\<close>
  has 512-byte blocks, transfers inside its contents \<open>img\<close> succeed and move exactly the bytes asked
  for, the pool can serve a request while few blocks are live, and releasing a live block works.
\<close>

definition keeps :: "('w \<Rightarrow> bool) \<Rightarrow> ('w \<Rightarrow> byte list) \<Rightarrow> 'w \<Rightarrow> 'w \<Rightarrow> bool" where
  "keeps good img w w' \<longleftrightarrow> good w' \<and> img w' = img w"

definition few :: "ptr set \<Rightarrow> nat \<Rightarrow> bool" where
  "few ps n \<longleftrightarrow> finite ps \<and> card ps < n"

definition dev_ok ::
    "'w efi \<Rightarrow> ptr \<Rightarrow> ptr \<Rightarrow> ('w \<Rightarrow> ptr set) \<Rightarrow> ('w \<Rightarrow> byte list) \<Rightarrow> ('w \<Rightarrow> bool) \<Rightarrow> bool" where
  "dev_ok fw bio dio live img good \<longleftrightarrow> pool_ok fw live \<and> strlen_ok fw \<and>
     (\<forall>w. good w \<longrightarrow>
       BlockSize (Media fw bio w) = 512 \<and> length (img w) < 2 ^ 63 \<and>
       (\<forall>t n. keeps good img w (snd (AllocatePool fw t n w)) \<and>
          (few (live w) 16 \<longrightarrow> \<not> EFI_ERROR (fst (fst (AllocatePool fw t n w))))) \<and>
       (\<forall>s. keeps good img w (snd (Print fw s w))) \<and>
       (\<forall>p. keeps good img w (snd (FreePool fw p w)) \<and>
          (p \<in> live w \<longrightarrow> \<not> EFI_ERROR (fst (FreePool fw p w)))) \<and>
       (\<forall>m lba n buf. unat lba * 512 + unat n \<le> length (img w) \<and> 512 dvd unat n \<and> unat n \<le> length buf \<longrightarrow>
          (case ReadBlocks fw bio m lba n buf w of ((err, buf'), w') \<Rightarrow>
             \<not> EFI_ERROR err \<and> keeps good img w w' \<and>
             buf' = blit 0 (chunk (unat lba * 512) (unat n) (img w)) buf)) \<and>
       (\<forall>m off n buf. unat off + unat n \<le> length (img w) \<and> unat n \<le> length buf \<longrightarrow>
          (case ReadDisk fw dio m off n buf w of ((err, buf'), w') \<Rightarrow>
             \<not> EFI_ERROR err \<and> keeps good img w w' \<and>
             buf' = blit 0 (chunk (unat off) (unat n) (img w)) buf)) \<and>
       (\<forall>m off n buf. unat off + unat n \<le> length (img w) \<and> unat n \<le> length buf \<longrightarrow>
          (case WriteDisk fw dio m off n buf w of (err, w') \<Rightarrow>
             \<not> EFI_ERROR err \<and> good w' \<and>
             img w' = blit (unat off) (take (unat n) buf) (img w))))"

lemma dev_okD:
  assumes "dev_ok fw bio dio live img good"
  shows "pool_ok fw live" "strlen_ok fw"
    and "good w \<Longrightarrow> BlockSize (Media fw bio w) = 512"
    and "good w \<Longrightarrow> length (img w) < 2 ^ 63"
    and "good w \<Longrightarrow> keeps good img w (snd (AllocatePool fw t n w))"
    and "good w \<Longrightarrow> few (live w) 16 \<Longrightarrow> \<not> EFI_ERROR (fst (fst (AllocatePool fw t n w)))"
    and "good w \<Longrightarrow> keeps good img w (snd (FreePool fw p w))"
    and "good w \<Longrightarrow> p \<in> live w \<Longrightarrow> \<not> EFI_ERROR (fst (FreePool fw p w))"
    and "good w \<Longrightarrow> keeps good img w (snd (Print fw s w))"
  using assms by (simp_all add: dev_ok_def)

lemma keeps_trans: "keeps good img w w1 \<Longrightarrow> keeps good img w1 w2 \<Longrightarrow> keeps good img w w2"
  by (simp add: keeps_def)

lemma few_insert: "few ps n \<Longrightarrow> few (insert p ps) (Suc n)"
  by (simp add: few_def card_insert_if)

lemma few_mono: "few ps m \<Longrightarrow> m \<le> n \<Longrightarrow> few ps n"
  by (simp add: few_def)

lemma good_malloc:
  assumes "dev_ok fw bio dio live img good" "good w" "few (live w) 16"
  shows "\<exists>x mem w'. bub_malloc fw n w = (Inr (x, mem), w') \<and> x \<noteq> 0 \<and> x \<notin> live w \<and>
    live w' = insert x (live w) \<and> length mem = unat n \<and> keeps good img w w'"
proof -
  obtain err x mem w' where a: "AllocatePool fw EfiBootServicesData n w = ((err, x, mem), w')"
    by (metis surj_pair)
  have "\<not> EFI_ERROR err" "keeps good img w w'"
    using dev_okD(5,6) [OF assms(1) assms(2), of EfiBootServicesData n] assms(3) a by simp_all
  then show ?thesis
    using pool_ok_alloc [OF dev_okD(1) [OF assms(1)] a] a by (auto simp: bub_malloc_def call_def)
qed

lemma good_calloc:
  assumes "dev_ok fw bio dio live img good" "good w" "few (live w) 16"
  shows "\<exists>x w'. bub_calloc fw n w = (Inr (x, replicate (unat n) 0), w') \<and> x \<noteq> 0 \<and> x \<notin> live w \<and>
    live w' = insert x (live w) \<and> keeps good img w w'"
  using good_malloc [OF assms, of n] by (fastforce simp: bub_calloc_def)

lemma good_frees:
  assumes "dev_ok fw bio dio live img good" "good w" "set ps \<subseteq> live w" "distinct ps"
  shows "\<exists>w'. bub_frees fw ps w = (Inr (), w') \<and> live w' = live w - set ps \<and> keeps good img w w'"
  using assms(2-4)
proof (induction ps arbitrary: w)
  case (Cons p ps)
  obtain err w1 where f: "FreePool fw p w = (err, w1)" by fastforce
  have w1: "\<not> EFI_ERROR err" "keeps good img w w1" "live w1 = live w - {p}"
    using dev_okD(7,8) [OF assms(1) Cons.prems(1), of p] pool_ok_keep(1) [OF dev_okD(1) [OF assms(1)], of p w]
      Cons.prems(2) f by simp_all
  have run: "bub_free fw p w = (Inr (), w1)"
    using f w1(1) by (simp add: bub_free_def call_def)
  obtain w2 where "bub_frees fw ps w1 = (Inr (), w2)" "live w2 = live w1 - set ps" "keeps good img w1 w2"
    using Cons.IH [of w1] Cons.prems w1 by (auto simp: keeps_def)
  with run w1 show ?case by (auto intro: keeps_trans)
qed (simp add: keeps_def)

lemma good_free:
  assumes "dev_ok fw bio dio live img good" "good w" "p \<in> live w"
  shows "\<exists>w'. bub_free fw p w = (Inr (), w') \<and> live w' = live w - {p} \<and> keeps good img w w'"
  using good_frees [OF assms(1,2), of "[p]"] assms(3) by simp

lemma good_calloc_any:
  assumes "dev_ok fw bio dio live img good" "good w"
  shows "\<exists>x mem w'. bub_calloc fw n w = (Inr (x, mem), w') \<and> keeps good img w w' \<and>
    (if x = 0 then live w' = live w else mem = replicate (unat n) 0 \<and> x \<notin> live w \<and> live w' = insert x (live w))"
proof -
  obtain err x mem w1 where a: "AllocatePool fw EfiBootServicesData n w = ((err, x, mem), w1)"
    by (metis surj_pair)
  have k: "keeps good img w w1" using dev_okD(5) [OF assms, of EfiBootServicesData n] a by simp
  have p: "if EFI_ERROR err then live w1 = live w
    else x \<noteq> 0 \<and> x \<notin> live w \<and> live w1 = insert x (live w) \<and> length mem = unat n"
    using pool_ok_alloc [OF dev_okD(1) [OF assms(1)] a] .
  show ?thesis
  proof (cases "EFI_ERROR err")
    case True
    then have "bub_calloc fw n w = (Inr (0, []), w1)"
      using a by (simp add: bub_calloc_def bub_malloc_def call_def bnd_def)
    with True p k show ?thesis by auto
  next
    case False
    then have "bub_calloc fw n w = (Inr (x, replicate (unat n) 0), w1)"
      using a p by (simp add: bub_calloc_def bub_malloc_def call_def bnd_def)
    with False p k show ?thesis by auto
  qed
qed

text \<open>A message on a working device: it returns and changes nothing the loader looks at.\<close>

lemma good_print:
  assumes "dev_ok fw bio dio live img good" "good w" "console_msg m"
  shows "\<exists>w'. bub_print fw m w = (Inr (), w') \<and> live w' = live w \<and> keeps good img w w'"
proof -
  obtain s where s: "m = s @ [0]" "s \<noteq> []" "list_all (\<lambda>b. 0 < b \<and> b < 0x80) s" "length s < 2 ^ 20"
    using assms(3) by (rule console_msgE)
  have len: "bub_strlen m = Inr (length s)"
    using bub_strlen_terminated [of s "[]"] s(1,3) by (auto simp: list_all_iff)
  obtain x mem w1 where c: "bub_calloc fw ((of_nat (length s) + 1) * 2) w = (Inr (x, mem), w1)"
    "keeps good img w w1"
    "if x = 0 then live w1 = live w
     else mem = replicate (unat ((of_nat (length s) + 1) * 2 :: u64)) 0 \<and> x \<notin> live w \<and> live w1 = insert x (live w)"
    using good_calloc_any [OF assms(1,2)] by blast
  show ?thesis
  proof (cases "x = 0")
    case True
    then show ?thesis using c len by (simp add: bub_print_def Let_def)
  next
    case False
    have "(of_nat (length s) + 1) * 2 = (of_nat (2 * Suc (length s)) :: u64)" by simp
    moreover have "unat (of_nat (2 * Suc (length s)) :: u64) = 2 * Suc (length s)"
      using s(4) by (simp only: unat_of_nat) simp
    ultimately have mem: "u16_list mem = replicate (Suc (length s)) 0"
      using False c(3) by (simp only: u16_list_zeros if_False simp_thms)
    obtain out where conv: "utf8_to_ucs2 m (of_nat (length s) + 1) (u16_list mem) ((of_nat (length s) + 1) * 2) =
        Inr (0, out)"
      using ascii_to_ucs2 [OF s(2,3)] s(1,4) mem by auto
    obtain r w2 where p: "Print fw out w1 = (r, w2)" by fastforce
    have k2: "keeps good img w1 w2" using dev_okD(9) [OF assms(1), of w1 out] c(2) p by (simp add: keeps_def)
    have l2: "live w2 = live w1" using pool_ok_keep(3) [OF dev_okD(1) [OF assms(1)], of out w1] p by simp
    obtain w3 where w3: "bub_free fw x w2 = (Inr (), w3)" "live w3 = live w2 - {x}" "keeps good img w2 w3"
      using good_free [OF assms(1), of w2 x] k2 c(3) l2 False by (auto simp: keeps_def)
    have "bub_print fw m w = (Inr (), w3)"
      using len c(1) False conv p w3(1) by (simp add: bub_print_def Let_def call_def)
    moreover have "live w3 = live w" using w3(2) l2 c(3) False by auto
    ultimately show ?thesis using c(2) k2 w3(3) by (blast intro: keeps_trans)
  qed
qed

lemma good_warning:
  assumes "dev_ok fw bio dio live img good" "good w" "ascii_text s"
  shows "\<exists>w'. efi_warning fw s w = (Inr (), w') \<and> live w' = live w \<and> keeps good img w w'"
  unfolding bub_warning_def by (rule good_print [OF assms(1,2) console_msg_warning [OF assms(3)]])

lemma good_read_blocks:
  assumes "dev_ok fw bio dio live img good" "good w" "unat lba * 512 + unat n \<le> length (img w)"
    and "512 dvd unat n" "unat n \<le> length buf"
  shows "\<exists>err w'. read_blocks fw bio lba n buf w =
      (Inr (err, blit 0 (chunk (unat lba * 512) (unat n) (img w)) buf), w') \<and> \<not> EFI_ERROR err \<and>
      live w' = live w \<and> keeps good img w w'"
proof -
  let ?m = "MediaId (Media fw bio w)"
  obtain err b w' where r: "ReadBlocks fw bio ?m lba n buf w = ((err, b), w')" by (metis surj_pair)
  have "case ReadBlocks fw bio ?m lba n buf w of ((err, buf'), w') \<Rightarrow>
      \<not> EFI_ERROR err \<and> keeps good img w w' \<and>
      buf' = blit 0 (chunk (unat lba * 512) (unat n) (img w)) buf"
    using assms by (simp add: dev_ok_def)
  moreover have "live w' = live w"
    using pool_ok_keep(4) [OF dev_okD(1) [OF assms(1)], of bio ?m lba n buf w] r by simp
  ultimately show ?thesis
    using r assms(5) by (auto simp: read_blocks_def call_def)
qed

section \<open>The search on a working device\<close>

lemma gpt_entry_of_append [simp]: "length e = 128 \<Longrightarrow> gpt_entry_of (e @ r) = gpt_entry_of e"
  by (simp add: gpt_entry_of_def chunk_def)

lemma entry_in_table:
  assumes "34 * 512 \<le> length img" "i < 128"
  shows "chunk (128 * i) 128 (chunk 1024 16384 img) = chunk (1024 + 128 * i) 128 img"
proof -
  have "128 * i + 128 \<le> 16384" using assms(2) by simp
  then show ?thesis by (simp add: chunk_def drop_take take_take min_def add.commute)
qed

lemma name_ok_facts:
  assumes "name_ok name"
  shows "bub_strlen name = Inr (length (chars name))"
    and "utf8_to_ucs2 name (of_nat (length (chars name)) + 1) (replicate (Suc (length (chars name))) 0) cap =
      Inr (0, map ucast (chars name) @ [0])"
    and "chars (map ucast (chars name) @ [0 :: u16]) = map ucast (chars name)"
proof -
  let ?s = "chars name"
  have nz: "0 \<notin> set ?s"
    unfolding chars_def by (auto dest: set_takeWhileD)
  have name: "name = ?s @ [0]" "?s \<noteq> []" "length ?s < 36" "list_all (\<lambda>b. b < 0x80) ?s"
    using assms by (simp_all add: name_ok_def)
  show "bub_strlen name = Inr (length ?s)"
    using bub_strlen_terminated [OF nz, of "[]"] name(1) by simp
  have enc: "encode_utf8 (map ucast ?s) = ?s"
    using name(4) by (intro encode_utf8_ascii) (auto simp: list_all_iff)
  have "utf8_to_ucs2 (?s @ [0]) (of_nat (length (?s @ [0]))) (replicate (Suc (length ?s)) 0) cap =
      Inr (0, map ucast ?s @ drop (length (map ucast ?s :: u16 list)) (replicate (Suc (length ?s)) 0))"
    using utf8_to_ucs2_encode [of "map ucast ?s" "replicate (Suc (length ?s)) 0" cap] name(2,3) enc
    by (simp flip: replicate_Suc)
  moreover have "of_nat (length (?s @ [0])) = (of_nat (length ?s) + 1 :: u64)"
    by (simp add: add.commute)
  moreover have "drop (length ?s) (replicate (Suc (length ?s)) 0) = [0 :: u16]"
    by (simp only: drop_replicate) simp
  ultimately have "utf8_to_ucs2 (?s @ [0]) (of_nat (length ?s) + 1) (replicate (Suc (length ?s)) 0) cap =
      Inr (0, map ucast ?s @ [0])"
    by (simp only: length_map)
  then show "utf8_to_ucs2 name (of_nat (length ?s) + 1) (replicate (Suc (length ?s)) 0) cap =
      Inr (0, map ucast ?s @ [0])"
    by (simp only: name(1) [symmetric])
  have "0 \<notin> set (map ucast ?s :: u16 list)"
  proof
    assume "0 \<in> set (map ucast ?s :: u16 list)"
    then obtain b where "b \<in> set ?s" "(ucast b :: u16) = ucast (0 :: byte)" by auto
    then show False using nz ucast_widen_eq_iff [where 'a = 8 and 'b = 16, of b 0] by simp
  qed
  then show "chars (map ucast ?s @ [0 :: u16]) = map ucast ?s" by simp
qed

text \<open>The two reads the search makes.\<close>

lemma good_read_header:
  assumes "dev_ok fw bio dio live img good" "good w" "table_ok (img w)" "length header = 512"
  shows "\<exists>err w'. read_blocks fw bio 1 512 header w = (Inr (err, chunk 512 512 (img w)), w') \<and>
    \<not> EFI_ERROR err \<and> live w' = live w \<and> keeps good img w w'"
  using good_read_blocks [OF assms(1,2), of 1 512 header] assms(3,4) by (auto simp: table_ok_def)

lemma good_read_table:
  assumes "dev_ok fw bio dio live img good" "good w" "table_ok (img w)" "length all = 16384"
  shows "\<exists>err w'. read_blocks fw bio GPT_ENTRIES_LBA 16384 all w =
    (Inr (err, chunk 1024 16384 (img w)), w') \<and>
    \<not> EFI_ERROR err \<and> live w' = live w \<and> keeps good img w w'"
  using good_read_blocks [OF assms(1,2), of 2 16384 all] assms(3,4)
  by (auto simp: table_ok_def GPT_ENTRIES_LBA_def)

lemma find_entry_on_disk:
  assumes "strlen_ok fw" "table_ok img" "name_ok name"
  shows "find_entry fw (entry_count (gpt_header_at img)) (length (chars name))
      (u16_bytes (map ucast (chars name) @ [0])) (chunk 1024 16384 img) 0 = Inr (gpt_index img name)"
proof -
  let ?all = "chunk 1024 16384 img" and ?n = "unat (entry_count (gpt_header_at img))"
  have t: "34 * 512 \<le> length img" "?n \<le> 128" using assms(2) by (simp_all add: table_ok_def)
  have e: "gpt_entry_of (chunk (128 * i) 128 ?all) = gpt_entry_at img i" if "i < ?n" for i
    using entry_in_table [OF t(1), of i] t(2) that by (simp add: gpt_entry_at_def)
  have "find_entry fw (entry_count (gpt_header_at img)) (length (chars name))
      (u16_bytes (map ucast (chars name) @ [0])) ?all 0 =
    Inr (find (\<lambda>i. chars (entry_name (gpt_entry_of (chunk (128 * i) 128 ?all))) =
      chars (u16_list (u16_bytes (map ucast (chars name) @ [0])))) [0..<?n])"
    by (rule find_entry_run)
      (use assms t e name_ok_facts(3) [OF assms(3)] in \<open>auto simp: table_ok_def list_all_iff\<close>)
  also have "find (\<lambda>i. chars (entry_name (gpt_entry_of (chunk (128 * i) 128 ?all))) =
      chars (u16_list (u16_bytes (map ucast (chars name) @ [0])))) [0..<?n] = gpt_index img name"
    unfolding gpt_index_def by (rule find_cong) (use e name_ok_facts(3) [OF assms(3)] in auto)
  finally show ?thesis .
qed

lemma gpt_index_Some: "gpt_index img name = Some i \<Longrightarrow> i < unat (entry_count (gpt_header_at img))"
  by (auto simp: gpt_index_def find_Some_iff)

lemma entry_by_name_run:
  assumes "dev_ok fw bio dio live img good" "good w" "few (live w) 8" "table_ok (img w)" "name_ok name"
  shows "\<exists>p mem w'. bub_partition_entry_by_name fw bio name w =
      (Inr (if gpt_index (img w) name = None then (EFI_NOT_FOUND, 0, []) else (EFI_SUCCESS, p, mem)), w') \<and>
    keeps good img w w' \<and> p \<noteq> 0 \<and> p \<notin> live w \<and>
    live w' = (if gpt_index (img w) name = None then live w else insert p (live w)) \<and>
    (gpt_index (img w) name \<noteq> None \<longrightarrow>
      gpt_entry_of mem = gpt_entry_at (img w) (the (gpt_index (img w) name)))"
proof -
  let ?s = "chars name" and ?img = "img w"
  note D = assms(1)
  note facts = name_ok_facts [OF assms(5)]
  have len: "length ?s < 36" using assms(5) by (simp add: name_ok_def)
  obtain h hm w1 where w1: "bub_malloc fw 512 w = (Inr (h, hm), w1)" "h \<noteq> 0" "h \<notin> live w"
    "live w1 = insert h (live w)" "length hm = 512" "good w1" "img w1 = ?img"
    using good_malloc [OF D assms(2) few_mono [OF assms(3)], of 512] by (auto simp: keeps_def)
  have f1: "few (live w1) 16" using few_mono [OF few_insert [OF assms(3)]] w1(4) by simp
  obtain e em w2 where w2: "bub_malloc fw (of_nat (128 * ENTRIES_PER_BLOCK)) w1 = (Inr (e, em), w2)"
    "e \<noteq> 0" "e \<notin> live w1" "live w2 = insert e (live w1)" "length em = 512" "good w2" "img w2 = ?img"
    using good_malloc [OF D w1(6) f1, of "of_nat (128 * ENTRIES_PER_BLOCK)"] w1(7)
    by (auto simp: keeps_def ENTRIES_PER_BLOCK_def)
  obtain r1 w3 where w3: "read_blocks fw bio 1 512 hm w2 = (Inr (r1, chunk 512 512 ?img), w3)"
    "\<not> EFI_ERROR r1" "live w3 = live w2" "good w3" "img w3 = ?img"
    using good_read_header [OF D w2(6) _ w1(5)] w2(7) assms(4) by (auto simp: keeps_def)
  let ?n = "of_nat (length ?s) + 1 :: u64"
  have f3: "few (live w3) 16"
    using few_mono [OF few_insert [OF few_insert [OF assms(3)]]] w3(3) w2(4) w1(4) by simp
  have un: "unat (2 * ?n) = 2 * Suc (length ?s)"
    using len by (subst (2) mult.commute) (simp add: unat_word_ariths unat_of_nat)
  obtain c w4 where w4: "bub_calloc fw (2 * ?n) w3 = (Inr (c, replicate (2 * Suc (length ?s)) 0), w4)"
    "c \<noteq> 0" "c \<notin> live w3" "live w4 = insert c (live w3)" "good w4" "img w4 = ?img"
    using good_calloc [OF D w3(4) f3, of "2 * ?n"] w3(5) un by (auto simp: keeps_def)
  have conv: "utf8_to_ucs2 name ?n (u16_list (replicate (2 * Suc (length ?s)) 0)) (2 * ?n) =
      Inr (0, map ucast ?s @ [0])"
    using facts(2) by (simp only: u16_list_zeros)
  define all0 where "all0 = take (128 * MAX_GPT_ENTRIES)
    (Stack fw (128 * MAX_GPT_ENTRIES) w4 @ replicate (128 * MAX_GPT_ENTRIES) 0)"
  have all0: "length all0 = 16384" by (simp add: all0_def MAX_GPT_ENTRIES_def)
  have st: "stack_array fw (128 * MAX_GPT_ENTRIES) w4 = (Inr all0, w4)"
    by (simp add: stack_array_def all0_def)
  have bs: "ucast (BlockSize (Media fw bio w4) * of_nat (MAX_GPT_ENTRIES div ENTRIES_PER_BLOCK)) = (16384 :: u64)"
    using dev_okD(3) [OF D w4(5)] by (simp add: MAX_GPT_ENTRIES_def ENTRIES_PER_BLOCK_def)
  obtain r2 w5 where w5: "read_blocks fw bio GPT_ENTRIES_LBA 16384 all0 w4 =
      (Inr (r2, chunk 1024 16384 ?img), w5)" "\<not> EFI_ERROR r2" "live w5 = live w4" "good w5" "img w5 = ?img"
    using good_read_table [OF D w4(5) _ all0] w4(6) assms(4) by (auto simp: keeps_def)
  have found: "find_entry fw (entry_count (gpth_of (chunk 512 512 ?img))) (length ?s)
      (u16_bytes (map ucast ?s @ [0])) (chunk 1024 16384 ?img) 0 = Inr (gpt_index ?img name)"
    using find_entry_on_disk [OF dev_okD(2) [OF D] assms(4,5)] by (simp add: gpt_header_at_def)
  have pre: "bub_partition_entry_by_name fw bio name w =
     (case gpt_index ?img name of
       Some i \<Rightarrow>
         bnd (pure (bub_memcpy em 0 (chunk (128 * i) 128 (chunk 1024 16384 ?img)) 128)) (\<lambda>entry_mem.
         bnd (bub_frees fw [c, h]) (\<lambda>_. ret (EFI_SUCCESS, e, entry_mem)))
     | None \<Rightarrow> bnd (bub_frees fw [c, h, e]) (\<lambda>_. ret (EFI_NOT_FOUND, 0, []))) w5"
    using w1 w2 w3 w4 w5 facts(1) conv found bs st
    by (simp add: bub_partition_entry_by_name_def Let_def media_of_def
        del: bub_frees.simps u16_list.simps split: option.split)
  have lv: "live w5 = {c, e, h} \<union> live w" "c \<noteq> e" "c \<noteq> h" "e \<noteq> h" "c \<notin> live w" "e \<notin> live w"
    using w1 w2 w3 w4 w5 by auto
  show ?thesis
  proof (cases "gpt_index ?img name")
    case None
    obtain w6 where "bub_frees fw [c, h, e] w5 = (Inr (), w6)" "live w6 = live w5 - {c, h, e}"
      "good w6" "img w6 = ?img"
      using good_frees [OF D w5(4), of "[c, h, e]"] lv w5(5) by (auto simp: keeps_def)
    then show ?thesis
      using pre None lv w1(3) w2(2,3)
      by (intro exI [of _ e] exI [of _ "[]"] exI [of _ w6])
        (auto simp: keeps_def simp del: bub_frees.simps)
  next
    case (Some i)
    have i: "i < 128" "34 * 512 \<le> length ?img"
      using gpt_index_Some [OF Some] assms(4) by (auto simp: table_ok_def)
    let ?e = "chunk (1024 + 128 * i) 128 ?img"
    have le: "length ?e = 128" using i by simp
    have cp: "bub_memcpy em 0 (chunk (128 * i) 128 (chunk 1024 16384 ?img)) 128 = Inr (?e @ drop 128 em)"
      using entry_in_table [OF i(2,1)] le w2(5) by simp
    obtain w6 where "bub_frees fw [c, h] w5 = (Inr (), w6)" "live w6 = live w5 - {c, h}"
      "good w6" "img w6 = ?img"
      using good_frees [OF D w5(4), of "[c, h]"] lv w5(5) by (auto simp: keeps_def)
    then show ?thesis
      using pre Some cp lv w1(3) w2(2,3) le
      by (intro exI [of _ e] exI [of _ "?e @ drop 128 em"] exI [of _ w6])
        (auto simp: keeps_def gpt_entry_at_def simp del: bub_frees.simps)
  qed
qed

end
