(* ===== verification/Bub_Crc32.thy ===== *)
theory Bub_Crc32
  imports Bub_Sysdeps
begin

text \<open>
  \<open>bub_crc32.c\<close>: the table-driven CRC-32 that protects the A/B metadata, with the bitwise shift
  register it optimises as its reference. The table entries are copied from the source.
\<close>

section \<open>The routine\<close>

definition crc32_tab :: "u32 list" where
  "crc32_tab =
   [0x00000000, 0x77073096, 0xee0e612c, 0x990951ba, 0x076dc419, 0x706af48f,
    0xe963a535, 0x9e6495a3, 0x0edb8832, 0x79dcb8a4, 0xe0d5e91e, 0x97d2d988,
    0x09b64c2b, 0x7eb17cbd, 0xe7b82d07, 0x90bf1d91, 0x1db71064, 0x6ab020f2,
    0xf3b97148, 0x84be41de, 0x1adad47d, 0x6ddde4eb, 0xf4d4b551, 0x83d385c7,
    0x136c9856, 0x646ba8c0, 0xfd62f97a, 0x8a65c9ec, 0x14015c4f, 0x63066cd9,
    0xfa0f3d63, 0x8d080df5, 0x3b6e20c8, 0x4c69105e, 0xd56041e4, 0xa2677172,
    0x3c03e4d1, 0x4b04d447, 0xd20d85fd, 0xa50ab56b, 0x35b5a8fa, 0x42b2986c,
    0xdbbbc9d6, 0xacbcf940, 0x32d86ce3, 0x45df5c75, 0xdcd60dcf, 0xabd13d59,
    0x26d930ac, 0x51de003a, 0xc8d75180, 0xbfd06116, 0x21b4f4b5, 0x56b3c423,
    0xcfba9599, 0xb8bda50f, 0x2802b89e, 0x5f058808, 0xc60cd9b2, 0xb10be924,
    0x2f6f7c87, 0x58684c11, 0xc1611dab, 0xb6662d3d, 0x76dc4190, 0x01db7106,
    0x98d220bc, 0xefd5102a, 0x71b18589, 0x06b6b51f, 0x9fbfe4a5, 0xe8b8d433,
    0x7807c9a2, 0x0f00f934, 0x9609a88e, 0xe10e9818, 0x7f6a0dbb, 0x086d3d2d,
    0x91646c97, 0xe6635c01, 0x6b6b51f4, 0x1c6c6162, 0x856530d8, 0xf262004e,
    0x6c0695ed, 0x1b01a57b, 0x8208f4c1, 0xf50fc457, 0x65b0d9c6, 0x12b7e950,
    0x8bbeb8ea, 0xfcb9887c, 0x62dd1ddf, 0x15da2d49, 0x8cd37cf3, 0xfbd44c65,
    0x4db26158, 0x3ab551ce, 0xa3bc0074, 0xd4bb30e2, 0x4adfa541, 0x3dd895d7,
    0xa4d1c46d, 0xd3d6f4fb, 0x4369e96a, 0x346ed9fc, 0xad678846, 0xda60b8d0,
    0x44042d73, 0x33031de5, 0xaa0a4c5f, 0xdd0d7cc9, 0x5005713c, 0x270241aa,
    0xbe0b1010, 0xc90c2086, 0x5768b525, 0x206f85b3, 0xb966d409, 0xce61e49f,
    0x5edef90e, 0x29d9c998, 0xb0d09822, 0xc7d7a8b4, 0x59b33d17, 0x2eb40d81,
    0xb7bd5c3b, 0xc0ba6cad, 0xedb88320, 0x9abfb3b6, 0x03b6e20c, 0x74b1d29a,
    0xead54739, 0x9dd277af, 0x04db2615, 0x73dc1683, 0xe3630b12, 0x94643b84,
    0x0d6d6a3e, 0x7a6a5aa8, 0xe40ecf0b, 0x9309ff9d, 0x0a00ae27, 0x7d079eb1,
    0xf00f9344, 0x8708a3d2, 0x1e01f268, 0x6906c2fe, 0xf762575d, 0x806567cb,
    0x196c3671, 0x6e6b06e7, 0xfed41b76, 0x89d32be0, 0x10da7a5a, 0x67dd4acc,
    0xf9b9df6f, 0x8ebeeff9, 0x17b7be43, 0x60b08ed5, 0xd6d6a3e8, 0xa1d1937e,
    0x38d8c2c4, 0x4fdff252, 0xd1bb67f1, 0xa6bc5767, 0x3fb506dd, 0x48b2364b,
    0xd80d2bda, 0xaf0a1b4c, 0x36034af6, 0x41047a60, 0xdf60efc3, 0xa867df55,
    0x316e8eef, 0x4669be79, 0xcb61b38c, 0xbc66831a, 0x256fd2a0, 0x5268e236,
    0xcc0c7795, 0xbb0b4703, 0x220216b9, 0x5505262f, 0xc5ba3bbe, 0xb2bd0b28,
    0x2bb45a92, 0x5cb36a04, 0xc2d7ffa7, 0xb5d0cf31, 0x2cd99e8b, 0x5bdeae1d,
    0x9b64c2b0, 0xec63f226, 0x756aa39c, 0x026d930a, 0x9c0906a9, 0xeb0e363f,
    0x72076785, 0x05005713, 0x95bf4a82, 0xe2b87a14, 0x7bb12bae, 0x0cb61b38,
    0x92d28e9b, 0xe5d5be0d, 0x7cdcefb7, 0x0bdbdf21, 0x86d3d2d4, 0xf1d4e242,
    0x68ddb3f8, 0x1fda836e, 0x81be16cd, 0xf6b9265b, 0x6fb077e1, 0x18b74777,
    0x88085ae6, 0xff0f6a70, 0x66063bca, 0x11010b5c, 0x8f659eff, 0xf862ae69,
    0x616bffd3, 0x166ccf45, 0xa00ae278, 0xd70dd2ee, 0x4e048354, 0x3903b3c2,
    0xa7672661, 0xd06016f7, 0x4969474d, 0x3e6e77db, 0xaed16a4a, 0xd9d65adc,
    0x40df0b66, 0x37d83bf0, 0xa9bcae53, 0xdebb9ec5, 0x47b2cf7f, 0x30b5ffe9,
    0xbdbdf21c, 0xcabac28a, 0x53b39330, 0x24b4a3a6, 0xbad03605, 0xcdd70693,
    0x54de5729, 0x23d967bf, 0xb3667a2e, 0xc4614ab8, 0x5d681b02, 0x2a6f2b94,
    0xb40bbe37, 0xc30c8ea1, 0x5a05df1b, 0x2d02ef8d]"

text \<open>One turn of the loop: \<open>crc = crc32_tab[(crc ^ *p++) & 0xFF] ^ (crc >> 8)\<close>.\<close>

definition crc_step :: "u32 \<Rightarrow> byte \<Rightarrow> u32" where
  "crc_step crc b = crc32_tab ! unat ((crc XOR ucast b) AND 0xFF) XOR drop_bit 8 crc"

fun crc_loop :: "u32 \<Rightarrow> byte list \<Rightarrow> nat \<Rightarrow> fault + u32" where
  "crc_loop crc p 0 = Inr crc"
| "crc_loop crc [] (Suc n) = Inl Oob_Read"
| "crc_loop crc (b # p) (Suc n) = crc_loop (crc_step crc b) p n"

definition bub_crc32 :: "u32 \<Rightarrow> byte list \<Rightarrow> nat \<Rightarrow> fault + u32" where
  "bub_crc32 crc_in buf num =
     sbind (crc_loop (crc_in XOR NOT 0) buf num) (\<lambda>crc. Inr (crc XOR NOT 0))"

section \<open>The reference: a 32-bit shift register with feedback\<close>

definition crc_poly :: u32 where "crc_poly = 0xedb88320"

definition crc_bit :: "u32 \<Rightarrow> u32" where
  "crc_bit c = (if bit c 0 then crc_poly XOR drop_bit 1 c else drop_bit 1 c)"

definition crc_ref :: "u32 \<Rightarrow> byte list \<Rightarrow> u32" where
  "crc_ref crc_in p = NOT (fold (\<lambda>b c. (crc_bit ^^ 8) (c XOR ucast b)) p (NOT crc_in))"

section \<open>The table is the shift register, eight steps at a time\<close>

lemma length_crc32_tab [simp]: "length crc32_tab = 256"
  by (simp add: crc32_tab_def)

text \<open>The register is linear over exclusive or, and a step on a zero low bit is a plain shift.\<close>

lemma crc_bit_xor: "crc_bit (x XOR y) = crc_bit x XOR crc_bit y"
  by (rule bit_word_eqI) (auto simp: crc_bit_def bit_simps)

lemma crc_bits_xor: "(crc_bit ^^ n) (x XOR y) = (crc_bit ^^ n) x XOR (crc_bit ^^ n) y"
  by (induction n) (simp_all add: crc_bit_xor)

lemma crc_bit_0 [simp]: "crc_bit 0 = 0"
  by (simp add: crc_bit_def)

lemma crc_bits_low_zero:
  "(\<And>i. i < n \<Longrightarrow> \<not> bit x i) \<Longrightarrow> (crc_bit ^^ n) x = drop_bit n x"
proof (induction n arbitrary: x)
  case (Suc n)
  have "crc_bit x = drop_bit 1 x"
    using Suc.prems [of 0] by (simp add: crc_bit_def)
  moreover have "(crc_bit ^^ n) (drop_bit 1 x) = drop_bit n (drop_bit 1 x)"
    by (rule Suc.IH) (use Suc.prems in \<open>auto simp: bit_simps\<close>)
  ultimately show ?case
    by (simp add: funpow_swap1 del: funpow.simps add: funpow_Suc_right)
qed simp

text \<open>
  The table is built by doubling: entry \<open>2 ^ k + i\<close> is entry \<open>i\<close> with the feedback of bit \<open>k\<close>
  added. The eight feedback words are one chain of register steps.
\<close>

definition crc_doubling :: "u32 list \<Rightarrow> u32 list" where
  "crc_doubling as = fold (\<lambda>a T. T @ map (\<lambda>x. x XOR a) T) as [0]"

lemma crc32_tab_doubling:
  "crc32_tab = crc_doubling [0x77073096, 0xee0e612c, 0x076dc419, 0x0edb8832, 0x1db71064,
     0x3b6e20c8, 0x76dc4190, 0xedb88320]"
  by (simp add: crc32_tab_def crc_doubling_def)

lemma crc_bit_chain:
  "crc_bit 128 = 64" "crc_bit 64 = 32" "crc_bit 32 = 16" "crc_bit 16 = 8" "crc_bit 8 = 4"
  "crc_bit 4 = 2" "crc_bit 2 = 1" "crc_bit 1 = 0xedb88320" "crc_bit 0xedb88320 = 0x76dc4190"
  "crc_bit 0x76dc4190 = 0x3b6e20c8" "crc_bit 0x3b6e20c8 = 0x1db71064"
  "crc_bit 0x1db71064 = 0x0edb8832" "crc_bit 0x0edb8832 = 0x076dc419"
  "crc_bit 0x076dc419 = 0xee0e612c" "crc_bit 0xee0e612c = 0x77073096"
  by (simp_all add: crc_bit_def crc_poly_def)

lemma crc_bits_8: "(crc_bit ^^ 8) x =
  crc_bit (crc_bit (crc_bit (crc_bit (crc_bit (crc_bit (crc_bit (crc_bit x)))))))"
  by (simp add: numeral_eq_Suc)

lemma of_nat_double:
  assumes "i < 2 ^ k" "k < 32"
  shows "of_nat (2 ^ k + i) = (of_nat i XOR 2 ^ k :: u32)"
proof -
  have "i AND 2 ^ k = 0"
    using assms by (auto simp: and_exp_eq_0_iff_not_bit bit_nat_def)
  then have "2 ^ k + i = i XOR 2 ^ k"
    by (simp add: disjunctive_add_eq_xor add.commute)
  then show ?thesis by (simp add: of_nat_xor_eq)
qed

lemma crc_entries_double:
  assumes "k < 32"
  shows "map (\<lambda>i. (crc_bit ^^ 8) (of_nat i)) [0..<2 ^ Suc k] =
    map (\<lambda>i. (crc_bit ^^ 8) (of_nat i)) [0..<2 ^ k] @
    map (\<lambda>x. x XOR (crc_bit ^^ 8) (2 ^ k)) (map (\<lambda>i. (crc_bit ^^ 8) (of_nat i)) [0..<2 ^ k])"
    (is "map ?f _ = map ?f _ @ map ?g _")
proof -
  have "[0..<2 ^ Suc k] = [0..<2 ^ k] @ map (\<lambda>i. 2 ^ k + i) [0..<2 ^ k]"
    using map_add_upt [of "2 ^ k" "2 ^ k"] upt_add_eq_append [of 0 "2 ^ k" "2 ^ k"]
    by (simp add: mult_2 add.commute)
  then show ?thesis
    using assms by (auto simp: of_nat_double crc_bits_xor simp del: of_nat_add)
qed

lemma crc32_tab_eq: "crc32_tab = map (\<lambda>i. (crc_bit ^^ 8) (of_nat i)) [0..<256]"
proof -
  let ?T = "\<lambda>k. map (\<lambda>i. (crc_bit ^^ 8) (of_nat i)) [0..<2 ^ k]"
  have step: "?T (Suc k) = ?T k @ map (\<lambda>x. x XOR (crc_bit ^^ 8) (2 ^ k)) (?T k)" if "k < 8" for k
    by (rule crc_entries_double) (use that in simp)
  have "?T 8 = crc_doubling (map (\<lambda>k. (crc_bit ^^ 8) (2 ^ k)) [0..<8])"
  proof -
    have "?T k = crc_doubling (map (\<lambda>k. (crc_bit ^^ 8) (2 ^ k)) [0..<k])" if "k \<le> 8" for k
      using that
    proof (induction k)
      case 0
      show ?case by (simp add: crc_doubling_def crc_bits_8)
    next
      case (Suc k)
      then have "?T k = crc_doubling (map (\<lambda>k. (crc_bit ^^ 8) (2 ^ k)) [0..<k])" by simp
      with step [of k] Suc.prems show ?case
        by (simp add: crc_doubling_def del: power_Suc)
    qed
    then show ?thesis by blast
  qed
  moreover have "map (\<lambda>k. (crc_bit ^^ 8) (2 ^ k)) [0..<8] =
     [0x77073096, 0xee0e612c, 0x076dc419, 0x0edb8832, 0x1db71064, 0x3b6e20c8, 0x76dc4190, 0xedb88320]"
    by (simp add: upt_rec crc_bits_8 crc_bit_chain)
  ultimately show ?thesis by (simp add: crc32_tab_doubling)
qed

lemma crc32_tab_nth: "i < 256 \<Longrightarrow> crc32_tab ! i = (crc_bit ^^ 8) (of_nat i)"
  by (simp add: crc32_tab_eq)

lemma crc_step_ref: "crc_step crc b = (crc_bit ^^ 8) (crc XOR ucast b)"
proof -
  let ?x = "crc XOR ucast b"
  let ?low = "?x AND 0xFF"
  have split: "?x = ?low XOR (?x AND NOT 0xFF)"
    by (rule bit_word_eqI) (auto simp: bit_simps)
  have low: "crc32_tab ! unat ?low = (crc_bit ^^ 8) ?low"
  proof -
    have "?low \<le> 0xFF" by (rule word_and_le1)
    then have "unat ?low < 256" by (simp add: word_le_nat_alt)
    then show ?thesis by (simp add: crc32_tab_nth)
  qed
  have FF: "(0xFF :: u32) = mask 8" by (simp add: mask_eq_decr_exp)
  have high: "(crc_bit ^^ 8) (?x AND NOT 0xFF) = drop_bit 8 crc"
  proof -
    have "(crc_bit ^^ 8) (?x AND NOT (mask 8)) = drop_bit 8 (?x AND NOT (mask 8))"
      by (rule crc_bits_low_zero) (simp only: bit_simps, simp)
    also have "\<dots> = drop_bit 8 crc"
      by (rule bit_word_eqI) (auto simp: bit_simps dest: bit_imp_le_length)
    finally show ?thesis by (simp only: FF)
  qed
  have "(crc_bit ^^ 8) ?x = (crc_bit ^^ 8) ?low XOR (crc_bit ^^ 8) (?x AND NOT 0xFF)"
    by (subst split) (rule crc_bits_xor)
  then show ?thesis by (simp only: crc_step_def low high)
qed

section \<open>Injectivity of the register\<close>

lemma inj_crc_bit: "inj crc_bit"
proof (rule injI)
  fix x y :: u32
  assume eq: "crc_bit x = crc_bit y"
  then have "crc_bit (x XOR y) = 0"
    by (simp add: crc_bit_xor)
  moreover have "z = 0" if "crc_bit z = 0" for z :: u32
  proof -
    have odd: "\<not> bit z 0"
    proof
      assume "bit z 0"
      moreover have "\<not> bit z 32" using bit_imp_le_length [of z 32] by auto
      ultimately have "bit (crc_bit z) 31" by (simp add: crc_bit_def crc_poly_def bit_simps)
      with that show False by simp
    qed
    with that have "drop_bit 1 z = 0" by (simp add: crc_bit_def)
    then have high: "\<not> bit z (Suc i)" for i
      using bit_drop_bit_eq [of 1 z] by (simp add: fun_eq_iff)
    have "\<not> bit z i" for i
      using odd high by (cases i) simp_all
    then show "z = 0" by (simp add: bit_eq_iff)
  qed
  ultimately have "x XOR y = 0" by blast
  then show "x = y" by (simp only: xor_eq_0_iff_eq)
qed

lemma crc_bits_eq_iff [simp]: "(crc_bit ^^ n) x = (crc_bit ^^ n) y \<longleftrightarrow> x = y"
  using inj_fn [OF inj_crc_bit, of n] by (auto dest: injD)

section \<open>The routine is the register\<close>

lemma crc_loop_run:
  "crc_loop crc p n =
     (if n \<le> length p then Inr (fold (\<lambda>b c. (crc_bit ^^ 8) (c XOR ucast b)) (take n p) crc)
      else Inl Oob_Read)"
  by (induction crc p n rule: crc_loop.induct) (simp_all add: crc_step_ref)


lemma bub_crc32_in_bounds [simp]:
  "n \<le> length buf \<Longrightarrow> bub_crc32 crc_in buf n = Inr (crc_ref crc_in (take n buf))"
  by (simp add: bub_crc32_def crc_loop_run crc_ref_def)

section \<open>Error detection\<close>

text \<open>Up to four bytes enter the register as one little-endian word.\<close>

lemma crc_window:
  "length w \<le> 4 \<Longrightarrow>
   fold (\<lambda>b c. (crc_bit ^^ 8) (c XOR ucast b)) w c = (crc_bit ^^ (8 * length w)) (c XOR le_val w)"
proof (induction w arbitrary: c)
  case (Cons b bs)
  let ?v = "le_val bs :: u32"
  have v_small: "\<not> bit ?v i" if "24 \<le> i" for i
    using bit_le_val_bound [where 'a = 32, of bs i] that Cons.prems by auto
  have shift: "(crc_bit ^^ 8) (push_bit 8 ?v) = ?v"
  proof -
    have "(crc_bit ^^ 8) (push_bit 8 ?v) = drop_bit 8 (push_bit 8 ?v)"
      by (rule crc_bits_low_zero) (simp add: bit_simps)
    also have "\<dots> = ?v"
    proof (rule bit_word_eqI)
      fix n assume "n < LENGTH(32)"
      then show "bit (drop_bit 8 (push_bit 8 ?v)) n = bit ?v n"
        using v_small [of n] by (cases "n < 24") (auto simp: bit_simps)
    qed
    finally show ?thesis .
  qed
  have word: "le_val (b # bs) = ucast b XOR push_bit 8 ?v"
    by (rule bit_word_eqI) (auto simp: bit_simps dest: bit_imp_le_length)
  have "(crc_bit ^^ 8) (c XOR ucast b) XOR ?v = (crc_bit ^^ 8) (c XOR le_val (b # bs))"
    by (simp only: word crc_bits_xor shift xor.assoc)
  moreover have "(crc_bit ^^ (8 * length (b # bs))) x = (crc_bit ^^ (8 * length bs)) ((crc_bit ^^ 8) x)" for x
    using funpow_add [of "8 * length bs" 8 crc_bit] by (simp add: add.commute)
  ultimately show ?case
    using Cons by (simp del: le_val.simps)
qed simp

lemma crc_fold_inj:
  "fold (\<lambda>b c. (crc_bit ^^ 8) (c XOR ucast b)) p x = fold (\<lambda>b c. (crc_bit ^^ 8) (c XOR ucast b)) p y
   \<longleftrightarrow> x = y"
proof (induction p arbitrary: x y)
  case (Cons b p)
  then show ?case by simp
qed simp

lemma crc_ref_burst:
  assumes "length w1 = length w2" "length w1 \<le> 4"
    and "crc_ref c (pre @ w1 @ suf) = crc_ref c (pre @ w2 @ suf)"
  shows "w1 = w2"
proof -
  let ?c = "fold (\<lambda>b c. (crc_bit ^^ 8) (c XOR ucast b)) pre (NOT c)"
  have "?c XOR le_val w1 = ?c XOR (le_val w2 :: u32)"
    using assms by (simp add: crc_ref_def crc_fold_inj crc_window)
  then have "le_val w1 = (le_val w2 :: u32)" by simp
  then have "le_bytes (length w1) (le_val w1 :: u32) = le_bytes (length w1) (le_val w2 :: u32)"
    by simp
  then show ?thesis
    using assms(1,2) by simp
qed

text \<open>C29: the checksum detects every burst error of at most 32 bits on a byte boundary: two buffers
  that differ only inside a window of up to four consecutive bytes have different CRCs.\<close>

theorem bub_crc32_detects_bursts:
  assumes "length w1 = length w2" "length w1 \<le> 4" "w1 \<noteq> w2"
  shows "bub_crc32 c (pre @ w1 @ suf) (length (pre @ w1 @ suf)) \<noteq>
         bub_crc32 c (pre @ w2 @ suf) (length (pre @ w2 @ suf))"
  using assms crc_ref_burst [of w1 w2 c pre suf] by auto

theorem bub_crc32_detects_bursts_witness:
  "bub_crc32 0 ([1] @ [2, 3] @ [4]) (length ([1 :: byte] @ [2, 3] @ [4])) \<noteq>
   bub_crc32 0 ([1] @ [2, 7] @ [4]) (length ([1 :: byte] @ [2, 7] @ [4]))"
  by (rule bub_crc32_detects_bursts) simp_all

end
