(* ===== verification/Bub_AbData.thy ===== *)
theory Bub_AbData
  imports Bub_Crc32 Bub_Util
begin

text \<open>
  The A/B metadata of \<open>bub_ab_flow.h\<close>: the two packed structures, with the bit fields at their
  width, and their 64-byte image in memory and on the \<open>misc\<close> partition. Bit fields are laid out as
  the x86_64 compilers do, the first field in the least significant bits.
\<close>

section \<open>The structures\<close>

record BubSlotData =
  priority :: "4 word"
  tries_remaining :: "3 word"
  successful_boot :: "1 word"
  reserved :: "byte list"

record BubAbData =
  magic :: "byte list"
  major_version :: byte
  minor_version :: byte
  reserved1 :: "byte list"
  slots :: "BubSlotData list"
  reserved2 :: "byte list"
  crc32 :: u32

definition BUB_AB_DATA_SIZE :: nat where "BUB_AB_DATA_SIZE = 64"
definition BUB_BOOT_CTRL_MAGIC :: "byte list" where
  "BUB_BOOT_CTRL_MAGIC = map (\<lambda>c. of_nat (of_char c)) ''BUEF''"
definition BUB_MAJOR_VERSION :: byte where "BUB_MAJOR_VERSION = 1"
definition BUB_MINOR_VERSION :: byte where "BUB_MINOR_VERSION = 0"

text \<open>The array sizes of the C declarations.\<close>

definition slot_wf :: "BubSlotData \<Rightarrow> bool" where
  "slot_wf s \<longleftrightarrow> length (reserved s) = 7"

definition ab_wf :: "BubAbData \<Rightarrow> bool" where
  "ab_wf d \<longleftrightarrow> length (magic d) = 4 \<and> length (reserved1 d) = 2 \<and> length (slots d) = 2 \<and>
     list_all slot_wf (slots d) \<and> length (reserved2 d) = 36"

section \<open>The memory image\<close>

definition slot_flags :: "BubSlotData \<Rightarrow> byte" where
  "slot_flags s = ucast (priority s) OR push_bit 4 (ucast (tries_remaining s)) OR
     push_bit 7 (ucast (successful_boot s))"

definition slot_bytes :: "BubSlotData \<Rightarrow> byte list" where
  "slot_bytes s = slot_flags s # reserved s"

definition slot_of :: "byte list \<Rightarrow> BubSlotData" where
  "slot_of bs = \<lparr>priority = ucast (bs ! 0), tries_remaining = ucast (drop_bit 4 (bs ! 0)),
     successful_boot = ucast (drop_bit 7 (bs ! 0)), reserved = chunk 1 7 bs\<rparr>"

definition ab_bytes :: "BubAbData \<Rightarrow> byte list" where
  "ab_bytes d = magic d @ [major_version d, minor_version d] @ reserved1 d @
     concat (map slot_bytes (slots d)) @ reserved2 d @ le_bytes 4 (crc32 d)"

definition ab_of :: "byte list \<Rightarrow> BubAbData" where
  "ab_of bs = \<lparr>magic = chunk 0 4 bs, major_version = bs ! 4, minor_version = bs ! 5,
     reserved1 = chunk 6 2 bs, slots = [slot_of (chunk 8 8 bs), slot_of (chunk 16 8 bs)],
     reserved2 = chunk 24 36 bs, crc32 = le_val (chunk 60 4 bs)\<rparr>"

section \<open>Sizes and round trips\<close>

lemma length_BUB_BOOT_CTRL_MAGIC [simp, layout_simps]: "length BUB_BOOT_CTRL_MAGIC = 4"
  by (simp add: BUB_BOOT_CTRL_MAGIC_def)

lemma length_slot_bytes [layout_simps]: "slot_wf s \<Longrightarrow> length (slot_bytes s) = 8"
  by (simp add: slot_bytes_def slot_wf_def)

lemma two_slots:
  "length xs = 2 \<longleftrightarrow> (\<exists>a b. xs = [a, b])"
  by (auto simp: numeral_2_eq_2 length_Suc_conv)

lemma length_ab_bytes [layout_simps]: "ab_wf d \<Longrightarrow> length (ab_bytes d) = 64"
  by (auto simp: ab_bytes_def ab_wf_def two_slots length_slot_bytes)

lemma slot_wf_slot_of [layout_simps]: "8 \<le> length bs \<Longrightarrow> slot_wf (slot_of bs)"
  by (simp add: slot_wf_def slot_of_def)

lemma ab_wf_ab_of [layout_simps]: "length bs = 64 \<Longrightarrow> ab_wf (ab_of bs)"
  by (simp add: ab_wf_def ab_of_def slot_wf_slot_of)

lemma slot_flags_fields:
  "ucast (slot_flags s) = priority s"
  "ucast (drop_bit 4 (slot_flags s)) = tries_remaining s"
  "ucast (drop_bit 7 (slot_flags s)) = successful_boot s"
  by (rule bit_word_eqI; auto simp: slot_flags_def bit_simps dest: bit_imp_le_length)+

lemma slot_flags_of_fields:
  "ucast (ucast b :: 4 word) OR push_bit 4 (ucast (ucast (drop_bit 4 b) :: 3 word)) OR
   push_bit 7 (ucast (ucast (drop_bit 7 b) :: 1 word)) = (b :: byte)"
  by (rule byte_eqI) (simp_all add: bit_simps)

lemma slot_of_slot_bytes [simp]: "slot_wf s \<Longrightarrow> slot_of (slot_bytes s) = s"
  by (simp add: slot_of_def slot_bytes_def slot_wf_def slot_flags_fields chunk_def)

lemma slot_bytes_slot_of [simp]: "length bs = 8 \<Longrightarrow> slot_bytes (slot_of bs) = bs"
  by (cases bs) (simp_all add: slot_bytes_def slot_of_def slot_flags_def slot_flags_of_fields chunk_def)

lemma ab_of_ab_bytes [simp]:
  assumes "ab_wf d"
  shows "ab_of (ab_bytes d) = d"
proof -
  obtain a b where ab: "slots d = [a, b]" "slot_wf a" "slot_wf b"
    using assms by (auto simp: ab_wf_def two_slots)
  show ?thesis
    using assms ab
    by (simp add: ab_wf_def ab_of_def ab_bytes_def chunk_def length_slot_bytes nth_append)
qed

lemma ab_bytes_ab_of [simp]:
  assumes "length bs = 64"
  shows "ab_bytes (ab_of bs) = bs"
proof -
  have join: "chunk i n bs @ chunk j m bs @ r = chunk i (n + m) bs @ r" if "j = i + n" for i n j m r
    using that by (simp flip: append_assoc)
  have "ab_bytes (ab_of bs) = chunk 0 4 bs @ chunk 4 2 bs @ chunk 6 2 bs @ chunk 8 8 bs @
      chunk 16 8 bs @ chunk 24 36 bs @ chunk 60 4 bs"
    using assms by (simp add: ab_bytes_def ab_of_def chunk_two)
  also have "\<dots> = chunk 0 60 bs @ chunk 60 4 bs"
    by (simp only: join) simp
  also have "\<dots> = chunk 0 64 bs"
    using chunk_append_chunk [of 0 60 bs 4] by simp
  finally show ?thesis using assms by simp
qed

text \<open>The structures and their 64-byte images correspond one to one: no bit of the image is
  lost when it is read as a structure, and none is invented when a structure is written.\<close>

lemma ab_layout_bijection:
  "bij_betw ab_bytes {d. ab_wf d} {bs. length bs = BUB_AB_DATA_SIZE}"
  by (rule bij_betw_byWitness [where f' = ab_of])
     (auto simp: BUB_AB_DATA_SIZE_def length_ab_bytes ab_wf_ab_of)

end
