(* ===== verification/Bub_AbPolicy.thy ===== *)
theory Bub_AbPolicy
  imports Main
begin

text \<open>
  The abstract specification of the A/B flow. A slot is unbootable, being tried (a priority and the
  number of attempts left) or confirmed (a priority). A boot prefers the bootable slot of the higher
  priority, slot A on a tie, and charges one attempt to a slot being tried; the last attempt leaves
  the slot unbootable. Marking makes a slot unbootable. \<open>Bub_AbFlow\<close> proves that the code on
  the metadata of a working partition does exactly these steps; here are the consequences for
  sequences of boots and marks.
\<close>

section \<open>States and operations\<close>

datatype slot_state = Unbootable | Trying nat nat | Confirmed nat

datatype slot_name = Slot_A | Slot_B

text \<open>The order of the slots, by which a tie is decided.\<close>

instantiation slot_name :: linorder
begin

definition less_eq_slot_name :: "slot_name \<Rightarrow> slot_name \<Rightarrow> bool" where
  "less_eq_slot_name a b \<longleftrightarrow> a = Slot_A \<or> b = Slot_B"

definition less_slot_name :: "slot_name \<Rightarrow> slot_name \<Rightarrow> bool" where
  "less_slot_name a b \<longleftrightarrow> a = Slot_A \<and> b = Slot_B"

instance
proof
  fix x y z :: slot_name
  show "(x < y) = (x \<le> y \<and> \<not> y \<le> x)" "x \<le> x" "x \<le> y \<Longrightarrow> y \<le> z \<Longrightarrow> x \<le> z"
    "x \<le> y \<Longrightarrow> y \<le> x \<Longrightarrow> x = y" "x \<le> y \<or> y \<le> x"
    by (cases x; cases y; cases z; simp add: less_eq_slot_name_def less_slot_name_def)+
qed

end

type_synonym meta = "slot_state \<times> slot_state"

fun bootable :: "slot_state \<Rightarrow> bool" where
  "bootable Unbootable = False"
| "bootable _ = True"

fun prio :: "slot_state \<Rightarrow> nat" where
  "prio Unbootable = 0"
| "prio (Trying p t) = p"
| "prio (Confirmed p) = p"

fun attempts :: "slot_state \<Rightarrow> nat" where
  "attempts (Trying p t) = t"
| "attempts _ = 0"

fun attempt :: "slot_state \<Rightarrow> slot_state" where
  "attempt (Trying p t) = (if t \<le> 1 then Unbootable else Trying p (t - 1))"
| "attempt s = s"

fun the_slot :: "slot_name \<Rightarrow> meta \<Rightarrow> slot_state" where
  "the_slot Slot_A s = fst s"
| "the_slot Slot_B s = snd s"

fun with_slot :: "slot_name \<Rightarrow> (slot_state \<Rightarrow> slot_state) \<Rightarrow> meta \<Rightarrow> meta" where
  "with_slot Slot_A f s = (f (fst s), snd s)"
| "with_slot Slot_B f s = (fst s, f (snd s))"

definition policy_choice :: "meta \<Rightarrow> slot_name option" where
  "policy_choice s =
     (if bootable (fst s) \<and> (bootable (snd s) \<longrightarrow> prio (snd s) \<le> prio (fst s)) then Some Slot_A
      else if bootable (snd s) then Some Slot_B else None)"

text \<open>The best slot: bootable, of the highest priority, and the first of those.\<close>

definition best_slot :: "meta \<Rightarrow> slot_name \<Rightarrow> bool" where
  "best_slot s n \<longleftrightarrow> bootable (the_slot n s) \<and>
     (\<forall>m. bootable (the_slot m s) \<longrightarrow>
        prio (the_slot m s) < prio (the_slot n s) \<or> prio (the_slot m s) = prio (the_slot n s) \<and> n \<le> m)"

lemma all_slots: "(\<forall>n :: slot_name. P n) \<longleftrightarrow> P Slot_A \<and> P Slot_B"
  by (metis slot_name.exhaust)

lemma policy_choice_best: "policy_choice s = Some n \<longleftrightarrow> best_slot s n"
  by (cases n) (auto simp: policy_choice_def best_slot_def all_slots less_eq_slot_name_def)

lemma policy_choice_None: "policy_choice s = None \<longleftrightarrow> (\<forall>n. \<not> bootable (the_slot n s))"
  by (auto simp: policy_choice_def all_slots)

definition policy_step :: "meta \<Rightarrow> slot_name option \<times> meta" where
  "policy_step s =
     (case policy_choice s of None \<Rightarrow> (None, s) | Some n \<Rightarrow> (Some n, with_slot n attempt s))"

definition policy_mark :: "slot_name \<Rightarrow> meta \<Rightarrow> meta" where
  "policy_mark n s = with_slot n (\<lambda>_. Unbootable) s"

text \<open>The power cycles and invalidations of a device, in any order.\<close>

datatype ab_op = Flow | Mark slot_name

fun policy_op :: "ab_op \<Rightarrow> meta \<Rightarrow> slot_name option \<times> meta" where
  "policy_op Flow s = policy_step s"
| "policy_op (Mark n) s = (Some n, policy_mark n s)"

fun policy_run :: "ab_op list \<Rightarrow> meta \<Rightarrow> slot_name option list \<times> meta" where
  "policy_run [] s = ([], s)"
| "policy_run (x # xs) s =
     (fst (policy_op x s) # fst (policy_run xs (snd (policy_op x s))),
      snd (policy_run xs (snd (policy_op x s))))"

text \<open>The same as a labelled step relation, and the states a device reaches.\<close>

inductive ab_step :: "meta \<Rightarrow> ab_op \<Rightarrow> slot_name option \<Rightarrow> meta \<Rightarrow> bool" where
  boot: "policy_choice s = Some n \<Longrightarrow> ab_step s Flow (Some n) (with_slot n attempt s)"
| stuck: "policy_choice s = None \<Longrightarrow> ab_step s Flow None s"
| mark: "ab_step s (Mark n) (Some n) (policy_mark n s)"

inductive ab_reach :: "meta \<Rightarrow> meta \<Rightarrow> bool" where
  reach_refl: "ab_reach s s"
| reach_step: "ab_reach s s' \<Longrightarrow> ab_step s' x c s'' \<Longrightarrow> ab_reach s s''"

inductive_cases ab_step_FlowE: "ab_step s Flow c s'"
inductive_cases ab_step_MarkE: "ab_step s (Mark n) c s'"
inductive_simps ab_step_mark_iff: "ab_step s (Mark n) c s'"

lemma policy_op_step: "ab_step s x (fst (policy_op x s)) (snd (policy_op x s))"
  by (cases x) (auto simp: policy_step_def intro: ab_step.intros split: option.splits)

lemma ab_step_determ: "ab_step s x c s' \<Longrightarrow> (c, s') = policy_op x s"
  by (induction rule: ab_step.induct) (simp_all add: policy_step_def)

lemma ab_step_iff: "ab_step s x c s' \<longleftrightarrow> policy_op x s = (c, s')"
  using policy_op_step [of s x] ab_step_determ [of s x c s'] by auto

lemma policy_run_reach: "ab_reach s0 s \<Longrightarrow> ab_reach s0 (snd (policy_run xs s))"
proof (induction xs arbitrary: s)
  case (Cons x xs)
  have "ab_reach s0 (snd (policy_op x s))"
    by (rule reach_step [OF Cons.prems policy_op_step])
  from Cons.IH [OF this] show ?case
    by simp
qed simp

lemma policy_run_append:
  "policy_run (xs @ ys) s =
   (fst (policy_run xs s) @ fst (policy_run ys (snd (policy_run xs s))),
    snd (policy_run ys (snd (policy_run xs s))))"
  by (induction xs arbitrary: s) simp_all

section \<open>Ranges, and the attempts that are left\<close>

fun state_ok :: "slot_state \<Rightarrow> bool" where
  "state_ok Unbootable = True"
| "state_ok (Trying p t) = (0 < p \<and> p \<le> 15 \<and> 0 < t \<and> t \<le> 7)"
| "state_ok (Confirmed p) = (0 < p \<and> p \<le> 15)"

definition meta_ok :: "meta \<Rightarrow> bool" where
  "meta_ok s \<longleftrightarrow> state_ok (fst s) \<and> state_ok (snd s)"

definition budget :: "meta \<Rightarrow> nat" where
  "budget s = attempts (fst s) + attempts (snd s)"

lemma attempt_ok: "state_ok x \<Longrightarrow> state_ok (attempt x)"
  by (cases x) auto

lemma meta_ok_with_slot:
  "meta_ok s \<Longrightarrow> (\<And>x. state_ok x \<Longrightarrow> state_ok (f x)) \<Longrightarrow> meta_ok (with_slot n f s)"
  by (cases n) (simp_all add: meta_ok_def)

lemma ab_step_ok: "ab_step s x c s' \<Longrightarrow> meta_ok s \<Longrightarrow> meta_ok s'"
  by (induction rule: ab_step.induct) (simp_all add: policy_mark_def meta_ok_with_slot attempt_ok)

lemma budget_bound: "meta_ok s \<Longrightarrow> budget s \<le> 14"
  by (cases s; cases "fst s"; cases "snd s") (auto simp: meta_ok_def budget_def)

lemma attempt_measure:
  "state_ok x \<Longrightarrow> attempt x = x \<or> attempts (attempt x) < attempts x"
  by (cases x) auto

lemma policy_step_progress:
  assumes "meta_ok s"
  shows "snd (policy_step s) = s \<or> budget (snd (policy_step s)) < budget s"
proof (cases "policy_choice s")
  case (Some n)
  then show ?thesis
    using assms attempt_measure [of "fst s"] attempt_measure [of "snd s"]
    by (cases n) (auto simp: policy_step_def meta_ok_def budget_def prod_eq_iff)
qed (simp add: policy_step_def)

lemma policy_step_ok: "meta_ok s \<Longrightarrow> meta_ok (snd (policy_step s))"
  using ab_step_ok policy_op_step [of s Flow] by fastforce

lemma policy_op_ok: "meta_ok s \<Longrightarrow> meta_ok (snd (policy_op x s))"
  using ab_step_ok policy_op_step [of s x] by blast

lemma ab_reach_ok: "ab_reach s s' \<Longrightarrow> meta_ok s \<Longrightarrow> meta_ok s'"
  by (induction rule: ab_reach.induct) (auto dest: ab_step_ok)

section \<open>Fixpoints and fallback\<close>

lemma policy_run_fix:
  "policy_step s = (c, s) \<Longrightarrow> policy_run (replicate k Flow) s = (replicate k c, s)"
  by (induction k) simp_all

text \<open>After as many boots as there are attempts left, the choice never changes again.\<close>

lemma policy_run_settles:
  "meta_ok s \<Longrightarrow> budget s \<le> k \<Longrightarrow>
   snd (policy_step (snd (policy_run (replicate k Flow) s))) = snd (policy_run (replicate k Flow) s)"
proof (induction k arbitrary: s)
  case 0
  then show ?case using policy_step_progress [of s] by auto
next
  case (Suc k)
  show ?case
  proof (cases "snd (policy_step s) = s")
    case True
    then have "policy_step s = (fst (policy_step s), s)" by (simp add: prod_eq_iff)
    from policy_run_fix [OF this, of "Suc k"] show ?thesis using True
      by (simp only: snd_conv)
  next
    case False
    then have "budget (snd (policy_step s)) \<le> k"
      using policy_step_progress [OF Suc.prems(1)] Suc.prems(2) by simp
    from Suc.IH [OF policy_step_ok [OF Suc.prems(1)] this] show ?thesis
      by simp
  qed
qed

text \<open>A slot being tried and preferred is booted exactly as often as it has attempts left.\<close>

lemma policy_run_try_A:
  "bootable b \<longrightarrow> prio b \<le> p \<Longrightarrow> 0 < t \<Longrightarrow>
   policy_run (replicate t Flow) (Trying p t, b) = (replicate t (Some Slot_A), (Unbootable, b))"
proof (induction t)
  case (Suc t)
  then show ?case
    by (cases t) (simp_all add: policy_step_def policy_choice_def)
qed simp

lemma policy_run_try_B:
  "bootable a \<longrightarrow> prio a < p \<Longrightarrow> 0 < t \<Longrightarrow>
   policy_run (replicate t Flow) (a, Trying p t) = (replicate t (Some Slot_B), (a, Unbootable))"
proof (induction t)
  case (Suc t)
  then show ?case
    by (cases t) (auto simp: policy_step_def policy_choice_def)
qed simp

lemma policy_run_fallback:
  assumes "q \<le> p" "0 < t"
  shows "policy_run (replicate (t + k) Flow) (Trying p t, Confirmed q) =
    (replicate t (Some Slot_A) @ replicate k (Some Slot_B), (Unbootable, Confirmed q))"
proof -
  have "policy_step (Unbootable, Confirmed q) = (Some Slot_B, (Unbootable, Confirmed q))"
    by (simp add: policy_step_def policy_choice_def)
  from policy_run_fix [OF this, of k] policy_run_try_A [of "Confirmed q" p t] assms
  show ?thesis by (simp add: replicate_add policy_run_append)
qed

lemma policy_run_reset:
  "policy_run (replicate (14 + k) Flow) (Trying 15 7, Trying 15 7) =
   (replicate 7 (Some Slot_A) @ replicate 7 (Some Slot_B) @ replicate k None, (Unbootable, Unbootable))"
proof -
  have "policy_step (Unbootable, Unbootable) = (None, (Unbootable, Unbootable))"
    by (simp add: policy_step_def policy_choice_def)
  note stay = policy_run_fix [OF this, of k]
  have "replicate (14 + k) Flow = replicate 7 Flow @ replicate 7 Flow @ replicate k Flow"
    by (simp flip: replicate_add)
  then show ?thesis
    using policy_run_try_A [of "Trying 15 7" 15 7] policy_run_try_B [of Unbootable 15 7] stay
    by (simp only: policy_run_append) simp
qed

section \<open>Unbootable slots\<close>

lemma ab_step_unbootable:
  "ab_step s x c s' \<Longrightarrow> the_slot n s = Unbootable \<Longrightarrow>
   the_slot n s' = Unbootable \<and> (x = Flow \<longrightarrow> c \<noteq> Some n)"
proof (induction rule: ab_step.induct)
  case (boot s m)
  then show ?case by (cases n; cases m) (auto simp: policy_choice_def split: if_splits)
next
  case (stuck s)
  then show ?case by simp
next
  case (mark s m)
  then show ?case by (cases n; cases m) (simp_all add: policy_mark_def)
qed

lemma ab_reach_unbootable:
  "ab_reach s s' \<Longrightarrow> the_slot n s = Unbootable \<Longrightarrow> the_slot n s' = Unbootable"
  by (induction rule: ab_reach.induct) (auto dest: ab_step_unbootable)

lemma policy_run_unbootable:
  "the_slot n s = Unbootable \<Longrightarrow> i < length xs \<Longrightarrow> xs ! i = Flow \<Longrightarrow>
   fst (policy_run xs s) ! i \<noteq> Some n"
proof (induction xs arbitrary: s i)
  case (Cons x xs)
  from ab_step_unbootable [OF policy_op_step Cons.prems(1), of x]
    Cons.IH [of "snd (policy_op x s)" "i - 1"] Cons.prems
  show ?case by (cases i) auto
qed simp

lemma length_policy_run [simp]: "length (fst (policy_run xs s)) = length xs"
  by (induction xs arbitrary: s) simp_all

text \<open>A confirmed slot stays confirmed until it is marked.\<close>

lemma ab_step_confirmed:
  "ab_step s x c s' \<Longrightarrow> the_slot n s = Confirmed p \<Longrightarrow> x \<noteq> Mark n \<Longrightarrow> the_slot n s' = Confirmed p"
proof (induction rule: ab_step.induct)
  case (boot s m)
  then show ?case by (cases n; cases m) auto
next
  case (mark s m)
  then show ?case by (cases n; cases m) (auto simp: policy_mark_def)
qed simp

lemma policy_run_confirmed:
  "the_slot n s = Confirmed p \<Longrightarrow> Mark n \<notin> set xs \<Longrightarrow>
   the_slot n (snd (policy_run xs s)) = Confirmed p"
proof (induction xs arbitrary: s)
  case (Cons x xs)
  have "the_slot n (snd (policy_op x s)) = Confirmed p"
    using ab_step_confirmed [OF policy_op_step Cons.prems(1)] Cons.prems(2) by auto
  with Cons.IH Cons.prems(2) show ?case by simp
qed simp

text \<open>While a confirmed slot exists and is not marked, every boot finds a slot.\<close>

lemma policy_run_never_stuck:
  "the_slot n s = Confirmed p \<Longrightarrow> Mark n \<notin> set xs \<Longrightarrow> i < length xs \<Longrightarrow>
   fst (policy_run xs s) ! i \<noteq> None"
proof (induction xs arbitrary: s i)
  case (Cons x xs)
  have c: "the_slot n (snd (policy_op x s)) = Confirmed p"
    using ab_step_confirmed [OF policy_op_step Cons.prems(1)] Cons.prems(2) by auto
  have "fst (policy_op x s) \<noteq> None"
    using Cons.prems(1) by (cases x; cases n; cases s) (auto simp: policy_step_def policy_choice_def)
  with c Cons.IH [OF c, of "i - 1"] Cons.prems show ?case
    by (cases i) simp_all
qed simp

end
