(* ===== verification/Bub_AbFlow.thy ===== *)
theory Bub_AbFlow
  imports Bub_Ops Bub_AbData Bub_AbPolicy
begin

text \<open>
  \<open>bub_ab_flow.c\<close>: reading, checking, resetting and writing the A/B metadata on the \<open>misc\<close>
  partition, normalising the slots, choosing the slot to boot and marking a slot invalid. The first
  part is the code, statement by statement; then come the invariants of the slots, what every
  routine does over a working partition (inside the locale \<open>ab_store\<close>), and the abstract boot
  policy the flow implements.
\<close>

section \<open>The code\<close>

datatype BubAbFlowResult =
    BUB_AB_FLOW_RESULT_OK
  | BUB_AB_FLOW_ERROR_INPUT
  | BUB_AB_FLOW_ERROR_INVALID_METADATA
  | BUB_AB_FLOW_ERROR_NO_VALID_SLOTS
  | BUB_AB_FLOW_ERROR_READ_METADATA
  | BUB_AB_FLOW_ERROR_WRITE_METADATA

text \<open>The integer a result is when the code returns it as an \<open>int\<close>.\<close>

fun ab_result_int :: "BubAbFlowResult \<Rightarrow> int" where
  "ab_result_int BUB_AB_FLOW_RESULT_OK = 0"
| "ab_result_int BUB_AB_FLOW_ERROR_INPUT = 1"
| "ab_result_int BUB_AB_FLOW_ERROR_INVALID_METADATA = 2"
| "ab_result_int BUB_AB_FLOW_ERROR_NO_VALID_SLOTS = 3"
| "ab_result_int BUB_AB_FLOW_ERROR_READ_METADATA = 4"
| "ab_result_int BUB_AB_FLOW_ERROR_WRITE_METADATA = 5"

definition misc :: "byte list" where "misc = cstr ''misc''"

definition BUB_SUFFIX_SIZE :: nat where "BUB_SUFFIX_SIZE = 3"

definition bub_suffixes :: "byte list list" where
  "bub_suffixes = [cstr ''_a'', cstr ''_b'']"

text \<open>
  \<open>bub_assert\<close> is compiled away unless \<open>BUB_ENABLE_DEBUG\<close> is defined: the EFI build (\<open>Makefile\<close>)
  does not define it for this file, the host build (\<open>Android.mk\<close>) does. A failed assertion prints
  a message and aborts. \<open>pr\<close> is the \<open>bub_print\<close> the program is linked with.
\<close>

definition bub_assert :: "bool \<Rightarrow> (byte list \<Rightarrow> ('w, unit) io) \<Rightarrow> bool \<Rightarrow> ('w, unit) io" where
  "bub_assert debug pr expr =
     (if debug \<and> \<not> expr
      then bnd (pr (cstr (''ERROR: assert fail: '' @ nl))) (\<lambda>_. fail Aborted) else ret ())"

text \<open>A pointer that may be NULL; an access through it.\<close>

definition deref :: "'a option \<Rightarrow> ('w, 'a) io" where
  "deref p = (case p of None \<Rightarrow> fail Null_Deref | Some x \<Rightarrow> ret x)"

text \<open>\<open>bub_memset\<close> of a whole structure to zero.\<close>

definition zero_slot :: BubSlotData where
  "zero_slot = \<lparr>priority = 0, tries_remaining = 0, successful_boot = 0, reserved = replicate 7 0\<rparr>"

definition zero_ab_data :: BubAbData where
  "zero_ab_data = \<lparr>magic = replicate 4 0, major_version = 0, minor_version = 0,
     reserved1 = replicate 2 0, slots = [zero_slot, zero_slot], reserved2 = replicate 36 0,
     crc32 = 0\<rparr>"

definition normalize_slot :: "BubSlotData \<Rightarrow> int \<times> BubSlotData" where
  "normalize_slot slot =
     (if priority slot > 0 then
        (if tries_remaining slot = 0 \<and> successful_boot slot = 0 then (1, zero_slot)
         else if tries_remaining slot > 0 \<and> successful_boot slot \<noteq> 0
         then (1, slot\<lparr>successful_boot := 0\<rparr>)
         else (0, slot))
      else if tries_remaining slot \<noteq> 0 \<or> successful_boot slot \<noteq> 0 then (1, zero_slot)
      else (0, slot))"

definition slot_is_bootable :: "BubSlotData \<Rightarrow> bool" where
  "slot_is_bootable slot \<longleftrightarrow> successful_boot slot \<noteq> 0 \<or> tries_remaining slot > 0"

definition bub_write_ab_data_to_misc ::
    "(byte list \<Rightarrow> ('w, unit) io) \<Rightarrow> 'w BubOps \<Rightarrow> BubAbData \<Rightarrow> ('w, int) io" where
  "bub_write_ab_data_to_misc pr ops data =
     (let metadata = data\<lparr>crc32 := 0\<rparr> in
      bnd (pure (bub_crc32 0 (ab_bytes metadata) BUB_AB_DATA_SIZE)) (\<lambda>crc.
      let metadata = metadata\<lparr>crc32 := bub_be32toh crc\<rparr> in
      bnd (write_to_partition ops misc (ab_bytes metadata) 0 (of_nat BUB_AB_DATA_SIZE)) (\<lambda>io_result.
      if io_result \<noteq> BUB_IO_RESULT_OK
      then bnd (bub_warning pr (''Could not write to misc partition.'' @ nl)) (\<lambda>_. ret 0)
      else ret 1)))"

text \<open>The result comes with the contents of \<open>*data\<close> on return.\<close>

definition bub_read_ab_data_from_misc ::
    "(byte list \<Rightarrow> ('w, unit) io) \<Rightarrow> 'w BubOps \<Rightarrow> BubAbData \<Rightarrow>
     ('w, BubAbFlowResult \<times> BubAbData) io" where
  "bub_read_ab_data_from_misc pr ops data =
     bnd (read_from_partition ops misc (ab_bytes data) 0 (of_nat BUB_AB_DATA_SIZE))
       (\<lambda>(io_result, buf, num_bytes_read).
     let data = ab_of buf in
     if io_result \<noteq> BUB_IO_RESULT_OK \<or> num_bytes_read \<noteq> Some (of_nat BUB_AB_DATA_SIZE)
     then
       bnd (bub_warning pr (''Could not read metadata from misc partition.'' @ nl)) (\<lambda>_.
       ret (BUB_AB_FLOW_ERROR_READ_METADATA, data))
     else
       bnd (pure (bub_memcmp (magic data) BUB_BOOT_CTRL_MAGIC 4)) (\<lambda>differs.
       if differs \<noteq> 0
       then
         bnd (bub_warning pr (''AB metadata magic did not match.'' @ nl)) (\<lambda>_.
         ret (BUB_AB_FLOW_ERROR_INVALID_METADATA, data))
       else
         let crc = bub_be32toh (crc32 data);
             data = data\<lparr>crc32 := 0\<rparr> in
         bnd (pure (bub_crc32 0 (ab_bytes data) BUB_AB_DATA_SIZE)) (\<lambda>calculated.
         if crc \<noteq> calculated
         then
           bnd (bub_warning pr (''AB metadata crc is invalid.'' @ nl)) (\<lambda>_.
           ret (BUB_AB_FLOW_ERROR_INVALID_METADATA, data))
         else ret (BUB_AB_FLOW_RESULT_OK, data\<lparr>crc32 := crc\<rparr>))))"

definition reset_metadata :: "(byte list \<Rightarrow> ('w, unit) io) \<Rightarrow> 'w BubOps \<Rightarrow> ('w, int) io" where
  "reset_metadata pr ops =
     (let metadata = zero_ab_data\<lparr>magic := BUB_BOOT_CTRL_MAGIC,
        major_version := BUB_MAJOR_VERSION, minor_version := BUB_MINOR_VERSION\<rparr>;
          slot = zero_slot\<lparr>priority := 15, tries_remaining := 7, successful_boot := 0\<rparr> in
      bub_write_ab_data_to_misc pr ops (metadata\<lparr>slots := [slot, slot]\<rparr>))"

text \<open>
  The part of \<open>bub_ab_flow\<close> after a successful read, with the suffix buffer it fills. \<open>ab_ctl\<close> is
  the metadata read.
\<close>

definition ab_target :: "BubAbData \<Rightarrow> int" where
  "ab_target ab_ctl =
     (if slot_is_bootable (slots ab_ctl ! 0) \<and> slot_is_bootable (slots ab_ctl ! 1) then
        (if priority (slots ab_ctl ! 1) > priority (slots ab_ctl ! 0) then 1 else 0)
      else if slot_is_bootable (slots ab_ctl ! 0) then 0
      else if slot_is_bootable (slots ab_ctl ! 1) then 1
      else -1)"

text \<open>A warning under a condition. The two normalisations of slots touch memory only, so their order
  relative to the warnings is not observable.\<close>

definition warn_if :: "(byte list \<Rightarrow> ('w, unit) io) \<Rightarrow> bool \<Rightarrow> string \<Rightarrow> ('w, unit) io" where
  "warn_if pr c s = (if c then bub_warning pr s else ret ())"

definition ab_flow_select ::
    "(byte list \<Rightarrow> ('w, unit) io) \<Rightarrow> 'w BubOps \<Rightarrow> BubAbData \<Rightarrow> byte list \<Rightarrow>
     ('w, BubAbFlowResult \<times> byte list) io" where
  "ab_flow_select pr ops ab_ctl suffix =
     (let (normalized0, slot0) = normalize_slot (slots ab_ctl ! 0);
          (normalized1, slot1) = normalize_slot (slots ab_ctl ! 1);
          ab_ctl = ab_ctl\<lparr>slots := [slot0, slot1]\<rparr>;
          new_metadata = (normalized0 \<noteq> 0 \<or> normalized1 \<noteq> 0);
          target = ab_target ab_ctl in
      bnd (warn_if pr (normalized0 \<noteq> 0) (''State of slot A was normalized.'' @ nl)) (\<lambda>_.
      bnd (warn_if pr (normalized1 \<noteq> 0) (''State of slot B was normalized.'' @ nl)) (\<lambda>_.
      if target = -1 then
        bnd (if new_metadata then bub_write_ab_data_to_misc pr ops ab_ctl else ret 1) (\<lambda>written.
        if written = 0 then ret (BUB_AB_FLOW_ERROR_WRITE_METADATA, suffix)
        else
          bnd (bub_warning pr (''No valid slot found.'' @ nl)) (\<lambda>_.
          ret (BUB_AB_FLOW_ERROR_NO_VALID_SLOTS, suffix)))
      else
        let i = nat target;
            slot = slots ab_ctl ! i;
            decrement = (tries_remaining slot > 0);
            ab_ctl = (if decrement then
              ab_ctl\<lparr>slots := (slots ab_ctl)[i := slot\<lparr>tries_remaining := tries_remaining slot - 1\<rparr>]\<rparr>
              else ab_ctl) in
        bnd (if new_metadata \<or> decrement then bub_write_ab_data_to_misc pr ops ab_ctl else ret 1) (\<lambda>written.
        if written = 0 then ret (BUB_AB_FLOW_ERROR_WRITE_METADATA, suffix)
        else
          bnd (pure (bub_memcpy suffix 0 (bub_suffixes ! i) 3)) (\<lambda>suffix.
          ret (BUB_AB_FLOW_RESULT_OK, suffix))))))"

text \<open>
  \<open>ab_ctl0\<close> is the indeterminate initial contents of the local \<open>ab_ctl\<close>, \<open>out_selected_suffix\<close> the
  caller's buffer (\<open>None\<close> for NULL).
\<close>

definition bub_ab_flow ::
    "bool \<Rightarrow> (byte list \<Rightarrow> ('w, unit) io) \<Rightarrow> BubAbData \<Rightarrow> 'w BubOps \<Rightarrow> byte list option \<Rightarrow> u64 \<Rightarrow>
     ('w, BubAbFlowResult \<times> byte list) io" where
  "bub_ab_flow debug pr ab_ctl0 ops out_selected_suffix suffix_num_bytes =
     bnd (bub_assert debug pr (out_selected_suffix \<noteq> None)) (\<lambda>_.
     bnd (bub_assert debug pr (3 \<le> suffix_num_bytes)) (\<lambda>_.
     bnd (deref out_selected_suffix) (\<lambda>suffix.
     bnd (pure (bub_memset suffix 0 3)) (\<lambda>suffix.
     bnd (bub_read_ab_data_from_misc pr ops ab_ctl0) (\<lambda>(ab_err, ab_ctl).
     if ab_err \<noteq> BUB_AB_FLOW_RESULT_OK then
       bnd (if ab_err = BUB_AB_FLOW_ERROR_INVALID_METADATA then
              bnd (bub_warning pr (''Reseting metadata.'' @ nl)) (\<lambda>_.
              bnd (reset_metadata pr ops) (\<lambda>written.
              warn_if pr (written = 0) (''Unable to reset metadata.'' @ nl)))
            else ret ()) (\<lambda>_.
       ret (ab_err, suffix))
     else ab_flow_select pr ops ab_ctl suffix)))))"

text \<open>The search loop of \<open>bub_ab_mark_as_invalid\<close>, over the indices \<open>i\<close> still to visit.\<close>

fun mark_loop ::
    "(byte list \<Rightarrow> ('w, unit) io) \<Rightarrow> 'w BubOps \<Rightarrow> BubAbData \<Rightarrow> byte list \<Rightarrow> nat list \<Rightarrow> ('w, int) io" where
  "mark_loop pr ops ab_ctl invalid_suffix [] =
     bnd (bub_warning pr (''Could not find requested slot.'' @ nl)) (\<lambda>_. ret 0)"
| "mark_loop pr ops ab_ctl invalid_suffix (i # is) =
     bnd (pure (bub_memcmp (bub_suffixes ! i) invalid_suffix 3)) (\<lambda>differs.
     if differs = 0
     then bub_write_ab_data_to_misc pr ops (ab_ctl\<lparr>slots := (slots ab_ctl)[i := zero_slot]\<rparr>)
     else mark_loop pr ops ab_ctl invalid_suffix is)"

definition bub_ab_mark_as_invalid ::
    "bool \<Rightarrow> (byte list \<Rightarrow> ('w, unit) io) \<Rightarrow> BubAbData \<Rightarrow> 'w BubOps \<Rightarrow> byte list option \<Rightarrow> ('w, int) io" where
  "bub_ab_mark_as_invalid debug pr ab_ctl0 ops invalid_suffix =
     bnd (bub_assert debug pr (invalid_suffix \<noteq> None)) (\<lambda>_.
     bnd (if debug then
            bnd (deref invalid_suffix) (\<lambda>s.
            bnd (pure (bub_strlen s)) (\<lambda>len. bub_assert debug pr (2 \<le> len)))
          else ret ()) (\<lambda>_.
     bnd (bub_read_ab_data_from_misc pr ops ab_ctl0) (\<lambda>(ab_err, ab_ctl).
     if ab_err \<noteq> BUB_AB_FLOW_RESULT_OK then ret (ab_result_int ab_err)
     else
       bnd (deref invalid_suffix) (\<lambda>s.
       mark_loop pr ops ab_ctl s [0, 1]))))"

section \<open>Slots\<close>

text \<open>
  The proper states of a slot: unbootable (all zero), being tried (a priority, tries left, not yet
  confirmed) and confirmed (a priority, no tries, booted successfully).
\<close>

definition slot_valid :: "BubSlotData \<Rightarrow> bool" where
  "slot_valid s \<longleftrightarrow>
     (if priority s = 0 then tries_remaining s = 0 \<and> successful_boot s = 0
      else (tries_remaining s > 0) \<noteq> (successful_boot s \<noteq> 0))"

lemma zero_slot_fields [simp]:
  "priority zero_slot = 0" "tries_remaining zero_slot = 0" "successful_boot zero_slot = 0"
  by (simp_all add: zero_slot_def)

lemma slot_wf_zero [simp, layout_simps]: "slot_wf zero_slot"
  by (simp add: slot_wf_def zero_slot_def)

lemma slot_valid_zero [simp]: "slot_valid zero_slot"
  by (simp add: slot_valid_def zero_slot_def)

lemma normalize_slot_id: "slot_valid s \<Longrightarrow> normalize_slot s = (0, s)"
  by (auto simp: normalize_slot_def slot_valid_def word_neq_0_conv split: if_splits)

lemma normalize_slot_flag: "fst (normalize_slot s) = (if slot_valid s then 0 else 1)"
  by (auto simp: normalize_slot_def slot_valid_def word_neq_0_conv split: if_splits)

lemma normalize_slot_valid: "slot_valid (snd (normalize_slot s))"
  by (auto simp: normalize_slot_def slot_valid_def word_neq_0_conv split: if_splits)

lemma normalize_slot_wf: "slot_wf s \<Longrightarrow> slot_wf (snd (normalize_slot s))"
  by (auto simp: normalize_slot_def slot_wf_def zero_slot_def)

text \<open>\<open>normalize_slot\<close> always leaves a proper slot, reports a change exactly when the slot was
  not proper, changes no proper slot, is idempotent, and never raises a priority or adds tries.\<close>

lemma normalize_slot_correct:
  "slot_valid (snd (normalize_slot s)) \<and>
   fst (normalize_slot s) = (if slot_valid s then 0 else 1) \<and>
   (slot_valid s \<longrightarrow> snd (normalize_slot s) = s) \<and>
   normalize_slot (snd (normalize_slot s)) = (0, snd (normalize_slot s)) \<and>
   priority (snd (normalize_slot s)) \<le> priority s \<and>
   tries_remaining (snd (normalize_slot s)) \<le> tries_remaining s"
  using normalize_slot_id [of s] normalize_slot_id [OF normalize_slot_valid, of s]
  by (auto simp: normalize_slot_flag normalize_slot_valid)
     (auto simp: normalize_slot_def zero_slot_def)

lemma normalize_slot_correct_witness:
  "snd (normalize_slot (zero_slot\<lparr>priority := 9, successful_boot := 1\<rparr>)) =
   zero_slot\<lparr>priority := 9, successful_boot := 1\<rparr>"
  using normalize_slot_correct [of "zero_slot\<lparr>priority := 9, successful_boot := 1\<rparr>"]
  by (simp add: slot_valid_def zero_slot_def)

section \<open>Checked and sealed images\<close>

text \<open>
  \<open>ab_check\<close> is the verdict of \<open>bub_read_ab_data_from_misc\<close> on the 64 bytes it read; \<open>ab_seal\<close>
  puts the big-endian checksum of a structure into its last field, as the write does.
\<close>

definition ab_crc :: "BubAbData \<Rightarrow> u32" where
  "ab_crc d = crc_ref 0 (ab_bytes (d\<lparr>crc32 := 0\<rparr>))"

definition ab_check :: "byte list \<Rightarrow> BubAbFlowResult \<times> BubAbData" where
  "ab_check bs =
     (let d = ab_of bs in
      if magic d \<noteq> BUB_BOOT_CTRL_MAGIC then (BUB_AB_FLOW_ERROR_INVALID_METADATA, d)
      else if bub_be32toh (crc32 d) \<noteq> ab_crc d
      then (BUB_AB_FLOW_ERROR_INVALID_METADATA, d\<lparr>crc32 := 0\<rparr>)
      else (BUB_AB_FLOW_RESULT_OK, d\<lparr>crc32 := bub_be32toh (crc32 d)\<rparr>))"

definition ab_seal :: "BubAbData \<Rightarrow> BubAbData" where
  "ab_seal d = d\<lparr>crc32 := bub_be32toh (ab_crc d)\<rparr>"

definition ab_valid :: "byte list \<Rightarrow> bool" where
  "ab_valid bs \<longleftrightarrow> length bs = 64 \<and> fst (ab_check bs) = BUB_AB_FLOW_RESULT_OK"

lemma ab_crc_upd [simp]: "ab_crc (d\<lparr>crc32 := x\<rparr>) = ab_crc d"
  by (simp add: ab_crc_def)

lemma ab_wf_crc32 [simp, layout_simps]: "ab_wf (d\<lparr>crc32 := x\<rparr>) \<longleftrightarrow> ab_wf d"
  by (simp add: ab_wf_def)

lemma ab_wf_ab_seal [simp, layout_simps]: "ab_wf (ab_seal d) \<longleftrightarrow> ab_wf d"
  by (simp add: ab_seal_def)

lemma ab_wf_slots [layout_simps]:
  "ab_wf d \<Longrightarrow> slot_wf a \<Longrightarrow> slot_wf b \<Longrightarrow> ab_wf (d\<lparr>slots := [a, b]\<rparr>)"
  by (simp add: ab_wf_def)

lemma ab_check_ab_seal:
  "ab_wf d \<Longrightarrow> magic d = BUB_BOOT_CTRL_MAGIC \<Longrightarrow>
   ab_check (ab_bytes (ab_seal d)) = (BUB_AB_FLOW_RESULT_OK, d\<lparr>crc32 := ab_crc d\<rparr>)"
  by (simp add: ab_check_def Let_def) (simp add: ab_seal_def)

lemma ab_valid_ab_seal:
  "ab_wf d \<Longrightarrow> magic d = BUB_BOOT_CTRL_MAGIC \<Longrightarrow> ab_valid (ab_bytes (ab_seal d))"
  by (simp add: ab_valid_def ab_check_ab_seal length_ab_bytes)

lemma ab_seal_crc32 [simp]: "ab_seal (d\<lparr>crc32 := x\<rparr>) = ab_seal d"
  by (simp add: ab_seal_def)

lemma ab_seal_crc32_slots [simp]: "ab_seal (d\<lparr>crc32 := x, slots := s\<rparr>) = ab_seal (d\<lparr>slots := s\<rparr>)"
  by (cases d) (simp add: ab_seal_def ab_crc_def)

text \<open>A valid image is the sealed image of the structure it holds.\<close>

lemma ab_valid_sealed:
  assumes "ab_valid bs"
  shows "magic (ab_of bs) = BUB_BOOT_CTRL_MAGIC" "ab_bytes (ab_seal (ab_of bs)) = bs"
proof -
  have l: "length bs = 64" and c: "bub_be32toh (crc32 (ab_of bs)) = ab_crc (ab_of bs)"
    and m: "magic (ab_of bs) = BUB_BOOT_CTRL_MAGIC"
    using assms by (auto simp: ab_valid_def ab_check_def Let_def split: if_splits)
  have "ab_seal (ab_of bs) = ab_of bs"
    unfolding ab_seal_def c [symmetric] by simp
  with l m show "magic (ab_of bs) = BUB_BOOT_CTRL_MAGIC" "ab_bytes (ab_seal (ab_of bs)) = bs" by simp_all
qed

lemma ab_check_OK:
  assumes "ab_check bs = (BUB_AB_FLOW_RESULT_OK, d)"
  shows "d = (ab_of bs)\<lparr>crc32 := bub_be32toh (crc32 (ab_of bs))\<rparr>" "magic d = BUB_BOOT_CTRL_MAGIC"
    "slots d = slots (ab_of bs)" "length bs = 64 \<Longrightarrow> ab_wf d"
  using assms by (auto simp: ab_check_def Let_def ab_wf_ab_of split: if_splits)

lemma ab_valid_image:
  assumes "ab_valid bs"
  obtains d a b where "ab_wf d" "magic d = BUB_BOOT_CTRL_MAGIC" "slots d = [a, b]" "slot_wf a" "slot_wf b"
    "bs = ab_bytes (ab_seal d)"
proof -
  have wf: "ab_wf (ab_of bs)" using assms by (simp add: ab_valid_def ab_wf_ab_of)
  then obtain a b where "slots (ab_of bs) = [a, b]" "slot_wf a" "slot_wf b" by (auto simp: ab_wf_def two_slots)
  with wf ab_valid_sealed [OF assms] show ?thesis by (metis that)
qed

section \<open>The routines over a working misc partition\<close>

text \<open>The metadata stored in a world.\<close>

definition misc_image :: "('w \<Rightarrow> byte list \<Rightarrow> byte list option) \<Rightarrow> 'w \<Rightarrow> byte list" where
  "misc_image part w = (case part w misc of None \<Rightarrow> [] | Some c \<Rightarrow> take 64 c)"

locale ab_store = partition_io ops part inv
  for ops :: "'w BubOps" and part :: "'w \<Rightarrow> byte list \<Rightarrow> byte list option" and inv :: "'w \<Rightarrow> bool" +
  fixes pr :: "byte list \<Rightarrow> ('w, unit) io"
  assumes misc_present: "inv w \<Longrightarrow> \<exists>c. part w misc = Some c \<and> 64 \<le> length c"
    and print_msg: "inv w \<Longrightarrow> console_msg m \<Longrightarrow>
      \<exists>w'. pr m w = (Inr (), w') \<and> inv w' \<and> part w' = part w"
begin

lemma warn_run:
  assumes "inv w" "ascii_text s"
  shows "\<exists>w'. bub_warning pr s w = (Inr (), w') \<and> inv w' \<and> misc_image part w' = misc_image part w"
  using print_msg [OF assms(1) console_msg_warning [OF assms(2)]]
  by (auto simp: bub_warning_def misc_image_def)

lemma warn_if_run:
  assumes "inv w" "ascii_text s"
  shows "\<exists>w'. warn_if pr c s w = (Inr (), w') \<and> inv w' \<and> misc_image part w' = misc_image part w"
  using warn_run [OF assms] assms(1) by (cases c) (simp_all add: warn_if_def)

lemma misc_image_length: "inv w \<Longrightarrow> length (misc_image part w) = 64"
  using misc_present [of w] by (auto simp: misc_image_def)

lemma read_run:
  assumes "inv w" "ab_wf data"
  shows "\<exists>w'. bub_read_ab_data_from_misc pr ops data w = (Inr (ab_check (misc_image part w)), w') \<and>
    inv w' \<and> misc_image part w' = misc_image part w"
proof -
  obtain c where c: "part w misc = Some c" "64 \<le> length c"
    using misc_present [OF assms(1)] by blast
  have img: "misc_image part w = chunk 0 64 c" "length (chunk 0 64 c) = 64"
    using c by (simp_all add: misc_image_def)
  obtain w' where w': "read_from_partition ops misc (ab_bytes data) 0 64 w =
      (Inr (BUB_IO_RESULT_OK, chunk 0 64 c, Some 64), w')" "inv w'" "part w' = part w"
    using read_inside [OF assms(1) c(1), of 0 64 "ab_bytes data"] c(2) assms(2)
    by (auto simp: length_ab_bytes)
  let ?d = "ab_of (chunk 0 64 c)"
  have wf: "ab_wf ?d" using img by (simp add: ab_wf_ab_of)
  have cmp: "bub_memcmp (magic ?d) BUB_BOOT_CTRL_MAGIC 4 =
      Inr (diff_bytes (magic ?d) BUB_BOOT_CTRL_MAGIC)"
    and neq: "diff_bytes (magic ?d) BUB_BOOT_CTRL_MAGIC = 0 \<longleftrightarrow> magic ?d = BUB_BOOT_CTRL_MAGIC"
    using wf by (simp_all add: ab_wf_def diff_bytes_eq_0_iff)
  have crc: "bub_crc32 0 (ab_bytes (?d\<lparr>crc32 := 0\<rparr>)) 64 = Inr (ab_crc ?d)"
    using wf by (simp add: ab_crc_def length_ab_bytes)
  have keep: "misc_image part w' = misc_image part w" using w'(3) by (simp add: misc_image_def)
  obtain w1 where w1: "bub_warning pr (''AB metadata magic did not match.'' @ nl) w' = (Inr (), w1)"
    "inv w1" "misc_image part w1 = misc_image part w'"
    using warn_run [OF w'(2), of "''AB metadata magic did not match.'' @ nl"] by (auto simp: ascii_text_def)
  obtain w2 where w2: "bub_warning pr (''AB metadata crc is invalid.'' @ nl) w' = (Inr (), w2)"
    "inv w2" "misc_image part w2 = misc_image part w'"
    using warn_run [OF w'(2), of "''AB metadata crc is invalid.'' @ nl"] by (auto simp: ascii_text_def)
  have run: "bub_read_ab_data_from_misc pr ops data w =
      (if magic ?d \<noteq> BUB_BOOT_CTRL_MAGIC then (Inr (ab_check (chunk 0 64 c)), w1)
       else if bub_be32toh (crc32 ?d) \<noteq> ab_crc ?d then (Inr (ab_check (chunk 0 64 c)), w2)
       else (Inr (ab_check (chunk 0 64 c)), w'))"
    using w' w1(1) w2(1) cmp neq crc
    by (simp add: bub_read_ab_data_from_misc_def BUB_AB_DATA_SIZE_def ab_check_def Let_def)
  show ?thesis
    unfolding run img(1) [symmetric] using w'(2) w1(2,3) w2(2,3) keep by auto
qed

lemma write_run:
  assumes "inv w" "ab_wf d"
  shows "\<exists>w'. bub_write_ab_data_to_misc pr ops d w = (Inr 1, w') \<and> inv w' \<and>
    misc_image part w' = ab_bytes (ab_seal d)"
proof -
  obtain c where c: "part w misc = Some c" "64 \<le> length c"
    using misc_present [OF assms(1)] by blast
  have len: "length (ab_bytes (ab_seal d)) = 64"
    using assms(2) by (simp add: length_ab_bytes)
  then obtain w' where w': "write_to_partition ops misc (ab_bytes (ab_seal d)) 0 64 w =
      (Inr BUB_IO_RESULT_OK, w')" "inv w'" "part w' misc = Some (blit 0 (ab_bytes (ab_seal d)) c)"
    using write_inside [OF assms(1) c(1), of 0 "ab_bytes (ab_seal d)"] c(2) by auto
  have crc: "bub_crc32 0 (ab_bytes (d\<lparr>crc32 := 0\<rparr>)) 64 = Inr (ab_crc d)"
    using assms(2) by (simp add: ab_crc_def length_ab_bytes)
  have "bub_write_ab_data_to_misc pr ops d w = (Inr 1, w')"
    using w' crc by (simp add: bub_write_ab_data_to_misc_def BUB_AB_DATA_SIZE_def Let_def ab_seal_def)
  with w' len show ?thesis by (auto simp: misc_image_def)
qed

end

section \<open>What the metadata means\<close>

text \<open>The abstraction to the states of \<open>Bub_AbPolicy\<close>.\<close>

definition abs_slot :: "BubSlotData \<Rightarrow> slot_state" where
  "abs_slot s =
     (if priority s = 0 then Unbootable
      else if tries_remaining s > 0 then Trying (unat (priority s)) (unat (tries_remaining s))
      else if successful_boot s \<noteq> 0 then Confirmed (unat (priority s))
      else Unbootable)"

definition abs_meta :: "byte list \<Rightarrow> meta" where
  "abs_meta bs = (abs_slot (slots (ab_of bs) ! 0), abs_slot (slots (ab_of bs) ! 1))"

text \<open>The result code and suffix buffer that report a choice.\<close>

definition flow_report :: "slot_name option \<Rightarrow> byte list \<Rightarrow> BubAbFlowResult \<times> byte list" where
  "flow_report c suffix =
     (case c of
        None \<Rightarrow> (BUB_AB_FLOW_ERROR_NO_VALID_SLOTS, replicate 3 0 @ drop 3 suffix)
      | Some Slot_A \<Rightarrow> (BUB_AB_FLOW_RESULT_OK, cstr ''_a'' @ drop 3 suffix)
      | Some Slot_B \<Rightarrow> (BUB_AB_FLOW_RESULT_OK, cstr ''_b'' @ drop 3 suffix))"

lemma abs_slot_zero [simp]: "abs_slot zero_slot = Unbootable"
  by (simp add: abs_slot_def)

lemma abs_slot_normalize [simp]: "abs_slot (snd (normalize_slot s)) = abs_slot s"
  by (auto simp: normalize_slot_def abs_slot_def word_neq_0_conv)

lemma bootable_abs_slot: "slot_valid s \<Longrightarrow> bootable (abs_slot s) \<longleftrightarrow> slot_is_bootable s"
  by (auto simp: slot_valid_def abs_slot_def slot_is_bootable_def word_neq_0_conv split: if_splits)

lemma prio_abs_slot:
  "slot_valid s \<Longrightarrow> slot_is_bootable s \<Longrightarrow> prio (abs_slot s) = unat (priority s)"
  by (auto simp: slot_valid_def abs_slot_def slot_is_bootable_def word_neq_0_conv split: if_splits)

lemma abs_slot_decrement:
  assumes "slot_valid s"
  shows "abs_slot (if tries_remaining s > 0 then s\<lparr>tries_remaining := tries_remaining s - 1\<rparr> else s) =
    attempt (abs_slot s)"
proof (cases "tries_remaining s > 0")
  case True
  then have p: "priority s \<noteq> 0" and sb: "successful_boot s = 0"
    using assms by (auto simp: slot_valid_def split: if_splits)
  have "unat (tries_remaining s - 1) = unat (tries_remaining s) - 1"
    using True by (simp add: unat_minus_one word_neq_0_conv)
  moreover have "0 < tries_remaining s - 1 \<longleftrightarrow> \<not> unat (tries_remaining s) \<le> 1"
    using calculation True by (simp add: word_less_nat_alt not_le)
  ultimately show ?thesis
    using True p sb by (simp add: abs_slot_def)
next
  case False
  then show ?thesis by (auto simp: abs_slot_def)
qed

lemma ab_target_policy:
  assumes "slot_valid a" "slot_valid b" "slots d = [a, b]"
  shows "ab_target d = (case policy_choice (abs_slot a, abs_slot b) of
    None \<Rightarrow> -1 | Some Slot_A \<Rightarrow> 0 | Some Slot_B \<Rightarrow> 1)"
  using assms
  by (auto simp: ab_target_def policy_choice_def bootable_abs_slot prio_abs_slot word_less_nat_alt)

section \<open>The flow implements the policy\<close>

lemma attempt_wf:
  "slot_wf s \<Longrightarrow> slot_wf (if c then s\<lparr>tries_remaining := t\<rparr> else s)"
  by (simp add: slot_wf_def)

lemma suffix_copy [simp]:
  assumes "3 \<le> length s"
  shows "bub_memcpy (replicate 3 0 @ drop 3 s) 0 (bub_suffixes ! 0) 3 = Inr (cstr ''_a'' @ drop 3 s)"
    "bub_memcpy (replicate 3 0 @ drop 3 s) 0 (bub_suffixes ! Suc 0) 3 = Inr (cstr ''_b'' @ drop 3 s)"
  using assms by (simp_all add: bub_suffixes_def)

text \<open>
  The reference definition of one boot, on the slots alone: normalise both, take the bootable slot
  with the higher priority (slot A on a tie) and charge it one try if it is not confirmed yet.
\<close>

definition use_slot :: "BubSlotData \<Rightarrow> BubSlotData" where
  "use_slot s = (if tries_remaining s > 0 then s\<lparr>tries_remaining := tries_remaining s - 1\<rparr> else s)"

definition flow_slots :: "BubSlotData \<Rightarrow> BubSlotData \<Rightarrow> slot_name option \<times> BubSlotData list" where
  "flow_slots a b =
     (let a = snd (normalize_slot a); b = snd (normalize_slot b) in
      if slot_is_bootable a \<and> (slot_is_bootable b \<longrightarrow> priority b \<le> priority a)
      then (Some Slot_A, [use_slot a, b])
      else if slot_is_bootable b then (Some Slot_B, [a, use_slot b])
      else (None, [a, b]))"

text \<open>The slots after slot \<open>s\<close> has been marked invalid.\<close>

definition mark_slots :: "byte list \<Rightarrow> BubSlotData \<Rightarrow> BubSlotData \<Rightarrow> BubSlotData list" where
  "mark_slots s a b =
     (if take 3 s = cstr ''_a'' then [zero_slot, b]
      else if take 3 s = cstr ''_b'' then [a, zero_slot] else [a, b])"

lemma mark_slots_pair:
  "slot_wf a \<Longrightarrow> slot_wf b \<Longrightarrow> \<exists>x y. mark_slots s a b = [x, y] \<and> slot_wf x \<and> slot_wf y"
  by (simp add: mark_slots_def)

lemma use_slot_wf: "slot_wf s \<Longrightarrow> slot_wf (use_slot s)"
  by (simp add: use_slot_def slot_wf_def)

lemma flow_slots_wf:
  "slot_wf a \<Longrightarrow> slot_wf b \<Longrightarrow> snd (flow_slots a b) = [x, y] \<Longrightarrow> slot_wf x \<and> slot_wf y"
  by (auto simp: flow_slots_def Let_def use_slot_wf normalize_slot_wf split: if_splits)

lemma flow_slots_pair: "\<exists>x y. snd (flow_slots a b) = [x, y]"
  by (simp add: flow_slots_def Let_def)

lemma policy_step_flow_slots:
  assumes "flow_slots a b = (c, [x, y])"
  shows "policy_step (abs_slot a, abs_slot b) = (c, (abs_slot x, abs_slot y))"
proof -
  have v: "slot_valid (snd (normalize_slot a))" "slot_valid (snd (normalize_slot b))"
    by (rule normalize_slot_valid)+
  note abs = bootable_abs_slot [OF v(1), simplified] bootable_abs_slot [OF v(2), simplified]
    prio_abs_slot [OF v(1), simplified] prio_abs_slot [OF v(2), simplified]
    abs_slot_decrement [OF v(1), folded use_slot_def, simplified]
    abs_slot_decrement [OF v(2), folded use_slot_def, simplified]
  show ?thesis
    using assms
    by (auto simp: flow_slots_def policy_step_def policy_choice_def Let_def abs word_le_nat_alt not_le
        split: if_splits)
qed

text \<open>A sequence of boots and invalidations, run by the code one after the other.\<close>

definition name_suffix :: "slot_name \<Rightarrow> byte list" where
  "name_suffix n = (case n of Slot_A \<Rightarrow> cstr ''_a'' | Slot_B \<Rightarrow> cstr ''_b'')"

datatype op_result = Flowed "fault + (BubAbFlowResult \<times> byte list)" | Marked "fault + int"

fun run_ab_op ::
    "bool \<Rightarrow> (byte list \<Rightarrow> ('w, unit) io) \<Rightarrow> BubAbData \<Rightarrow> 'w BubOps \<Rightarrow> byte list \<Rightarrow> u64 \<Rightarrow> ab_op \<Rightarrow> 'w \<Rightarrow> op_result \<times> 'w" where
  "run_ab_op debug pr ab_ctl0 ops suffix n Flow w =
     (let (r, w') = bub_ab_flow debug pr ab_ctl0 ops (Some suffix) n w in (Flowed r, w'))"
| "run_ab_op debug pr ab_ctl0 ops suffix n (Mark x) w =
     (let (r, w') = bub_ab_mark_as_invalid debug pr ab_ctl0 ops (Some (name_suffix x)) w in (Marked r, w'))"

fun run_ab_ops ::
    "bool \<Rightarrow> (byte list \<Rightarrow> ('w, unit) io) \<Rightarrow> BubAbData \<Rightarrow> 'w BubOps \<Rightarrow> byte list \<Rightarrow> u64 \<Rightarrow> ab_op list \<Rightarrow> 'w \<Rightarrow> op_result list \<times> 'w" where
  "run_ab_ops debug pr ab_ctl0 ops suffix n [] w = ([], w)"
| "run_ab_ops debug pr ab_ctl0 ops suffix n (x # xs) w =
     (let (r, w1) = run_ab_op debug pr ab_ctl0 ops suffix n x w;
          (rs, w2) = run_ab_ops debug pr ab_ctl0 ops suffix n xs w1 in (r # rs, w2))"

text \<open>The result the code gives for an operation whose abstract result is \<open>c\<close>.\<close>

definition op_report :: "byte list \<Rightarrow> ab_op \<Rightarrow> slot_name option \<Rightarrow> op_result" where
  "op_report suffix x c =
     (case x of Flow \<Rightarrow> Flowed (Inr (flow_report c suffix)) | Mark _ \<Rightarrow> Marked (Inr 1))"

text \<open>The metadata \<open>reset_metadata\<close> installs.\<close>

definition reset_ab_data :: BubAbData where
  "reset_ab_data =
     (let slot = zero_slot\<lparr>priority := 15, tries_remaining := 7\<rparr> in
      \<lparr>magic = BUB_BOOT_CTRL_MAGIC, major_version = 1, minor_version = 0,
       reserved1 = [0, 0], slots = [slot, slot], reserved2 = replicate 36 0, crc32 = 0\<rparr>)"

lemma ab_wf_reset [simp, layout_simps]: "ab_wf reset_ab_data"
  by (simp add: reset_ab_data_def Let_def) (simp add: ab_wf_def slot_wf_def zero_slot_def)

lemma magic_reset [simp]: "magic reset_ab_data = BUB_BOOT_CTRL_MAGIC"
  by (simp add: reset_ab_data_def Let_def)

lemma reset_metadata_eq: "reset_metadata pr ops = bub_write_ab_data_to_misc pr ops reset_ab_data"
  by (simp add: reset_metadata_def reset_ab_data_def zero_ab_data_def BUB_MAJOR_VERSION_def
      BUB_MINOR_VERSION_def zero_slot_def Let_def numeral_2_eq_2)

lemma abs_meta_ab_seal:
  "ab_wf d \<Longrightarrow> slots d = [a, b] \<Longrightarrow> abs_meta (ab_bytes (ab_seal d)) = (abs_slot a, abs_slot b)"
  by (simp add: abs_meta_def) (simp add: ab_seal_def)

lemma slots_reset [simp]:
  "slots reset_ab_data = [zero_slot\<lparr>priority := 15, tries_remaining := 7\<rparr>,
     zero_slot\<lparr>priority := 15, tries_remaining := 7\<rparr>]"
  by (simp add: reset_ab_data_def Let_def)

lemma abs_meta_reset: "abs_meta (ab_bytes (ab_seal reset_ab_data)) = (Trying 15 7, Trying 15 7)"
  by (simp only: abs_meta_ab_seal [OF ab_wf_reset slots_reset]) (simp add: abs_slot_def)

lemma ab_check_invalid:
  "fst (ab_check bs) \<noteq> BUB_AB_FLOW_RESULT_OK \<longleftrightarrow> fst (ab_check bs) = BUB_AB_FLOW_ERROR_INVALID_METADATA"
  by (simp add: ab_check_def Let_def)

lemma mark_loop_run:
  assumes "3 \<le> length s"
  shows "mark_loop pr ops d s [0, 1] =
    (if take 3 s = cstr ''_a'' then bub_write_ab_data_to_misc pr ops (d\<lparr>slots := (slots d)[0 := zero_slot]\<rparr>)
     else if take 3 s = cstr ''_b'' then bub_write_ab_data_to_misc pr ops (d\<lparr>slots := (slots d)[1 := zero_slot]\<rparr>)
     else bnd (bub_warning pr (''Could not find requested slot.'' @ nl)) (\<lambda>_. ret 0))"
proof -
  have "bub_memcmp (bub_suffixes ! 0) s 3 = Inr (diff_bytes (cstr ''_a'') (take 3 s))"
    "bub_memcmp (bub_suffixes ! 1) s 3 = Inr (diff_bytes (cstr ''_b'') (take 3 s))"
    using assms by (simp_all add: bub_suffixes_def)
  moreover have "diff_bytes (cstr x) (take 3 s) = 0 \<longleftrightarrow> take 3 s = cstr x" if "length x = 2" for x
    using assms that by (auto simp: diff_bytes_eq_0_iff)
  ultimately show ?thesis
    by (auto simp: fun_eq_iff)
qed

context ab_store
begin

text \<open>Writing the metadata back if it changed leaves its sealed image on the partition.\<close>

lemma persist_run:
  assumes "inv w" "ab_wf d" "\<not> c \<Longrightarrow> misc_image part w = ab_bytes (ab_seal d)"
  shows "\<exists>w'. (if c then bub_write_ab_data_to_misc pr ops d else ret 1) w = (Inr 1, w') \<and> inv w' \<and>
    misc_image part w' = ab_bytes (ab_seal d)"
  using write_run [OF assms(1,2)] assms(1,3) by (cases c) auto

lemma select_exact:
  assumes "inv w0" "ab_wf d" "slots d = [a, b]" "3 \<le> length suffix"
    and img: "misc_image part w0 = ab_bytes (ab_seal d)"
  shows "\<exists>w'. ab_flow_select pr ops d (replicate 3 0 @ drop 3 suffix) w0 =
      (Inr (flow_report (fst (flow_slots a b)) suffix), w') \<and> inv w' \<and>
    misc_image part w' = ab_bytes (ab_seal (d\<lparr>slots := snd (flow_slots a b)\<rparr>))"
proof -
  define a' b' where "a' = snd (normalize_slot a)" and "b' = snd (normalize_slot b)"
  define na nb where "na = fst (normalize_slot a)" and "nb = fst (normalize_slot b)"
  have norm: "normalize_slot a = (na, a')" "normalize_slot b = (nb, b')"
    by (simp_all add: a'_def b'_def na_def nb_def)
  have wf: "slot_wf a'" "slot_wf b'"
    using assms(2,3) by (simp_all add: a'_def b'_def normalize_slot_wf ab_wf_def)
  define c where "c \<longleftrightarrow> (na = 0 \<longrightarrow> nb \<noteq> 0)"
  have same: "d\<lparr>slots := [a', b']\<rparr> = d" if "\<not> c"
    using that assms(3) by (cases d) (auto simp: c_def na_def nb_def a'_def b'_def normalize_slot_flag
        normalize_slot_id split: if_splits)
  obtain wa where wa: "warn_if pr (na \<noteq> 0) (''State of slot A was normalized.'' @ nl) w0 = (Inr (), wa)"
    "inv wa" "misc_image part wa = misc_image part w0"
    using warn_if_run [OF assms(1), of "''State of slot A was normalized.'' @ nl" "na \<noteq> 0"]
    by (auto simp: ascii_text_def)
  obtain w where w: "warn_if pr (nb \<noteq> 0) (''State of slot B was normalized.'' @ nl) wa = (Inr (), w)"
    "inv w" "misc_image part w = misc_image part w0"
    using warn_if_run [OF wa(2), of "''State of slot B was normalized.'' @ nl" "nb \<noteq> 0"] wa(3)
    by (auto simp: ascii_text_def)
  have run: "\<exists>w'. (if c \<or> e then bub_write_ab_data_to_misc pr ops (d\<lparr>slots := [x, y]\<rparr>) else ret 1) w =
      (Inr 1, w') \<and> inv w' \<and> misc_image part w' = ab_bytes (ab_seal (d\<lparr>slots := [x, y]\<rparr>))"
    if "slot_wf x" "slot_wf y" "\<not> e \<Longrightarrow> x = a' \<and> y = b'" for e x y
    by (rule persist_run) (use assms(2,3) w(2,3) img that same in \<open>auto simp: ab_wf_slots\<close>)
  note start = wa(1) w(1) norm assms(3)
  consider (A) "slot_is_bootable a'" "slot_is_bootable b' \<longrightarrow> priority b' \<le> priority a'"
    | (B) "slot_is_bootable b'" "slot_is_bootable a' \<longrightarrow> priority a' < priority b'"
    | (none) "\<not> slot_is_bootable a'" "\<not> slot_is_bootable b'"
    by (meson not_le)
  then show ?thesis
  proof cases
    case A
    then have t: "ab_target (d\<lparr>slots := [a', b']\<rparr>) = 0" by (auto simp: ab_target_def)
    show ?thesis
      using run [of "use_slot a'" b' "tries_remaining a' > 0"] start t A wf assms(4)
      by (auto simp: ab_flow_select_def flow_slots_def flow_report_def Let_def use_slot_def slot_wf_def
          simp flip: c_def split: if_splits)
  next
    case B
    then have t: "ab_target (d\<lparr>slots := [a', b']\<rparr>) = 1" by (auto simp: ab_target_def)
    show ?thesis
      using run [of a' "use_slot b'" "tries_remaining b' > 0"] start t B wf assms(4)
      by (auto simp: ab_flow_select_def flow_slots_def flow_report_def Let_def use_slot_def slot_wf_def
          simp flip: c_def split: if_splits)
  next
    case none
    then have t: "ab_target (d\<lparr>slots := [a', b']\<rparr>) = -1" by (auto simp: ab_target_def)
    obtain w2 where w2: "(if c then bub_write_ab_data_to_misc pr ops (d\<lparr>slots := [a', b']\<rparr>) else ret 1) w =
        (Inr 1, w2)" "inv w2" "misc_image part w2 = ab_bytes (ab_seal (d\<lparr>slots := [a', b']\<rparr>))"
      using run [of a' b' False] wf by auto
    obtain w3 where w3: "bub_warning pr (''No valid slot found.'' @ nl) w2 = (Inr (), w3)" "inv w3"
        "misc_image part w3 = misc_image part w2"
      using warn_run [OF w2(2), of "''No valid slot found.'' @ nl"] by (auto simp: ascii_text_def)
    show ?thesis
      using start none t w2 w3
      by (simp add: ab_flow_select_def flow_slots_def flow_report_def Let_def flip: c_def)
  qed
qed

lemma flow_read:
  assumes "inv w" "ab_wf ab0" "3 \<le> length suffix" "3 \<le> n"
  obtains w1 where "inv w1" "misc_image part w1 = misc_image part w"
    "bub_ab_flow debug pr ab0 ops (Some suffix) n w =
       (let (ab_err, d) = ab_check (misc_image part w) in
        if ab_err \<noteq> BUB_AB_FLOW_RESULT_OK then
          bnd (if ab_err = BUB_AB_FLOW_ERROR_INVALID_METADATA then
                 bnd (bub_warning pr (''Reseting metadata.'' @ nl)) (\<lambda>_.
                 bnd (reset_metadata pr ops) (\<lambda>written.
                 warn_if pr (written = 0) (''Unable to reset metadata.'' @ nl)))
               else ret ())
            (\<lambda>_. ret (ab_err, replicate 3 0 @ drop 3 suffix)) w1
        else ab_flow_select pr ops d (replicate 3 0 @ drop 3 suffix) w1)"
proof -
  obtain w1 where w1: "bub_read_ab_data_from_misc pr ops ab0 w = (Inr (ab_check (misc_image part w)), w1)"
    "inv w1" "misc_image part w1 = misc_image part w"
    using read_run [OF assms(1,2)] by blast
  show ?thesis
  proof (rule that [OF w1(2,3)])
    show "bub_ab_flow debug pr ab0 ops (Some suffix) n w =
       (let (ab_err, d) = ab_check (misc_image part w) in
        if ab_err \<noteq> BUB_AB_FLOW_RESULT_OK then
          bnd (if ab_err = BUB_AB_FLOW_ERROR_INVALID_METADATA then
                 bnd (bub_warning pr (''Reseting metadata.'' @ nl)) (\<lambda>_.
                 bnd (reset_metadata pr ops) (\<lambda>written.
                 warn_if pr (written = 0) (''Unable to reset metadata.'' @ nl)))
               else ret ())
            (\<lambda>_. ret (ab_err, replicate 3 0 @ drop 3 suffix)) w1
        else ab_flow_select pr ops d (replicate 3 0 @ drop 3 suffix) w1)"
      using assms(3,4) w1(1)
      by (cases "ab_check (misc_image part w)") (simp add: bub_ab_flow_def bub_assert_def deref_def)
  qed
qed

lemma flow_exact:
  assumes "inv w" "ab_wf ab0" "3 \<le> length suffix" "3 \<le> n"
    and "ab_wf d" "magic d = BUB_BOOT_CTRL_MAGIC" "slots d = [a, b]"
    and "misc_image part w = ab_bytes (ab_seal d)"
  shows "\<exists>w'. bub_ab_flow debug pr ab0 ops (Some suffix) n w =
      (Inr (flow_report (fst (flow_slots a b)) suffix), w') \<and> inv w' \<and>
    misc_image part w' = ab_bytes (ab_seal (d\<lparr>slots := snd (flow_slots a b)\<rparr>))"
proof (rule flow_read [OF assms(1-4)])
  fix w1
  assume w1: "inv w1" "misc_image part w1 = misc_image part w"
    and run: "bub_ab_flow debug pr ab0 ops (Some suffix) n w =
       (let (ab_err, d) = ab_check (misc_image part w) in
        if ab_err \<noteq> BUB_AB_FLOW_RESULT_OK then
          bnd (if ab_err = BUB_AB_FLOW_ERROR_INVALID_METADATA then
                 bnd (bub_warning pr (''Reseting metadata.'' @ nl)) (\<lambda>_.
                 bnd (reset_metadata pr ops) (\<lambda>written.
                 warn_if pr (written = 0) (''Unable to reset metadata.'' @ nl)))
               else ret ())
            (\<lambda>_. ret (ab_err, replicate 3 0 @ drop 3 suffix)) w1
        else ab_flow_select pr ops d (replicate 3 0 @ drop 3 suffix) w1)"
  let ?d = "d\<lparr>crc32 := ab_crc d\<rparr>"
  from select_exact [OF w1(1), of ?d a b suffix] show ?thesis
    using run w1(2) assms by (simp add: ab_check_ab_seal)
qed

text \<open>On valid metadata the flow is one step of the policy, and leaves valid metadata.\<close>

lemma flow_run_valid:
  assumes "inv w" "ab_wf ab0" "3 \<le> length suffix" "3 \<le> n" "ab_valid (misc_image part w)"
  defines "s \<equiv> abs_meta (misc_image part w)"
  shows "\<exists>w'. bub_ab_flow debug pr ab0 ops (Some suffix) n w =
      (Inr (flow_report (fst (policy_step s)) suffix), w') \<and> inv w' \<and>
    ab_valid (misc_image part w') \<and> abs_meta (misc_image part w') = snd (policy_step s) \<and>
    (ab_of (misc_image part w'))\<lparr>crc32 := 0, slots := []\<rparr> =
      (ab_of (misc_image part w))\<lparr>crc32 := 0, slots := []\<rparr>"
proof -
  obtain d a b where wf: "ab_wf d" and m: "magic d = BUB_BOOT_CTRL_MAGIC"
    and ab: "slots d = [a, b]" "slot_wf a" "slot_wf b"
    and img: "misc_image part w = ab_bytes (ab_seal d)"
    using ab_valid_image [OF assms(5)] by metis
  obtain c x y where f: "flow_slots a b = (c, [x, y])" by (metis flow_slots_pair prod.collapse)
  have xy: "slot_wf x" "slot_wf y" using flow_slots_wf [OF ab(2,3), of x y] f by auto
  obtain w' where w': "bub_ab_flow debug pr ab0 ops (Some suffix) n w = (Inr (flow_report c suffix), w')"
      "inv w'" "misc_image part w' = ab_bytes (ab_seal (d\<lparr>slots := [x, y]\<rparr>))"
    using flow_exact [OF assms(1-4) wf m ab(1) img, of debug] f by auto
  have s: "policy_step s = (c, (abs_slot x, abs_slot y))"
    using policy_step_flow_slots [OF f] abs_meta_ab_seal [OF wf ab(1)] by (simp add: s_def img)
  have wf': "ab_wf (d\<lparr>slots := [x, y]\<rparr>)" using wf xy by (rule ab_wf_slots)
  show ?thesis
    using w' s ab_valid_ab_seal [OF wf'] m abs_meta_ab_seal [OF wf', of x y] wf' wf
    by (simp add: img) (simp add: ab_seal_def)
qed

text \<open>On metadata that fails its check the flow reports it and installs the reset metadata.\<close>

lemma flow_run_invalid:
  assumes "inv w" "ab_wf ab0" "3 \<le> length suffix" "3 \<le> n" "\<not> ab_valid (misc_image part w)"
  shows "\<exists>w'. bub_ab_flow debug pr ab0 ops (Some suffix) n w =
      (Inr (BUB_AB_FLOW_ERROR_INVALID_METADATA, replicate 3 0 @ drop 3 suffix), w') \<and> inv w' \<and>
    misc_image part w' = ab_bytes (ab_seal reset_ab_data)"
proof -
  obtain w1 where w1: "inv w1"
    and run: "bub_ab_flow debug pr ab0 ops (Some suffix) n w =
       (let (ab_err, d) = ab_check (misc_image part w) in
        if ab_err \<noteq> BUB_AB_FLOW_RESULT_OK then
          bnd (if ab_err = BUB_AB_FLOW_ERROR_INVALID_METADATA then
                 bnd (bub_warning pr (''Reseting metadata.'' @ nl)) (\<lambda>_.
                 bnd (reset_metadata pr ops) (\<lambda>written.
                 warn_if pr (written = 0) (''Unable to reset metadata.'' @ nl)))
               else ret ())
            (\<lambda>_. ret (ab_err, replicate 3 0 @ drop 3 suffix)) w1
        else ab_flow_select pr ops d (replicate 3 0 @ drop 3 suffix) w1)"
    using flow_read [OF assms(1-4)] by blast
  have "fst (ab_check (misc_image part w)) = BUB_AB_FLOW_ERROR_INVALID_METADATA"
    using assms(5) misc_image_length [OF assms(1)] by (simp add: ab_valid_def ab_check_invalid)
  then obtain d where d: "ab_check (misc_image part w) = (BUB_AB_FLOW_ERROR_INVALID_METADATA, d)"
    by (cases "ab_check (misc_image part w)") auto
  obtain w2 where w2: "bub_warning pr (''Reseting metadata.'' @ nl) w1 = (Inr (), w2)" "inv w2"
    using warn_run [OF w1, of "''Reseting metadata.'' @ nl"] by (auto simp: ascii_text_def)
  obtain w' where "bub_write_ab_data_to_misc pr ops reset_ab_data w2 = (Inr 1, w')" "inv w'"
    "misc_image part w' = ab_bytes (ab_seal reset_ab_data)"
    using write_run [OF w2(2) ab_wf_reset] by blast
  with run d w2(1) show ?thesis by (simp add: reset_metadata_eq warn_if_def)
qed

text \<open>Marking a slot invalid.\<close>

lemma mark_exact:
  assumes "inv w" "ab_wf ab0" "3 \<le> length s" "bub_strlen s = Inr 2"
    and "ab_wf d" "magic d = BUB_BOOT_CTRL_MAGIC" "slots d = [a, b]"
    and img: "misc_image part w = ab_bytes (ab_seal d)"
  shows "\<exists>w'. bub_ab_mark_as_invalid debug pr ab0 ops (Some s) w =
      (Inr (if take 3 s = cstr ''_a'' \<or> take 3 s = cstr ''_b'' then 1 else 0), w') \<and> inv w' \<and>
    misc_image part w' = ab_bytes (ab_seal (d\<lparr>slots := mark_slots s a b\<rparr>))"
proof -
  let ?d = "d\<lparr>crc32 := ab_crc d\<rparr>"
  have wf: "slot_wf a" "slot_wf b" using assms(5,7) by (simp_all add: ab_wf_def)
  have id: "d\<lparr>slots := [a, b]\<rparr> = d" using assms(7) by (cases d) simp
  obtain w1 where w1: "bub_read_ab_data_from_misc pr ops ab0 w = (Inr (ab_check (misc_image part w)), w1)"
    "inv w1" "misc_image part w1 = misc_image part w"
    using read_run [OF assms(1,2)] by blast
  have run: "bub_ab_mark_as_invalid debug pr ab0 ops (Some s) w = mark_loop pr ops ?d s [0, 1] w1"
    using w1(1) assms(4-6) by (simp add: img ab_check_ab_seal bub_ab_mark_as_invalid_def bub_assert_def deref_def)
  have wr: "\<exists>w'. bub_write_ab_data_to_misc pr ops (?d\<lparr>slots := [x, y]\<rparr>) w1 = (Inr 1, w') \<and> inv w' \<and>
      misc_image part w' = ab_bytes (ab_seal (d\<lparr>slots := [x, y]\<rparr>))" if "slot_wf x" "slot_wf y" for x y
    using write_run [OF w1(2), of "?d\<lparr>slots := [x, y]\<rparr>"] ab_wf_slots [OF _ that, of ?d] assms(5) by simp
  obtain w2 where w2: "bub_warning pr (''Could not find requested slot.'' @ nl) w1 = (Inr (), w2)" "inv w2"
      "misc_image part w2 = misc_image part w1"
    using warn_run [OF w1(2), of "''Could not find requested slot.'' @ nl"] by (auto simp: ascii_text_def)
  show ?thesis
    using run mark_loop_run [OF assms(3), of pr ops ?d] wr [of zero_slot b] wr [of a zero_slot] wf w1(3) w2 img
      assms(7) by (simp add: mark_slots_def id)
qed

lemma mark_run:
  assumes "inv w" "ab_wf ab0" "ab_valid (misc_image part w)" "3 \<le> length s" "bub_strlen s = Inr 2"
  defines "m \<equiv> abs_meta (misc_image part w)"
  shows "\<exists>w'. bub_ab_mark_as_invalid debug pr ab0 ops (Some s) w =
      (Inr (if take 3 s = cstr ''_a'' \<or> take 3 s = cstr ''_b'' then 1 else 0), w') \<and> inv w' \<and>
    ab_valid (misc_image part w') \<and>
    abs_meta (misc_image part w') =
      (if take 3 s = cstr ''_a'' then (Unbootable, snd m)
       else if take 3 s = cstr ''_b'' then (fst m, Unbootable) else m)"
proof -
  obtain d a b where d: "ab_wf d" "magic d = BUB_BOOT_CTRL_MAGIC" "slots d = [a, b]" "slot_wf a" "slot_wf b"
      "misc_image part w = ab_bytes (ab_seal d)"
    using ab_valid_image [OF assms(3)] by metis
  have m: "m = (abs_slot a, abs_slot b)"
    using abs_meta_ab_seal [OF d(1,3)] by (simp add: m_def d(6))
  obtain x y where xy: "mark_slots s a b = [x, y]" "slot_wf x" "slot_wf y"
    using mark_slots_pair [OF d(4,5)] by blast
  have wf': "ab_wf (d\<lparr>slots := [x, y]\<rparr>)" using d(1) xy(2,3) by (rule ab_wf_slots)
  show ?thesis
    using mark_exact [OF assms(1,2,4,5) d(1-3,6), of debug] xy(1) ab_valid_ab_seal [OF wf'] d(2)
      abs_meta_ab_seal [OF wf', of x y] m by (auto simp: mark_slots_def split: if_splits)
qed

text \<open>Every sequence of boots and invalidations runs as the policy says.\<close>

lemma run_op:
  assumes "inv w" "ab_wf ab0" "3 \<le> length suffix" "3 \<le> n" "ab_valid (misc_image part w)"
  shows "\<exists>w'. run_ab_op debug pr ab0 ops suffix n x w =
      (op_report suffix x (fst (policy_op x (abs_meta (misc_image part w)))), w') \<and>
    inv w' \<and> ab_valid (misc_image part w') \<and>
    abs_meta (misc_image part w') = snd (policy_op x (abs_meta (misc_image part w)))"
proof (cases x)
  case Flow
  from flow_run_valid [OF assms, of debug] show ?thesis
    by (auto simp: Flow op_report_def)
next
  case (Mark m)
  have "bub_strlen (name_suffix m) = Inr 2" "3 \<le> length (name_suffix m)"
    by (cases m; simp add: name_suffix_def cstr_def)+
  from mark_run [OF assms(1,2,5) this(2,1), of debug] show ?thesis
    by (cases m) (auto simp: Mark op_report_def name_suffix_def policy_mark_def cstr_def)
qed

lemma run_ops:
  assumes "inv w" "ab_wf ab0" "3 \<le> length suffix" "3 \<le> n" "ab_valid (misc_image part w)"
  shows "\<exists>w'. run_ab_ops debug pr ab0 ops suffix n xs w =
      (map2 (op_report suffix) xs (fst (policy_run xs (abs_meta (misc_image part w)))), w') \<and>
    inv w' \<and> ab_valid (misc_image part w') \<and>
    abs_meta (misc_image part w') = snd (policy_run xs (abs_meta (misc_image part w)))"
  using assms(1,5)
proof (induction xs arbitrary: w)
  case (Cons x xs)
  obtain w1 where w1: "run_ab_op debug pr ab0 ops suffix n x w =
      (op_report suffix x (fst (policy_op x (abs_meta (misc_image part w)))), w1)"
    "inv w1" "ab_valid (misc_image part w1)"
    "abs_meta (misc_image part w1) = snd (policy_op x (abs_meta (misc_image part w)))"
    using run_op [OF Cons.prems(1) assms(2-4) Cons.prems(2)] by blast
  from Cons.IH [OF w1(2,3)] w1 show ?case by auto
qed auto

text \<open>No operation touches anything of the metadata but the slots and the checksum.\<close>

lemma run_op_layout:
  assumes "inv w" "ab_wf ab0" "3 \<le> length suffix" "3 \<le> n"
    and "ab_wf d" "magic d = BUB_BOOT_CTRL_MAGIC" "misc_image part w = ab_bytes (ab_seal d)"
  shows "\<exists>r xs w'. run_ab_op debug pr ab0 ops suffix n x w = (r, w') \<and> inv w' \<and> ab_wf (d\<lparr>slots := xs\<rparr>) \<and>
    misc_image part w' = ab_bytes (ab_seal (d\<lparr>slots := xs\<rparr>))"
proof -
  obtain a b where ab: "slots d = [a, b]" "slot_wf a" "slot_wf b" using assms(5) by (auto simp: ab_wf_def two_slots)
  show ?thesis
  proof (cases x)
    case Flow
    obtain y z where yz: "snd (flow_slots a b) = [y, z]" using flow_slots_pair by blast
    with flow_slots_wf [OF ab(2,3) yz] assms(5) have "ab_wf (d\<lparr>slots := snd (flow_slots a b)\<rparr>)"
      by (simp add: ab_wf_slots)
    with flow_exact [OF assms(1-6) ab(1) assms(7), of debug] show ?thesis by (auto simp: Flow)
  next
    case (Mark m)
    have s: "bub_strlen (name_suffix m) = Inr 2" "3 \<le> length (name_suffix m)"
      by (cases m; simp add: name_suffix_def cstr_def)+
    obtain y z where yz: "mark_slots (name_suffix m) a b = [y, z]" "slot_wf y" "slot_wf z"
      using mark_slots_pair [OF ab(2,3)] by blast
    then have "ab_wf (d\<lparr>slots := mark_slots (name_suffix m) a b\<rparr>)"
      using assms(5) by (simp add: ab_wf_slots)
    with mark_exact [OF assms(1,2) s(2,1) assms(5,6) ab(1) assms(7), of debug] show ?thesis by (auto simp: Mark)
  qed
qed

lemma run_ops_layout:
  assumes "inv w" "ab_wf ab0" "3 \<le> length suffix" "3 \<le> n"
    and "ab_wf d" "magic d = BUB_BOOT_CTRL_MAGIC" "misc_image part w = ab_bytes (ab_seal d)"
  shows "\<exists>rs ys w'. run_ab_ops debug pr ab0 ops suffix n xs w = (rs, w') \<and> inv w' \<and> ab_wf (d\<lparr>slots := ys\<rparr>) \<and>
    misc_image part w' = ab_bytes (ab_seal (d\<lparr>slots := ys\<rparr>))"
  using assms(1,5-7)
proof (induction xs arbitrary: w d)
  case Nil
  then show ?case by (intro exI [of _ "[]"] exI [of _ "slots d"] exI [of _ w]) simp
next
  case (Cons x xs)
  obtain r ys w1 where w1: "run_ab_op debug pr ab0 ops suffix n x w = (r, w1)" "inv w1"
      "ab_wf (d\<lparr>slots := ys\<rparr>)" "misc_image part w1 = ab_bytes (ab_seal (d\<lparr>slots := ys\<rparr>))"
    using run_op_layout [OF Cons.prems(1) assms(2-4) Cons.prems(2-4)] by blast
  from Cons.IH [OF w1(2,3) _ w1(4)] Cons.prems(3) w1(1) show ?case by auto
qed

end

end
