(* ===== verification/Bub_AbErrors.thy ===== *)
theory Bub_AbErrors
  imports Bub_AbFlow
begin

text \<open>
  What \<open>bub_ab_flow\<close> promises over a platform that may do anything: reads and writes that fail,
  come back short or return garbage. Nothing is assumed of the operations or of the console, except
  where a lemma fixes what they do.
\<close>

section \<open>The suffix buffer\<close>

text \<open>The suffix names a slot exactly when the result is OK; it is empty on every error.\<close>

definition suffix_ok :: "BubAbFlowResult \<times> byte list \<Rightarrow> bool" where
  "suffix_ok r =
     (if fst r = BUB_AB_FLOW_RESULT_OK
      then take 3 (snd r) = cstr ''_a'' \<or> take 3 (snd r) = cstr ''_b''
      else take 3 (snd r) = [0, 0, 0])"

lemma zero3 [simp]: "replicate 3 (0 :: byte) = [0, 0, 0]"
  by (simp add: numeral_3_eq_3)

lemma zero3_copy:
  assumes "3 \<le> length s"
  shows "bub_memcpy (0 # 0 # 0 # drop 3 s) 0 (bub_suffixes ! 0) 3 = Inr (cstr ''_a'' @ drop 3 s)"
    "bub_memcpy (0 # 0 # 0 # drop 3 s) 0 (bub_suffixes ! Suc 0) 3 = Inr (cstr ''_b'' @ drop 3 s)"
  using suffix_copy [OF assms] by simp_all

lemma write_result:
  "bub_write_ab_data_to_misc pr ops d w = (Inr x, w') \<Longrightarrow> x = 0 \<or> x = 1"
  by (auto simp: bub_write_ab_data_to_misc_def Let_def split: if_splits elim!: bnd_eq_InrE)

lemma select_suffix_ok:
  assumes "ab_flow_select pr ops d (0 # 0 # 0 # drop 3 s) w = (Inr r, w')" "3 \<le> length s"
  shows "suffix_ok r"
proof -
  have t: "ab_target d' = -1 \<or> ab_target d' = 0 \<or> ab_target d' = 1" for d'
    by (simp add: ab_target_def)
  obtain n0 s0 n1 s1 where norm: "normalize_slot (slots d ! 0) = (n0, s0)"
    "normalize_slot (slots d ! Suc 0) = (n1, s1)" by fastforce
  show ?thesis
    using assms(1) t [of "d\<lparr>slots := [s0, s1]\<rparr>"]
    by (auto simp: ab_flow_select_def norm Let_def suffix_ok_def zero3_copy [OF assms(2)]
        split: if_splits elim!: bnd_eq_InrE)
qed

lemma suffix_ok_error [simp]: "e \<noteq> BUB_AB_FLOW_RESULT_OK \<Longrightarrow> suffix_ok (e, 0 # 0 # 0 # x)"
  by (simp add: suffix_ok_def)

lemma flow_suffix_ok:
  assumes "bub_ab_flow debug pr ab0 ops (Some s) n w = (Inr r, w')" "3 \<le> length s"
  shows "suffix_ok r"
  using assms
  by (auto simp: bub_ab_flow_def deref_def split: if_splits elim!: bnd_eq_InrE)
     (erule (1) select_suffix_ok)

section \<open>A platform that cannot write\<close>

text \<open>
  The platform of a stuck misc partition: every read returns the image, every write the error
  \<open>e\<close>. The world is the number of writes tried; messages go to \<open>stderr\<close>.
\<close>

definition stuck_ops :: "byte list \<Rightarrow> BubIOResult \<Rightarrow> nat BubOps" where
  "stuck_ops img e = \<lparr>
     read_from_partition = \<lambda>name buf off n. ret (BUB_IO_RESULT_OK, img, Some n),
     write_to_partition = \<lambda>name buf off n w. (Inr e, Suc w),
     validate_public_key = \<lambda>key n. ret 0,
     read_rollback_index = \<lambda>i. ret (0, None),
     write_rollback_index = \<lambda>i x. ret 0,
     read_is_unlocked = ret (0, None),
     get_unique_guid_for_partition = \<lambda>name buf n. ret (0, buf)\<rparr>"

lemma stuck_read:
  assumes "length img = 64"
  shows "bub_read_ab_data_from_misc bub_print_posix (stuck_ops img e) d w = (Inr (ab_check img), w)"
proof -
  have wf: "ab_wf (ab_of img)" using assms by (rule ab_wf_ab_of)
  have cmp: "bub_memcmp (magic (ab_of img)) BUB_BOOT_CTRL_MAGIC 4 =
      Inr (diff_bytes (magic (ab_of img)) BUB_BOOT_CTRL_MAGIC)"
    and neq: "diff_bytes (magic (ab_of img)) BUB_BOOT_CTRL_MAGIC = 0 \<longleftrightarrow> magic (ab_of img) = BUB_BOOT_CTRL_MAGIC"
    using wf by (simp_all add: ab_wf_def diff_bytes_eq_0_iff)
  have crc: "bub_crc32 0 (ab_bytes ((ab_of img)\<lparr>crc32 := 0\<rparr>)) 64 = Inr (ab_crc (ab_of img))"
    using wf by (simp add: ab_crc_def length_ab_bytes)
  show ?thesis
    using cmp neq crc
    by (simp add: bub_read_ab_data_from_misc_def BUB_AB_DATA_SIZE_def ab_check_def Let_def stuck_ops_def ascii_text_def)
qed

lemma stuck_write:
  assumes "ab_wf d" "e \<noteq> BUB_IO_RESULT_OK"
  shows "bub_write_ab_data_to_misc bub_print_posix (stuck_ops img e) d w = (Inr 0, Suc w)"
proof -
  have "bub_crc32 0 (ab_bytes (d\<lparr>crc32 := 0\<rparr>)) 64 = Inr (ab_crc d)"
    using assms(1) by (simp add: ab_crc_def length_ab_bytes)
  with assms(2) show ?thesis
    by (simp add: bub_write_ab_data_to_misc_def BUB_AB_DATA_SIZE_def Let_def stuck_ops_def ascii_text_def)
qed

text \<open>Both slots of the image are proper.\<close>

definition slots_valid :: "byte list \<Rightarrow> bool" where
  "slots_valid img \<longleftrightarrow> list_all slot_valid (slots (ab_of img))"

lemma stuck_flow:
  assumes "ab_valid img" "e \<noteq> BUB_IO_RESULT_OK" "3 \<le> length s" "3 \<le> n"
  shows "fst (bub_ab_flow debug bub_print_posix ab0 (stuck_ops img e) (Some s) n w) =
    Inr (if slots_valid img \<and> snd (policy_step (abs_meta img)) = abs_meta img
         then flow_report (fst (policy_step (abs_meta img))) s
         else (BUB_AB_FLOW_ERROR_WRITE_METADATA, [0, 0, 0] @ drop 3 s))"
proof -
  obtain d where d: "ab_check img = (BUB_AB_FLOW_RESULT_OK, d)"
    using assms(1) by (cases "ab_check img") (auto simp: ab_valid_def)
  have len: "length img = 64" using assms(1) by (simp add: ab_valid_def)
  note ok = ab_check_OK [OF d]
  have wf: "ab_wf d" using ok(4) len by simp
  then obtain a b where ab: "slots d = [a, b]" "slot_wf a" "slot_wf b"
    by (auto simp: ab_wf_def two_slots)
  define a' b' where "a' = snd (normalize_slot a)" and "b' = snd (normalize_slot b)"
  have wf': "slot_wf a'" "slot_wf b'"
    using ab by (simp_all add: a'_def b'_def normalize_slot_wf)
  have v: "slot_valid a'" "slot_valid b'"
    by (simp_all add: a'_def b'_def normalize_slot_valid)
  have norm: "normalize_slot a = (if slot_valid a then 0 else 1, a')"
    "normalize_slot b = (if slot_valid b then 0 else 1, b')"
    by (simp_all add: a'_def b'_def prod_eq_iff normalize_slot_flag)
  have meta: "abs_meta img = (abs_slot a', abs_slot b')"
    using ok(3) [symmetric] ab by (simp add: abs_meta_def a'_def b'_def)
  have sv: "slots_valid img \<longleftrightarrow> slot_valid a \<and> slot_valid b"
    using ok(3) [symmetric] ab by (simp add: slots_valid_def)
  have tgt: "ab_target (d\<lparr>slots := [a', b']\<rparr>) = (case policy_choice (abs_slot a', abs_slot b') of
      None \<Rightarrow> -1 | Some Slot_A \<Rightarrow> 0 | Some Slot_B \<Rightarrow> 1)"
    by (rule ab_target_policy [OF v]) simp
  have wr: "bub_write_ab_data_to_misc bub_print_posix (stuck_ops img e) (d\<lparr>slots := [x, y]\<rparr>) w = (Inr 0, Suc w)"
    if "slot_wf x" "slot_wf y" for x y w
    by (rule stuck_write [OF ab_wf_slots [OF wf that] assms(2)])
  have att: "attempt (abs_slot x) = abs_slot x \<longleftrightarrow> \<not> tries_remaining x > 0" if "slot_valid x" for x
    using that by (auto simp: abs_slot_def slot_valid_def word_less_nat_alt split: if_splits)
  have run: "bub_ab_flow debug bub_print_posix ab0 (stuck_ops img e) (Some s) n w =
      ab_flow_select bub_print_posix (stuck_ops img e) d ([0, 0, 0] @ drop 3 s) w"
    using assms(3,4) stuck_read [OF len] d
    by (simp add: bub_ab_flow_def bub_assert_def deref_def)
  show ?thesis
  proof (cases "policy_choice (abs_slot a', abs_slot b')")
    case None
    then show ?thesis
      using tgt wr [OF wf'] ab(1)
      by (simp add: run ab_flow_select_def norm Let_def meta sv policy_step_def flow_report_def warn_if_def ascii_text_def)
  next
    case (Some m)
    show ?thesis
      using Some tgt wr wf' ab(1) att [OF v(1)] att [OF v(2)] zero3_copy [OF assms(3)]
      by (cases m) (auto simp: run ab_flow_select_def norm Let_def meta sv policy_step_def
          flow_report_def prod_eq_iff slot_wf_def warn_if_def ascii_text_def)
  qed
qed

text \<open>C21: for any platform operations, any console and any state of them, a finished \<open>bub_ab_flow\<close> leaves
  \<open>_a\<close> or \<open>_b\<close> in the caller's buffer exactly when it returns OK, and an empty suffix with every
  error: a failed read, an invalid or unwritable metadata block never selects a slot.\<close>

theorem bub_ab_flow_suffix_iff_ok:
  assumes "bub_ab_flow debug pr ab0 ops (Some s) n w = (Inr r, w')" "3 \<le> length s"
  shows "suffix_ok r"
  using assms by (rule flow_suffix_ok)

theorem bub_ab_flow_suffix_iff_ok_witness:
  "suffix_ok (BUB_AB_FLOW_ERROR_INVALID_METADATA, [0, 0, 0])"
proof -
  have "magic (ab_of (replicate 64 0)) \<noteq> BUB_BOOT_CTRL_MAGIC"
    by (auto simp: ab_of_def BUB_BOOT_CTRL_MAGIC_def dest: arg_cong [of _ _ hd])
  then have "fst (ab_check (replicate 64 0)) = BUB_AB_FLOW_ERROR_INVALID_METADATA"
    by (simp add: ab_check_def Let_def)
  then obtain d where d: "ab_check (replicate 64 0) = (BUB_AB_FLOW_ERROR_INVALID_METADATA, d)"
    by (cases "ab_check (replicate 64 0)") auto
  have "bub_ab_flow False bub_print_posix zero_ab_data (stuck_ops (replicate 64 0) BUB_IO_RESULT_ERROR_IO)
      (Some [1, 2, 3]) 3 0 = (Inr (BUB_AB_FLOW_ERROR_INVALID_METADATA, [0, 0, 0]), 1)"
    using d by (simp add: bub_ab_flow_def bub_assert_def deref_def stuck_read reset_metadata_eq
        stuck_write warn_if_def ascii_text_def)
  from bub_ab_flow_suffix_iff_ok [OF this] show ?thesis by simp
qed

text \<open>When the partition returns valid metadata but cannot be written, the flow succeeds only
  if it has nothing to record (proper slots, and the choice is a confirmed slot or none); when an
  attempt would have to be charged or a slot normalised it returns the write error and selects no
  slot.\<close>

lemma bub_ab_flow_unwritable:
  assumes "ab_valid img" "e \<noteq> BUB_IO_RESULT_OK" "3 \<le> length s" "3 \<le> n"
  shows "fst (bub_ab_flow debug bub_print_posix ab0 (stuck_ops img e) (Some s) n w) =
    Inr (if slots_valid img \<and> snd (policy_step (abs_meta img)) = abs_meta img
         then flow_report (fst (policy_step (abs_meta img))) s
         else (BUB_AB_FLOW_ERROR_WRITE_METADATA, [0, 0, 0] @ drop 3 s))"
  using assms by (rule stuck_flow)

lemma bub_ab_flow_unwritable_witness:
  "fst (bub_ab_flow True bub_print_posix zero_ab_data
      (stuck_ops (ab_bytes (ab_seal reset_ab_data)) BUB_IO_RESULT_ERROR_IO) (Some [7, 7, 7, 7]) 4 0) =
   Inr (BUB_AB_FLOW_ERROR_WRITE_METADATA, [0, 0, 0, 7])"
proof -
  have "ab_valid (ab_bytes (ab_seal reset_ab_data))"
    by (simp add: ab_valid_ab_seal)
  from bub_ab_flow_unwritable [OF this, of BUB_IO_RESULT_ERROR_IO "[7, 7, 7, 7]" 4 True zero_ab_data 0]
  show ?thesis by (simp add: abs_meta_reset policy_step_def policy_choice_def)
qed

end
