(* ===== verification/Bub_Ops_Uefi.thy ===== *)
theory Bub_Ops_Uefi
  imports Bub_Lookup Bub_AbErrors
begin

text \<open>
  \<open>bub_ops_uefi.c\<close>: reading and writing a partition through the firmware. The offset arithmetic is
  that of the C code, on 64-bit words. At the end the pair is shown to fulfil the contract
  \<open>ab_store\<close> on every working device with a well-formed partition table, so that the results of
  \<open>Bub_AbFlow\<close> hold on the firmware as they do on the host.
\<close>

section \<open>The code\<close>

text \<open>
  \<open>bub->block_io\<close> and \<open>bub->disk_io\<close> are the only members of \<open>MyBubOps\<close> the two functions use. The
  assertions are compiled away in the EFI build, which includes \<open>bub_sysdeps.h\<close> before
  \<open>BUB_ENABLE_DEBUG\<close> is defined.
\<close>

definition bub_read_from_partition ::
    "'w efi \<Rightarrow> ptr \<Rightarrow> ptr \<Rightarrow> byte list \<Rightarrow> byte list \<Rightarrow> u64 \<Rightarrow> u64 \<Rightarrow>
     ('w, BubIOResult \<times> byte list \<times> u64 option) io" where
  "bub_read_from_partition fw block_io disk_io partition_name buf offset_from_partition num_bytes =
     bnd (bub_partition_entry_by_name fw block_io partition_name) (\<lambda>(err, entry, mem).
     if EFI_ERROR err then ret (BUB_IO_RESULT_ERROR_NO_SUCH_PARTITION, buf, None)
     else
     bnd (media_of fw block_io) (\<lambda>m.
     let partition_entry = gpt_entry_of mem;
         partition_size = IMG_SIZE partition_entry m in
     if sint offset_from_partition < 0 \<and> (- offset_from_partition) > partition_size then
       bnd (efi_warning fw (''Offset outside range.'' @ nl)) (\<lambda>_.
       bnd (bub_free fw entry) (\<lambda>_. ret (BUB_IO_RESULT_ERROR_RANGE_OUTSIDE_PARTITION, buf, None)))
     else
     let offset = (if sint offset_from_partition < 0
                   then partition_size - (- offset_from_partition) else offset_from_partition);
         out_num_read = (if num_bytes > partition_size - offset
                         then partition_size - offset else num_bytes) in
     bnd (read_disk fw disk_io (MediaId m) (first_lba partition_entry * ucast (BlockSize m) + offset)
            out_num_read buf) (\<lambda>(err, buf).
     if EFI_ERROR err then
       bnd (efi_warning fw (''Could not read from Disk.'' @ nl)) (\<lambda>_.
       bnd (bub_free fw entry) (\<lambda>_. ret (BUB_IO_RESULT_ERROR_IO, buf, Some 0)))
     else
       bnd (bub_free fw entry) (\<lambda>_. ret (BUB_IO_RESULT_OK, buf, Some out_num_read)))))"

definition bub_write_to_partition ::
    "'w efi \<Rightarrow> ptr \<Rightarrow> ptr \<Rightarrow> byte list \<Rightarrow> byte list \<Rightarrow> u64 \<Rightarrow> u64 \<Rightarrow> ('w, BubIOResult) io" where
  "bub_write_to_partition fw block_io disk_io partition_name buf offset_from_partition num_bytes =
     bnd (bub_partition_entry_by_name fw block_io partition_name) (\<lambda>(err, entry, mem).
     if EFI_ERROR err then ret BUB_IO_RESULT_ERROR_NO_SUCH_PARTITION
     else
     bnd (media_of fw block_io) (\<lambda>m.
     let partition_entry = gpt_entry_of mem;
         partition_size = IMG_SIZE partition_entry m in
     if sint offset_from_partition < 0 \<and> (- offset_from_partition) > partition_size then
       bnd (efi_warning fw (''Offset outside range.'' @ nl)) (\<lambda>_.
       bnd (bub_free fw entry) (\<lambda>_. ret BUB_IO_RESULT_ERROR_RANGE_OUTSIDE_PARTITION))
     else
     let offset = (if sint offset_from_partition < 0
                   then partition_size - (- offset_from_partition) else offset_from_partition) in
     if num_bytes > partition_size - offset then
       bnd (efi_warning fw (''Cannot write beyond partition boundary.'' @ nl)) (\<lambda>_.
       bnd (bub_free fw entry) (\<lambda>_. ret BUB_IO_RESULT_ERROR_RANGE_OUTSIDE_PARTITION))
     else
     bnd (write_disk fw disk_io (MediaId m) (first_lba partition_entry * ucast (BlockSize m) + offset)
            num_bytes buf) (\<lambda>err.
     if EFI_ERROR err then
       bnd (efi_warning fw (''Could not write to Disk.'' @ nl)) (\<lambda>_.
       bnd (bub_free fw entry) (\<lambda>_. ret BUB_IO_RESULT_ERROR_IO))
     else bnd (bub_free fw entry) (\<lambda>_. ret BUB_IO_RESULT_OK))))"

text \<open>The structure \<open>bub_init\<close> fills; it assigns two of the function pointers.\<close>

definition uefi_ops :: "'w efi \<Rightarrow> ptr \<Rightarrow> ptr \<Rightarrow> 'w BubOps" where
  "uefi_ops fw block_io disk_io = \<lparr>
     read_from_partition = bub_read_from_partition fw block_io disk_io,
     write_to_partition = bub_write_to_partition fw block_io disk_io,
     validate_public_key = \<lambda>key n. fail Null_Deref,
     read_rollback_index = \<lambda>i. fail Null_Deref,
     write_rollback_index = \<lambda>i x. fail Null_Deref,
     read_is_unlocked = fail Null_Deref,
     get_unique_guid_for_partition = \<lambda>name buf n. fail Null_Deref\<rparr>"

section \<open>The memory pool\<close>

lemma read_disk_live:
  "pool_ok fw live \<Longrightarrow> read_disk fw d m off n b w = (Inr r, w') \<Longrightarrow> live w' = live w"
  using pool_ok_keep(5) [of fw live d m off n b w]
  by (auto simp: read_disk_def call_def split: if_splits prod.splits)

lemma write_disk_live:
  "pool_ok fw live \<Longrightarrow> write_disk fw d m off n b w = (Inr r, w') \<Longrightarrow> live w' = live w"
  using pool_ok_keep(6) [of fw live d m off n b w]
  by (auto simp: write_disk_def call_def split: if_splits prod.splits)

lemmas io_dests = free_live read_disk_live write_disk_live entry_by_name_live warning_live

lemma read_keeps_pool:
  assumes "pool_ok fw live" "bub_read_from_partition fw bio dio name buf off n w = (Inr r, w')"
  shows "live w' = live w"
  using assms(2)
  by (auto simp: bub_read_from_partition_def Let_def split: if_splits
      elim!: bnd_eq_InrE dest!: io_dests [OF assms(1)])

lemma write_keeps_pool:
  assumes "pool_ok fw live" "bub_write_to_partition fw bio dio name buf off n w = (Inr r, w')"
  shows "live w' = live w"
  using assms(2)
  by (auto simp: bub_write_to_partition_def Let_def split: if_splits
      elim!: bnd_eq_InrE dest!: io_dests [OF assms(1)])

section \<open>Partitions of a working device\<close>

definition entry_ok :: "byte list \<Rightarrow> GPTEntry \<Rightarrow> bool" where
  "entry_ok img e \<longleftrightarrow> 34 \<le> unat (first_lba e) \<and> first_lba e \<le> last_lba e \<and>
     unat (last_lba e) * 512 \<le> length img"

definition entry_start :: "GPTEntry \<Rightarrow> nat" where
  "entry_start e = unat (first_lba e) * 512"

text \<open>The size the code computes: the last block of the entry is not part of it.\<close>

definition entry_bytes :: "GPTEntry \<Rightarrow> nat" where
  "entry_bytes e = (unat (last_lba e) - unat (first_lba e)) * 512"

definition uefi_part :: "('w \<Rightarrow> byte list) \<Rightarrow> 'w \<Rightarrow> byte list \<Rightarrow> byte list option" where
  "uefi_part img w name =
     (if name_ok name
      then map_option (\<lambda>e. chunk (entry_start e) (entry_bytes e) (img w)) (gpt_lookup (img w) name)
      else None)"

definition disk_ok :: "byte list \<Rightarrow> bool" where
  "disk_ok img \<longleftrightarrow> table_ok img \<and>
     list_all (\<lambda>i. chars (entry_name (gpt_entry_at img i)) \<noteq> [] \<longrightarrow> entry_ok img (gpt_entry_at img i))
       [0..<unat (entry_count (gpt_header_at img))] \<and>
     (case gpt_lookup img misc of None \<Rightarrow> False | Some e \<Rightarrow> 64 \<le> entry_bytes e)"

text \<open>The invariant of the provider: the device works, few blocks are live, the table is sound.\<close>

definition uefi_inv ::
    "'w efi \<Rightarrow> ptr \<Rightarrow> ptr \<Rightarrow> ('w \<Rightarrow> ptr set) \<Rightarrow> ('w \<Rightarrow> byte list) \<Rightarrow> ('w \<Rightarrow> bool) \<Rightarrow> 'w \<Rightarrow> bool" where
  "uefi_inv fw bio dio live img good w \<longleftrightarrow> dev_ok fw bio dio live img good \<and> good w \<and>
     few (live w) 8 \<and> disk_ok (img w)"

lemma gpt_index_SomeD:
  "gpt_index img name = Some i \<Longrightarrow>
   i < unat (entry_count (gpt_header_at img)) \<and>
   chars (entry_name (gpt_entry_at img i)) = map ucast (chars name)"
  by (auto simp: gpt_index_def find_Some_iff)

lemma lookup_ok:
  assumes "disk_ok img" "name_ok name" "gpt_lookup img name = Some e"
  shows "entry_ok img e"
proof -
  obtain i where i: "gpt_index img name = Some i" "e = gpt_entry_at img i"
    using assms(3) by (auto simp: gpt_lookup_def)
  from gpt_index_SomeD [OF i(1)] assms(1,2) i(2) show ?thesis
    by (auto simp: disk_ok_def list_all_iff name_ok_def)
qed

lemma IMG_SIZE_run:
  assumes "entry_ok img e" "length img < 2 ^ 63" "BlockSize m = 512"
  shows "IMG_SIZE e m = of_nat (entry_bytes e)" "first_lba e * ucast (BlockSize m) = of_nat (entry_start e)"
    and "entry_start e + entry_bytes e \<le> length img" "34 * 512 \<le> entry_start e"
proof -
  have le: "unat (first_lba e) \<le> unat (last_lba e)"
    using assms(1) by (simp add: entry_ok_def word_le_nat_alt)
  have "last_lba e - first_lba e = of_nat (unat (last_lba e) - unat (first_lba e))"
    using le by (simp add: of_nat_diff)
  moreover have "ucast (BlockSize m) = (of_nat 512 :: u64)" using assms(3) by simp
  ultimately show "IMG_SIZE e m = of_nat (entry_bytes e)"
    by (simp only: IMG_SIZE_def entry_bytes_def of_nat_mult)
  show "first_lba e * ucast (BlockSize m) = of_nat (entry_start e)"
    using assms(3) by (simp add: entry_start_def)
  show "entry_start e + entry_bytes e \<le> length img" "34 * 512 \<le> entry_start e"
    using assms(1) le by (simp_all add: entry_ok_def entry_start_def entry_bytes_def flip: add_mult_distrib)
qed

section \<open>Transfers on a working device\<close>

text \<open>
  The byte a 64-bit offset designates in a partition of \<open>n\<close> bytes: a negative offset counts from
  the end.
\<close>

definition at_offset :: "nat \<Rightarrow> u64 \<Rightarrow> nat \<Rightarrow> bool" where
  "at_offset n off pos \<longleftrightarrow> pos \<le> n \<and> sint off = (if sint off < 0 then int pos - int n else int pos)"

lemma unat_of_nat_63: "n < 2 ^ 63 \<Longrightarrow> unat (of_nat n :: u64) = n"
  by (simp add: unsigned_of_nat take_bit_nat_eq_self)

lemma at_offset_words:
  assumes "at_offset n off pos" "n < 2 ^ 63"
  shows "\<not> (sint off < 0 \<and> - off > of_nat n)"
    and "(if sint off < 0 then of_nat n - (- off) else off) = of_nat pos"
    and "of_nat n - of_nat pos = (of_nat (n - pos) :: u64)"
proof -
  have off: "off = word_of_int (sint off)" by simp
  have pos: "pos \<le> n" using assms(1) by (simp add: at_offset_def)
  then show "of_nat n - of_nat pos = (of_nat (n - pos) :: u64)" by (simp add: of_nat_diff)
  have neg: "- off = of_nat (n - pos)" if "sint off < 0"
  proof -
    have "sint off = int pos - int n" using assms(1) that by (simp add: at_offset_def)
    then have "off = word_of_int (int pos - int n)" using off by simp
    then show ?thesis using pos by (simp add: of_nat_diff)
  qed
  have "unat (of_nat (n - pos) :: u64) = n - pos" "unat (of_nat n :: u64) = n"
    using assms(2) by (simp_all only: unat_of_nat_63 less_imp_diff_less)
  then have "\<not> of_nat n < (of_nat (n - pos) :: u64)"
    by (simp only: word_less_nat_alt)
  then show "\<not> (sint off < 0 \<and> - off > of_nat n)"
    using neg by metis
  show "(if sint off < 0 then of_nat n - (- off) else off) = of_nat pos"
  proof (cases "sint off < 0")
    case True
    then show ?thesis using neg pos by (simp add: of_nat_diff)
  next
    case False
    then have "sint off = int pos" using assms(1) by (simp add: at_offset_def)
    then have "off = word_of_int (int pos)" using off by simp
    then show ?thesis using False by simp
  qed
qed

lemma good_read_disk:
  assumes "dev_ok fw bio dio live img good" "good w" "unat off + unat n \<le> length (img w)"
    and "unat n \<le> length buf"
  shows "\<exists>err w'. read_disk fw dio m off n buf w =
      (Inr (err, blit 0 (chunk (unat off) (unat n) (img w)) buf), w') \<and> \<not> EFI_ERROR err \<and>
      live w' = live w \<and> keeps good img w w'"
proof -
  obtain err b w' where r: "ReadDisk fw dio m off n buf w = ((err, b), w')" by (metis surj_pair)
  have "case ReadDisk fw dio m off n buf w of ((err, buf'), w') \<Rightarrow>
      \<not> EFI_ERROR err \<and> keeps good img w w' \<and> buf' = blit 0 (chunk (unat off) (unat n) (img w)) buf"
    using assms by (simp add: dev_ok_def)
  moreover have "live w' = live w"
    using pool_ok_keep(5) [OF dev_okD(1) [OF assms(1)], of dio m off n buf w] r by simp
  ultimately show ?thesis
    using r assms(4) by (auto simp: read_disk_def call_def)
qed

lemma good_write_disk:
  assumes "dev_ok fw bio dio live img good" "good w" "unat off + unat n \<le> length (img w)"
    and "unat n \<le> length buf"
  shows "\<exists>err w'. write_disk fw dio m off n buf w = (Inr err, w') \<and> \<not> EFI_ERROR err \<and>
      live w' = live w \<and> good w' \<and> img w' = blit (unat off) (take (unat n) buf) (img w)"
proof -
  obtain err w' where r: "WriteDisk fw dio m off n buf w = (err, w')" by fastforce
  have "case WriteDisk fw dio m off n buf w of (err, w') \<Rightarrow>
      \<not> EFI_ERROR err \<and> good w' \<and> img w' = blit (unat off) (take (unat n) buf) (img w)"
    using assms by (simp add: dev_ok_def)
  moreover have "live w' = live w"
    using pool_ok_keep(6) [OF dev_okD(1) [OF assms(1)], of dio m off n buf w] r by simp
  ultimately show ?thesis
    using r assms(4) by (auto simp: write_disk_def call_def)
qed

text \<open>The entry of a partition the view shows, as both functions obtain it.\<close>

lemma uefi_entry:
  assumes "uefi_inv fw bio dio live img good w" "uefi_part img w name = Some c"
  obtains e p mem w1 where "bub_partition_entry_by_name fw bio name w = (Inr (EFI_SUCCESS, p, mem), w1)"
    "gpt_entry_of mem = e" "entry_ok (img w) e" "c = chunk (entry_start e) (entry_bytes e) (img w)"
    "length c = entry_bytes e" "entry_bytes e < 2 ^ 63" "p \<in> live w1" "live w1 - {p} = live w"
    "good w1" "img w1 = img w" "gpt_lookup (img w) name = Some e"
proof -
  have D: "dev_ok fw bio dio live img good" "good w" "few (live w) 8" "disk_ok (img w)"
    using assms(1) by (simp_all add: uefi_inv_def)
  obtain e where e: "name_ok name" "gpt_lookup (img w) name = Some e"
    "c = chunk (entry_start e) (entry_bytes e) (img w)"
    using assms(2) by (auto simp: uefi_part_def split: if_splits)
  obtain i where i: "gpt_index (img w) name = Some i" "e = gpt_entry_at (img w) i"
    using e(2) by (auto simp: gpt_lookup_def)
  have t: "table_ok (img w)" using D(4) by (simp add: disk_ok_def)
  note ok = lookup_ok [OF D(4) e(1,2)]
  have b: "length (img w) < 2 ^ 63" by (rule dev_okD(4) [OF D(1,2)])
  have fit: "entry_start e + entry_bytes e \<le> length (img w)"
    by (rule IMG_SIZE_run(3) [OF ok b, of "Media fw bio w"]) (rule dev_okD(3) [OF D(1,2)])
  obtain p mem w1 where "bub_partition_entry_by_name fw bio name w = (Inr (EFI_SUCCESS, p, mem), w1)"
    "keeps good img w w1" "p \<notin> live w" "live w1 = insert p (live w)" "gpt_entry_of mem = e"
    using entry_by_name_run [OF D(1-3) t e(1)] i by auto
  moreover from this have "p \<in> live w1" "live w1 - {p} = live w" by auto
  ultimately show ?thesis
    using that [of p mem w1 e] ok e(2,3) fit b by (simp add: keeps_def)
qed

lemma chunk_chunk: "i + n \<le> m \<Longrightarrow> chunk i n (chunk off m xs) = chunk (off + i) n xs"
  by (simp add: chunk_def drop_take min_def add.commute)

lemma uefi_read_run:
  assumes "uefi_inv fw bio dio live img good w" "uefi_part img w name = Some c"
    and "at_offset (length c) off pos" "k = min (unat n) (length c - pos)" "k \<le> length buf"
  shows "\<exists>w'. bub_read_from_partition fw bio dio name buf off n w =
      (Inr (BUB_IO_RESULT_OK, blit 0 (chunk pos k c) buf, Some (of_nat k)), w') \<and>
    good w' \<and> img w' = img w \<and> live w' = live w"
proof -
  obtain e p mem w1 where e: "bub_partition_entry_by_name fw bio name w = (Inr (EFI_SUCCESS, p, mem), w1)"
    "gpt_entry_of mem = e" "entry_ok (img w) e" "c = chunk (entry_start e) (entry_bytes e) (img w)"
    "length c = entry_bytes e" "entry_bytes e < 2 ^ 63" "p \<in> live w1" "live w1 - {p} = live w"
    "good w1" "img w1 = img w" "gpt_lookup (img w) name = Some e"
    by (rule uefi_entry [OF assms(1,2)])
  have D: "dev_ok fw bio dio live img good" using assms(1) by (simp add: uefi_inv_def)
  have b: "length (img w) < 2 ^ 63" using dev_okD(4) [OF D e(9)] e(10) by simp
  define m where "m = Media fw bio w1"
  have m: "BlockSize m = 512" using dev_okD(3) [OF D e(9)] by (simp add: m_def)
  note sz = IMG_SIZE_run [OF e(3) b m]
  note at = at_offset_words [OF assms(3) [unfolded e(5)] e(6)]
  have pos: "pos \<le> entry_bytes e" using assms(3) e(5) by (simp add: at_offset_def)
  have k: "k \<le> unat n" "pos + k \<le> entry_bytes e" "k < 2 ^ 63" using assms(4) e(5,6) pos by auto
  have "of_nat (entry_bytes e - pos) < n \<longleftrightarrow> entry_bytes e - pos < unat n"
    using e(6) by (simp add: word_less_nat_alt unat_of_nat_63)
  then have "(if of_nat (entry_bytes e - pos) < n then of_nat (entry_bytes e - pos) else n) = of_nat k"
    using assms(4) e(5) by auto
  then have out: "(if of_nat (entry_bytes e) - of_nat pos < n
      then of_nat (entry_bytes e) - of_nat pos else n) = (of_nat k :: u64)"
    by (simp only: at(3))
  have adr: "of_nat (entry_start e) + of_nat pos = (of_nat (entry_start e + pos) :: u64)" by simp
  have uns: "unat (of_nat (entry_start e + pos) :: u64) = entry_start e + pos" "unat (of_nat k :: u64) = k"
    using sz(3) b pos k(3) by (simp_all only: unat_of_nat_63)
  obtain err w2 where w2: "read_disk fw dio (MediaId m) (of_nat (entry_start e + pos)) (of_nat k) buf w1 =
      (Inr (err, blit 0 (chunk (entry_start e + pos) k (img w)) buf), w2)" "\<not> EFI_ERROR err"
    "live w2 = live w1" "good w2" "img w2 = img w"
    using good_read_disk [OF D e(9), of "of_nat (entry_start e + pos)" "of_nat k" buf "MediaId m"]
      uns k sz(3) assms(5) e(10) by (auto simp: keeps_def)
  have ch: "chunk (entry_start e + pos) k (img w) = chunk pos k c"
    using chunk_chunk [OF k(2), of "entry_start e" "img w"] e(4) by simp
  obtain w3 where w3: "bub_free fw p w2 = (Inr (), w3)" "live w3 = live w2 - {p}" "good w3" "img w3 = img w"
    using good_free [OF D w2(4), of p] w2(3,5) e(7) by (auto simp: keeps_def)
  have "bub_read_from_partition fw bio dio name buf off n w =
      (Inr (BUB_IO_RESULT_OK, blit 0 (chunk pos k c) buf, Some (of_nat k)), w3)"
    using e(1,2) w2(1,2) w3(1)
    by (simp only: bub_read_from_partition_def media_of_def Let_def bnd_Inr prod.case
        EFI_SUCCESS_no_error if_False sz(1,2) at(1,2) out adr ch ret_run flip: m_def)
  with w2 w3 e(8) show ?thesis by auto
qed

text \<open>Writing behind the table leaves the table alone.\<close>

lemma table_unchanged:
  assumes "34 * 512 \<le> off" "off + length bs \<le> length img"
  shows "gpt_header_at (blit off bs img) = gpt_header_at img"
    and "i < 128 \<Longrightarrow> gpt_entry_at (blit off bs img) i = gpt_entry_at img i"
  using assms by (simp_all add: gpt_header_at_def gpt_entry_at_def chunk_blit_before)

lemma gpt_lookup_unchanged:
  assumes "34 * 512 \<le> off" "off + length bs \<le> length img" "unat (entry_count (gpt_header_at img)) \<le> 128"
  shows "gpt_index (blit off bs img) = gpt_index img" "gpt_lookup (blit off bs img) = gpt_lookup img"
proof -
  note same = table_unchanged [OF assms(1,2)]
  show 1: "gpt_index (blit off bs img) = gpt_index img"
    unfolding gpt_index_def same(1) fun_eq_iff
    by (intro allI find_cong) (use same(2) assms(3) in auto)
  have "gpt_entry_at (blit off bs img) i = gpt_entry_at img i" if "gpt_index img name = Some i" for name i
    using gpt_index_SomeD [OF that] same(2) assms(3) by auto
  then show "gpt_lookup (blit off bs img) = gpt_lookup img"
    by (auto simp: gpt_lookup_def 1 fun_eq_iff intro: map_option_cong)
qed

lemma disk_ok_unchanged:
  assumes "34 * 512 \<le> off" "off + length bs \<le> length img" "disk_ok img"
  shows "disk_ok (blit off bs img)"
proof -
  have c: "unat (entry_count (gpt_header_at img)) \<le> 128" "34 * 512 \<le> length img"
    using assms(3) by (simp_all add: disk_ok_def table_ok_def)
  note same = table_unchanged [OF assms(1,2)] gpt_lookup_unchanged [OF assms(1,2) c(1)]
  have e: "gpt_entry_at (blit off bs img) i = gpt_entry_at img i"
    if "i < unat (entry_count (gpt_header_at img))" for i
    using same(2) that c(1) by simp
  have ok: "entry_ok (blit off bs img) = entry_ok img"
    using assms(2) by (simp add: fun_eq_iff entry_ok_def)
  show ?thesis
    using assms(3) same e ok c assms(2) by (auto simp: disk_ok_def table_ok_def list_all_iff)
qed

lemma uefi_write_run:
  assumes "uefi_inv fw bio dio live img good w" "uefi_part img w name = Some c"
    and "at_offset (length c) off pos" "pos + unat n \<le> length c" "unat n \<le> length buf"
  shows "\<exists>e w'. gpt_lookup (img w) name = Some e \<and>
    bub_write_to_partition fw bio dio name buf off n w = (Inr BUB_IO_RESULT_OK, w') \<and>
    good w' \<and> live w' = live w \<and> entry_ok (img w) e \<and>
    c = chunk (entry_start e) (entry_bytes e) (img w) \<and> length c = entry_bytes e \<and>
    img w' = blit (entry_start e + pos) (take (unat n) buf) (img w)"
proof -
  obtain e p mem w1 where e: "bub_partition_entry_by_name fw bio name w = (Inr (EFI_SUCCESS, p, mem), w1)"
    "gpt_entry_of mem = e" "entry_ok (img w) e" "c = chunk (entry_start e) (entry_bytes e) (img w)"
    "length c = entry_bytes e" "entry_bytes e < 2 ^ 63" "p \<in> live w1" "live w1 - {p} = live w"
    "good w1" "img w1 = img w" "gpt_lookup (img w) name = Some e"
    by (rule uefi_entry [OF assms(1,2)])
  have D: "dev_ok fw bio dio live img good" using assms(1) by (simp add: uefi_inv_def)
  have b: "length (img w) < 2 ^ 63" using dev_okD(4) [OF D e(9)] e(10) by simp
  define m where "m = Media fw bio w1"
  have m: "BlockSize m = 512" using dev_okD(3) [OF D e(9)] by (simp add: m_def)
  note sz = IMG_SIZE_run [OF e(3) b m]
  note at = at_offset_words [OF assms(3) [unfolded e(5)] e(6)]
  have "unat (of_nat (entry_bytes e - pos) :: u64) = entry_bytes e - pos"
    using e(6) by (simp only: unat_of_nat_63 less_imp_diff_less)
  then have "\<not> of_nat (entry_bytes e - pos) < n"
    using assms(4) e(5) by (simp only: word_less_nat_alt)
  then have fits: "\<not> of_nat (entry_bytes e) - of_nat pos < n" by (simp only: at(3) not_False_eq_True)
  have adr: "of_nat (entry_start e) + of_nat pos = (of_nat (entry_start e + pos) :: u64)" by simp
  have "entry_start e + pos < 2 ^ 63" using sz(3) b assms(4) e(5) by simp
  then have uns: "unat (of_nat (entry_start e + pos) :: u64) = entry_start e + pos"
    by (simp only: unat_of_nat_63)
  obtain err w2 where w2: "write_disk fw dio (MediaId m) (of_nat (entry_start e + pos)) n buf w1 =
      (Inr err, w2)" "\<not> EFI_ERROR err" "live w2 = live w1" "good w2"
    "img w2 = blit (entry_start e + pos) (take (unat n) buf) (img w)"
    using good_write_disk [OF D e(9), of "of_nat (entry_start e + pos)" n buf "MediaId m"]
      uns sz(3) assms(4,5) e(5,10) by auto
  obtain w3 where w3: "bub_free fw p w2 = (Inr (), w3)" "live w3 = live w2 - {p}" "good w3"
    "img w3 = blit (entry_start e + pos) (take (unat n) buf) (img w)"
    using good_free [OF D w2(4), of p] w2(3,5) e(7) by (auto simp: keeps_def)
  have "bub_write_to_partition fw bio dio name buf off n w = (Inr BUB_IO_RESULT_OK, w3)"
    using e(1,2) w2(1,2) w3(1)
    by (simp only: bub_write_to_partition_def media_of_def Let_def bnd_Inr prod.case
        EFI_SUCCESS_no_error if_False sz(1,2) at(1,2) fits adr ret_run flip: m_def)
  with w2 w3 e show ?thesis by auto
qed

section \<open>The firmware fulfils the contract\<close>

lemma blit_in_chunk:
  assumes "start + n \<le> length xs" "pos + length bs \<le> n"
  shows "chunk start n (blit (start + pos) bs xs) = blit pos bs (chunk start n xs)"
proof -
  have 1: "drop start (blit (start + pos) bs xs) =
      take pos (drop start xs) @ bs @ drop (pos + length bs) (drop start xs)"
    using assms by (simp add: blit_def drop_take add.commute add.left_commute)
  have "n = pos \<and> bs = [] \<or> pos < n" using assms(2) by (cases bs) auto
  then have 2: "take n (take pos ys @ bs @ drop (pos + length bs) ys) =
      take pos (take n ys) @ bs @ drop (pos + length bs) (take n ys)" if "n \<le> length ys" for ys
    using assms(2) that by (auto simp: drop_take min_def)
  have "n \<le> length (drop start xs)" using assms(1) by simp
  from 2 [OF this] show ?thesis
    by (simp only: chunk_def 1) (simp only: blit_def)
qed

lemma at_offset_of_nat: "pos \<le> n \<Longrightarrow> n < 2 ^ 63 \<Longrightarrow> at_offset n (of_nat pos) pos"
  by (simp add: at_offset_def signed_of_nat signed_take_bit_int_eq_self)

lemma uefi_part_length:
  assumes "uefi_inv fw bio dio live img good w" "uefi_part img w name = Some c"
  shows "length c < 2 ^ 63"
  by (rule uefi_entry [OF assms]) simp

lemma uefi_print:
  assumes "uefi_inv fw bio dio live img good w" "console_msg m"
  shows "\<exists>w'. bub_print fw m w = (Inr (), w') \<and> uefi_inv fw bio dio live img good w' \<and>
    live w' = live w \<and> img w' = img w"
  using good_print [of fw bio dio live img good w m] assms by (auto simp: uefi_inv_def keeps_def)

interpretation uefi: ab_store "uefi_ops fw bio dio" "uefi_part img" "uefi_inv fw bio dio live img good" "bub_print fw"
  for fw :: "'w efi" and bio dio live img good
proof
  fix w name c
  assume "uefi_inv fw bio dio live img good w" "uefi_part img w name = Some c"
  then show "length c < 2 ^ 63" by (rule uefi_part_length)
next
  fix w name c and off n :: nat and buf :: "byte list"
  assume inv: "uefi_inv fw bio dio live img good w" and part: "uefi_part img w name = Some c"
    and fit: "off + n \<le> length c" and buf: "length buf = n"
  have c: "length c < 2 ^ 63" by (rule uefi_part_length [OF inv part])
  then have un: "unat (of_nat n :: u64) = n" using fit by (simp only: unat_of_nat_63)
  have at: "at_offset (length c) (of_nat off) off"
    by (rule at_offset_of_nat) (use fit c in simp_all)
  have k: "n = min (unat (of_nat n :: u64)) (length c - off)" using un fit by simp
  obtain w' where w': "bub_read_from_partition fw bio dio name buf (of_nat off) (of_nat n) w =
      (Inr (BUB_IO_RESULT_OK, blit 0 (chunk off n c) buf, Some (of_nat n)), w')"
    "good w'" "img w' = img w" "live w' = live w"
    using uefi_read_run [OF inv part at k] buf by auto
  have "uefi_inv fw bio dio live img good w'"
    using inv w' by (simp add: uefi_inv_def)
  moreover have "uefi_part img w' = uefi_part img w"
    using w'(3) by (simp add: uefi_part_def fun_eq_iff)
  ultimately show "\<exists>w'. read_from_partition (uefi_ops fw bio dio) name buf (of_nat off) (of_nat n) w =
      (Inr (BUB_IO_RESULT_OK, chunk off n c, Some (of_nat n)), w') \<and>
      uefi_inv fw bio dio live img good w' \<and> uefi_part img w' = uefi_part img w"
    using w'(1) buf fit by (auto simp: uefi_ops_def)
next
  fix w name c and off :: nat and buf :: "byte list"
  assume inv: "uefi_inv fw bio dio live img good w" and part: "uefi_part img w name = Some c"
    and fit: "off + length buf \<le> length c"
  have c: "length c < 2 ^ 63" by (rule uefi_part_length [OF inv part])
  then have un: "unat (of_nat (length buf) :: u64) = length buf" using fit by (simp only: unat_of_nat_63)
  have at: "at_offset (length c) (of_nat off) off"
    by (rule at_offset_of_nat) (use fit c in simp_all)
  obtain e w' where w': "gpt_lookup (img w) name = Some e"
    "bub_write_to_partition fw bio dio name buf (of_nat off) (of_nat (length buf)) w =
      (Inr BUB_IO_RESULT_OK, w')" "good w'" "live w' = live w" "entry_ok (img w) e"
    "c = chunk (entry_start e) (entry_bytes e) (img w)" "length c = entry_bytes e"
    "img w' = blit (entry_start e + off) buf (img w)"
    using uefi_write_run [OF inv part at, of "of_nat (length buf)" buf] un fit by auto
  have D: "dev_ok fw bio dio live img good" "good w" "disk_ok (img w)"
    using inv by (simp_all add: uefi_inv_def)
  have b: "length (img w) < 2 ^ 63" by (rule dev_okD(4) [OF D(1,2)])
  have g: "entry_start e + entry_bytes e \<le> length (img w)" "34 * 512 \<le> entry_start e"
    using IMG_SIZE_run(3,4) [OF w'(5) b, of "Media fw bio w"] dev_okD(3) [OF D(1,2)] by simp_all
  have inside: "34 * 512 \<le> entry_start e + off" "entry_start e + off + length buf \<le> length (img w)"
    using g fit w'(7) by simp_all
  have n: "unat (entry_count (gpt_header_at (img w))) \<le> 128"
    using D(3) by (simp add: disk_ok_def table_ok_def)
  have "uefi_inv fw bio dio live img good w'"
    using inv w'(3,4,8) disk_ok_unchanged [OF inside D(3)] by (simp add: uefi_inv_def)
  moreover have "uefi_part img w' name = Some (blit off buf c)"
    using part w'(1,6,8) gpt_lookup_unchanged(2) [OF inside n] blit_in_chunk [OF g(1), of off buf] fit w'(7)
    by (simp add: uefi_part_def split: if_splits)
  ultimately show "\<exists>w'. write_to_partition (uefi_ops fw bio dio) name buf (of_nat off) (of_nat (length buf)) w =
      (Inr BUB_IO_RESULT_OK, w') \<and> uefi_inv fw bio dio live img good w' \<and>
      uefi_part img w' name = Some (blit off buf c)"
    using w'(2) by (auto simp: uefi_ops_def)
next
  fix w
  assume inv: "uefi_inv fw bio dio live img good w"
  have "name_ok misc"
    by (simp add: name_ok_def misc_def cstr_def chars_def)
  moreover obtain e where e: "gpt_lookup (img w) misc = Some e" "64 \<le> entry_bytes e"
    using inv by (auto simp: uefi_inv_def disk_ok_def split: option.splits)
  ultimately have part: "uefi_part img w misc = Some (chunk (entry_start e) (entry_bytes e) (img w))"
    by (simp add: uefi_part_def)
  have "length (chunk (entry_start e) (entry_bytes e) (img w)) = entry_bytes e"
    by (rule uefi_entry [OF inv part]) (use e(1) in simp)
  with part e(2) show "\<exists>c. uefi_part img w misc = Some c \<and> 64 \<le> length c" by auto
next
  fix w m
  assume "uefi_inv fw bio dio live img good w" "console_msg m"
  from uefi_print [OF this]
  show "\<exists>w'. bub_print fw m w = (Inr (), w') \<and> uefi_inv fw bio dio live img good w' \<and>
      uefi_part img w' = uefi_part img w"
    by (auto simp: uefi_part_def fun_eq_iff)
qed

section \<open>The frame of the A/B operations\<close>

text \<open>
  The A/B logic only touches the misc partition. In the view that shows nothing else the provider
  also keeps, from a reference state \<open>w0\<close> on, the live blocks, the partition table and every byte
  outside misc.
\<close>

definition misc_only :: "('w \<Rightarrow> byte list) \<Rightarrow> 'w \<Rightarrow> byte list \<Rightarrow> byte list option" where
  "misc_only img w name = (if name = misc then uefi_part img w misc else None)"

definition outside :: "GPTEntry \<Rightarrow> nat \<Rightarrow> nat \<Rightarrow> bool" where
  "outside e off n \<longleftrightarrow> off + n \<le> entry_start e \<or> entry_start e + entry_bytes e \<le> off"

definition framed ::
    "'w efi \<Rightarrow> ptr \<Rightarrow> ptr \<Rightarrow> ('w \<Rightarrow> ptr set) \<Rightarrow> ('w \<Rightarrow> byte list) \<Rightarrow> ('w \<Rightarrow> bool) \<Rightarrow> 'w \<Rightarrow> 'w \<Rightarrow> bool" where
  "framed fw bio dio live img good w0 w \<longleftrightarrow> uefi_inv fw bio dio live img good w \<and>
     live w = live w0 \<and> gpt_lookup (img w) = gpt_lookup (img w0) \<and>
     (\<forall>e off n. gpt_lookup (img w0) misc = Some e \<longrightarrow> outside e off n \<longrightarrow>
        chunk off n (img w) = chunk off n (img w0))"

lemma framed_refl: "uefi_inv fw bio dio live img good w \<Longrightarrow> framed fw bio dio live img good w w"
  by (simp add: framed_def)

lemma framed_part:
  assumes "framed fw bio dio live img good w0 w" "gpt_lookup (img w0) misc = Some e"
    and "gpt_lookup (img w0) name = Some f" "outside e (entry_start f) (entry_bytes f)"
  shows "uefi_part img w name = uefi_part img w0 name"
  using assms by (simp add: framed_def uefi_part_def)

lemma misc_image_only [simp]: "misc_image (misc_only img) = misc_image (uefi_part img)"
  by (simp add: misc_image_def misc_only_def fun_eq_iff)

interpretation uefi_frame: ab_store "uefi_ops fw bio dio" "misc_only img"
    "framed fw bio dio live img good w0" "bub_print fw"
  for fw :: "'w efi" and bio dio live img good w0
proof
  fix w name c
  assume "framed fw bio dio live img good w0 w" "misc_only img w name = Some c"
  then show "length c < 2 ^ 63"
    using uefi_part_length by (auto simp: framed_def misc_only_def split: if_splits)
next
  fix w name c and off n :: nat and buf :: "byte list"
  assume fr: "framed fw bio dio live img good w0 w" and part: "misc_only img w name = Some c"
    and fit: "off + n \<le> length c" and buf: "length buf = n"
  have inv: "uefi_inv fw bio dio live img good w" using fr by (simp add: framed_def)
  have mp: "name = misc" "uefi_part img w misc = Some c"
    using part by (auto simp: misc_only_def split: if_splits)
  have c: "length c < 2 ^ 63" by (rule uefi_part_length [OF inv mp(2)])
  then have un: "unat (of_nat n :: u64) = n" using fit by (simp only: unat_of_nat_63)
  have at: "at_offset (length c) (of_nat off) off"
    by (rule at_offset_of_nat) (use fit c in simp_all)
  have k: "n = min (unat (of_nat n :: u64)) (length c - off)" using un fit by simp
  obtain w' where w': "bub_read_from_partition fw bio dio misc buf (of_nat off) (of_nat n) w =
      (Inr (BUB_IO_RESULT_OK, blit 0 (chunk off n c) buf, Some (of_nat n)), w')"
    "good w'" "img w' = img w" "live w' = live w"
    using uefi_read_run [OF inv mp(2) at k] buf by auto
  have "uefi_inv fw bio dio live img good w'"
    using inv w'(2-4) by (simp add: uefi_inv_def)
  then have "framed fw bio dio live img good w0 w'"
    using fr w'(3,4) by (simp add: framed_def)
  moreover have "misc_only img w' = misc_only img w"
    using w'(3) by (simp add: misc_only_def uefi_part_def fun_eq_iff)
  ultimately show "\<exists>w'. read_from_partition (uefi_ops fw bio dio) name buf (of_nat off) (of_nat n) w =
      (Inr (BUB_IO_RESULT_OK, chunk off n c, Some (of_nat n)), w') \<and>
      framed fw bio dio live img good w0 w' \<and> misc_only img w' = misc_only img w"
    using w'(1) buf fit mp(1) by (auto simp: uefi_ops_def)
next
  fix w name c and off :: nat and buf :: "byte list"
  assume fr: "framed fw bio dio live img good w0 w" and part: "misc_only img w name = Some c"
    and fit: "off + length buf \<le> length c"
  have inv: "uefi_inv fw bio dio live img good w" using fr by (simp add: framed_def)
  have mp: "name = misc" "uefi_part img w misc = Some c"
    using part by (auto simp: misc_only_def split: if_splits)
  have c: "length c < 2 ^ 63" by (rule uefi_part_length [OF inv mp(2)])
  then have un: "unat (of_nat (length buf) :: u64) = length buf" using fit by (simp only: unat_of_nat_63)
  have at: "at_offset (length c) (of_nat off) off"
    by (rule at_offset_of_nat) (use fit c in simp_all)
  obtain w' where w': "write_to_partition (uefi_ops fw bio dio) misc buf (of_nat off) (of_nat (length buf)) w =
      (Inr BUB_IO_RESULT_OK, w')" "uefi_inv fw bio dio live img good w'"
    "uefi_part img w' misc = Some (blit off buf c)"
    using uefi.write_inside [OF inv mp(2) fit] by auto
  obtain e w2 where e: "gpt_lookup (img w) misc = Some e"
    "bub_write_to_partition fw bio dio misc buf (of_nat off) (of_nat (length buf)) w =
      (Inr BUB_IO_RESULT_OK, w2)" "live w2 = live w" "entry_ok (img w) e" "length c = entry_bytes e"
    "img w2 = blit (entry_start e + off) buf (img w)"
    using uefi_write_run [OF inv mp(2) at, of "of_nat (length buf)" buf] un fit by auto
  have w2: "w2 = w'" using e(2) w'(1) by (simp add: uefi_ops_def)
  have D: "dev_ok fw bio dio live img good" "good w" "disk_ok (img w)"
    using inv by (simp_all add: uefi_inv_def)
  have b: "length (img w) < 2 ^ 63" by (rule dev_okD(4) [OF D(1,2)])
  have g: "entry_start e + entry_bytes e \<le> length (img w)" "34 * 512 \<le> entry_start e"
    using IMG_SIZE_run(3,4) [OF e(4) b, of "Media fw bio w"] dev_okD(3) [OF D(1,2)] by simp_all
  have inside: "34 * 512 \<le> entry_start e + off" "entry_start e + off + length buf \<le> length (img w)"
    using g fit e(5) by simp_all
  have n: "unat (entry_count (gpt_header_at (img w))) \<le> 128"
    using D(3) by (simp add: disk_ok_def table_ok_def)
  have e0: "gpt_lookup (img w0) misc = Some e" using fr e(1) by (simp add: framed_def)
  have "chunk i m (img w') = chunk i m (img w)" if "outside e i m" for i m
    using that inside fit e(5,6) w2 by (auto simp: outside_def chunk_blit_before chunk_blit_after)
  then have "framed fw bio dio live img good w0 w'"
    using fr w'(2) e(3,6) w2 e0 gpt_lookup_unchanged(2) [OF inside n] by (simp add: framed_def)
  then show "\<exists>w'. write_to_partition (uefi_ops fw bio dio) name buf (of_nat off) (of_nat (length buf)) w =
      (Inr BUB_IO_RESULT_OK, w') \<and> framed fw bio dio live img good w0 w' \<and>
      misc_only img w' name = Some (blit off buf c)"
    using w' mp(1) by (auto simp: misc_only_def)
next
  fix w
  assume "framed fw bio dio live img good w0 w"
  then have "uefi_inv fw bio dio live img good w" by (simp add: framed_def)
  from uefi.misc_present [OF this] show "\<exists>c. misc_only img w misc = Some c \<and> 64 \<le> length c"
    by (simp add: misc_only_def)
next
  fix w m
  assume fr: "framed fw bio dio live img good w0 w" and m: "console_msg m"
  then have "uefi_inv fw bio dio live img good w" by (simp add: framed_def)
  from uefi_print [OF this m] fr
  show "\<exists>w'. bub_print fw m w = (Inr (), w') \<and> framed fw bio dio live img good w0 w' \<and>
      misc_only img w' = misc_only img w"
    by (auto simp: framed_def misc_only_def uefi_part_def fun_eq_iff)
qed

end
