(* ===== verification/Bub_BootKernel.thy ===== *)
theory Bub_BootKernel
  imports Bub_Ops_Uefi
begin

text \<open>
  \<open>bub_boot_kernel.c\<close>: finding the boot disk, initialising the loader's object and loading and
  starting a kernel from a boot partition. The statements under \<open>BUB_ENABLE_DEBUG\<close>, which only
  print, are left out.
\<close>

section \<open>The boot image header\<close>

definition BOOT_MAGIC :: "byte list" where
  "BOOT_MAGIC = map (\<lambda>c. of_nat (of_char c)) ''ANDROID!''"
definition BOOT_ARGS_SIZE :: nat where "BOOT_ARGS_SIZE = 512"
definition BOOT_HDR_SIZE :: nat where "BOOT_HDR_SIZE = 1632"

record boot_img_hdr =
  boot_magic :: "byte list"
  kernel_size :: u32
  kernel_addr :: u32
  ramdisk_size :: u32
  ramdisk_addr :: u32
  second_size :: u32
  second_addr :: u32
  tags_addr :: u32
  page_size :: u32
  hdr_unused :: u32
  os_version :: u32
  boot_product :: "byte list"
  cmdline :: "byte list"
  boot_id :: "byte list"
  extra_cmdline :: "byte list"

definition boot_hdr_of :: "byte list \<Rightarrow> boot_img_hdr" where
  "boot_hdr_of bs = \<lparr>boot_magic = chunk 0 8 bs, kernel_size = le_val (chunk 8 4 bs),
     kernel_addr = le_val (chunk 12 4 bs), ramdisk_size = le_val (chunk 16 4 bs),
     ramdisk_addr = le_val (chunk 20 4 bs), second_size = le_val (chunk 24 4 bs),
     second_addr = le_val (chunk 28 4 bs), tags_addr = le_val (chunk 32 4 bs),
     page_size = le_val (chunk 36 4 bs), hdr_unused = le_val (chunk 40 4 bs),
     os_version = le_val (chunk 44 4 bs), boot_product = chunk 48 16 bs, cmdline = chunk 64 512 bs,
     boot_id = chunk 576 32 bs, extra_cmdline = chunk 608 1024 bs\<rparr>"

datatype BubBootResult =
    BUB_BOOT_RESULT_OK
  | BUB_BOOT_ERROR_OOM
  | BUB_BOOT_ERROR_IO
  | BUB_BOOT_ERROR_PARTITION_INVALID_FORMAT
  | BUB_BOOT_ERROR_LOAD_KERNEL
  | BUB_BOOT_ERROR_PARAMETER_LOAD
  | BUB_BOOT_ERROR_START_KERNEL

record 'w MyBubOps =
  parent :: "'w BubOps"
  efi_image_handle :: handle
  efi_path :: ptr
  block_io :: ptr
  disk_io :: ptr

section \<open>Finding the boot disk\<close>

text \<open>
  \<open>init\<close> is the list of the nodes of the initial device path, \<open>k\<close> the index of the node \<open>walker\<close>
  points to; the nodes before the one after it are copied and an end node is appended.
\<close>

definition walk_path ::
    "'w efi \<Rightarrow> byte list list \<Rightarrow> nat \<Rightarrow> ('w, EFI_STATUS \<times> ptr \<times> byte list \<times> u64) io" where
  "walk_path fw init k =
     (let prefix = concat (take (Suc k) init);
          walker_bytes = length prefix;
          out_bytes = of_nat (4 + walker_bytes) in
      bnd (bub_malloc fw out_bytes) (\<lambda>(next, mem).
      if next = 0 then ret (EFI_NOT_FOUND, 0, [], 0)
      else
        bnd (pure (bub_memcpy mem 0 prefix walker_bytes)) (\<lambda>mem.
        bnd (pure (bub_memcpy mem walker_bytes (EndDevicePath fw) 4)) (\<lambda>mem.
        ret (EFI_SUCCESS, next, mem, out_bytes)))))"

text \<open>
  One turn of the loop of \<open>getDiskBlockIo\<close>, at node \<open>k\<close>: the path could not be built, the loop goes
  on, or a disk with a valid partition table was found. \<open>LocateDevicePath\<close> moves the path pointers
  it is given, and the moved pointers are the ones that are released. \<open>hdr\<close> is the memory of the
  local header.
\<close>

datatype probe = Walk_Error | Continue | Disk ptr ptr ptr

text \<open>The body of every \<open>continue\<close>: a warning, and the two paths are released.\<close>

definition skip_node ::
    "'w efi \<Rightarrow> string \<Rightarrow> ptr \<Rightarrow> ptr \<Rightarrow> byte list \<Rightarrow> ('w, probe \<times> byte list) io" where
  "skip_node fw msg io_path disk_path hdr =
     bnd (efi_warning fw msg) (\<lambda>_.
     bnd (bub_frees fw [io_path, disk_path]) (\<lambda>_. ret (Continue, hdr)))"

definition probe_node ::
    "'w efi \<Rightarrow> byte list list \<Rightarrow> nat \<Rightarrow> byte list \<Rightarrow> ('w, probe \<times> byte list) io" where
  "probe_node fw init k hdr =
     bnd (walk_path fw init k) (\<lambda>(err, io_path, io_mem, path_bytes).
     if EFI_ERROR err
     then bnd (efi_warning fw (''Cannot walk device path.'' @ nl)) (\<lambda>_. ret (Walk_Error, hdr))
     else
     bnd (bub_malloc fw path_bytes) (\<lambda>(disk_path, disk_mem).
     bnd (if disk_path = 0 then fail Null_Deref
          else pure (bub_memcpy disk_mem 0 io_mem (unat path_bytes))) (\<lambda>disk_mem.
     bnd (call (LocateDevicePath fw BlockIoProtocol io_path io_mem)) (\<lambda>(err, io_path, block_handle).
     if EFI_ERROR err then skip_node fw (''LocateDevicePath, BLOCK_IO_PROTOCOL.'' @ nl) io_path disk_path hdr
     else
     bnd (call (LocateDevicePath fw DiskIoProtocol disk_path disk_mem)) (\<lambda>(err, disk_path, disk_handle).
     if EFI_ERROR err then skip_node fw (''LocateDevicePath, DISK_IO_PROTOCOL.'' @ nl) io_path disk_path hdr
     else
     bnd (call (HandleProtocol fw block_handle BlockIoProtocol)) (\<lambda>(err, bio).
     if EFI_ERROR err then skip_node fw (''Cannot get handle on block device.'' @ nl) io_path disk_path hdr
     else
     bnd (call (HandleProtocol fw disk_handle DiskIoProtocol)) (\<lambda>(err, dio).
     if EFI_ERROR err then skip_node fw (''Cannot get handle on disk device.'' @ nl) io_path disk_path hdr
     else
     bnd (media_of fw bio) (\<lambda>m.
     if LogicalPartition m \<or> \<not> MediaPresent m
     then skip_node fw (''Logical partion or No Media Present, continue...'' @ nl) io_path disk_path hdr
     else
     bnd (read_blocks fw bio 1 512 hdr) (\<lambda>(err, hdr).
     if EFI_ERROR err then skip_node fw (''ReadBlocks, Block Media error.'' @ nl) io_path disk_path hdr
     else
     bnd (validate_gpt fw (gpth_of hdr)) (\<lambda>err.
     if EFI_ERROR err then skip_node fw (''Invalid GPTHeader'' @ nl) io_path disk_path hdr
     else ret (Disk bio dio io_path, hdr)))))))))))"

text \<open>The loop; \<open>k\<close> is the index of \<open>walker_path\<close>. A path without an end node is walked over its end.\<close>

function disk_loop ::
    "'w efi \<Rightarrow> byte list list \<Rightarrow> nat \<Rightarrow> byte list \<Rightarrow> ('w, (ptr \<times> ptr \<times> ptr) option) io" where
  "disk_loop fw init k hdr =
     (if length init \<le> k then fail Oob_Read
      else if IsDevicePathEnd fw (init ! k) then ret None
      else if length init \<le> Suc k then fail Oob_Read
      else
        bnd (probe_node fw init (Suc k) hdr) (\<lambda>(r, hdr).
        case r of
          Walk_Error \<Rightarrow> ret None
        | Continue \<Rightarrow> disk_loop fw init (Suc k) hdr
        | Disk bio dio io_path \<Rightarrow> ret (Some (bio, dio, io_path))))"
  by pat_completeness auto
termination
  by (relation "measure (\<lambda>(fw, init, k, hdr). length init - k)") auto

declare disk_loop.simps [simp del]

text \<open>\<open>None\<close> stands for \<open>EFI_NOT_FOUND\<close>, with which no output is used.\<close>

definition getDiskBlockIo :: "'w efi \<Rightarrow> handle \<Rightarrow> ('w, (ptr \<times> ptr \<times> ptr) option) io" where
  "getDiskBlockIo fw block_handle w =
     (case DevicePathFromHandle fw block_handle w of
        None \<Rightarrow> ret None w
      | Some init_path \<Rightarrow> disk_loop fw init_path 0 (replicate 512 0) w)"

text \<open>\<open>None\<close> stands for the return value 0, a failure.\<close>

definition bub_init :: "'w efi \<Rightarrow> handle \<Rightarrow> ('w, 'w MyBubOps option) io" where
  "bub_init fw app_image =
     bnd (call (HandleProtocol fw app_image LOADED_IMAGE_PROTOCOL)) (\<lambda>(err, loaded_app_image).
     if EFI_ERROR err
     then bnd (efi_warning fw (''HandleProtocol, LOADED_IMAGE_PROTOCOL.'' @ nl)) (\<lambda>_. ret None)
     else
     bnd (\<lambda>w. (Inr (LoadedImageDevice fw loaded_app_image w), w)) (\<lambda>device.
     bnd (getDiskBlockIo fw device) (\<lambda>found.
     case found of
       None \<Rightarrow>
         bnd (efi_warning fw (''Could not acquire block or disk device handle.'' @ nl)) (\<lambda>_. ret None)
     | Some (bio, dio, io_path) \<Rightarrow>
         ret (Some \<lparr>parent = uefi_ops fw bio dio, efi_image_handle = app_image, efi_path = io_path,
                    block_io = bio, disk_io = dio\<rparr>))))"

section \<open>Loading and starting a kernel\<close>

text \<open>
  The copy of the command line into the 512 units of \<open>LoadOptions\<close>, up to its NUL: the number of
  characters and the new contents. Neither array is accessed outside its bounds.
\<close>

fun copy_cmdline :: "byte list \<Rightarrow> nat \<Rightarrow> u16 list \<Rightarrow> fault + (nat \<times> u16 list)" where
  "copy_cmdline [] i opts = Inl Oob_Read"
| "copy_cmdline (c # cs) i opts =
     (if length opts \<le> i then Inl Oob_Write
      else if c = 0 then Inr (i, opts[i := 0])
      else copy_cmdline cs (Suc i) (opts[i := ucast c]))"

definition LoadParameters :: "'w efi \<Rightarrow> handle \<Rightarrow> boot_img_hdr \<Rightarrow> ('w, EFI_STATUS) io" where
  "LoadParameters fw kernel_image image_header =
     bnd (call (HandleProtocol fw kernel_image LOADED_IMAGE_PROTOCOL)) (\<lambda>(err, loaded_image).
     if EFI_ERROR err
     then bnd (efi_warning fw (''Could not get loaded boot image'' @ nl)) (\<lambda>_. ret EFI_NOT_FOUND)
     else
     bnd (call (AllocatePool fw EfiLoaderData (of_nat (BOOT_ARGS_SIZE * 2)))) (\<lambda>(err, load_options, mem).
     if EFI_ERROR err
     then bnd (efi_warning fw (''Could not allocate for kernel parameters'' @ nl)) (\<lambda>_. ret EFI_NOT_FOUND)
     else
     bnd (pure (copy_cmdline (cmdline image_header) 0 (u16_list mem))) (\<lambda>(i, opts).
     bnd (\<lambda>w. (Inr (), SetLoadOptions fw loaded_image load_options opts (of_nat i * 2) w)) (\<lambda>_.
     ret EFI_SUCCESS))))"

text \<open>The end of \<open>bub_boot_kernel\<close>, once the kernel is in memory.\<close>

definition start_kernel ::
    "'w efi \<Rightarrow> 'w MyBubOps \<Rightarrow> boot_img_hdr \<Rightarrow> byte list \<Rightarrow> ('w, BubBootResult) io" where
  "start_kernel fw bub head kernel_mem =
     bnd (call (LoadImage fw (efi_image_handle bub) (efi_path bub) kernel_mem (ucast (kernel_size head))))
       (\<lambda>(err, kernel_image).
     if EFI_ERROR err
     then bnd (efi_warning fw (''Could not load kernel image.'' @ nl)) (\<lambda>_. ret BUB_BOOT_ERROR_LOAD_KERNEL)
     else
     bnd (LoadParameters fw kernel_image head) (\<lambda>err.
     if EFI_ERROR err then ret BUB_BOOT_ERROR_PARAMETER_LOAD
     else
     bnd (call (StartImage fw kernel_image)) (\<lambda>err.
     if EFI_ERROR err
     then bnd (efi_warning fw (''Could not start kernel image.'' @ nl)) (\<lambda>_. ret BUB_BOOT_ERROR_START_KERNEL)
     else ret BUB_BOOT_RESULT_OK)))"

text \<open>The checks of the header against the size of the partition.\<close>

definition boot_header_fits :: "'w efi \<Rightarrow> boot_img_hdr \<Rightarrow> u64 \<Rightarrow> ('w, bool) io" where
  "boot_header_fits fw head img_size =
     bnd (pure (bub_memcmp BOOT_MAGIC (boot_magic head) 8)) (\<lambda>differs.
     if differs \<noteq> 0 then
       bnd (efi_warning fw (''Wrong boot image header magic.'' @ nl)) (\<lambda>_. ret False)
     else if ucast (kernel_size head) > img_size then
       bnd (efi_warning fw (''Kernel size beyond allowed boundary.'' @ nl)) (\<lambda>_. ret False)
     else if ucast (page_size head) > img_size - of_nat BOOT_HDR_SIZE then
       bnd (efi_warning fw (''Page size too big.'' @ nl)) (\<lambda>_. ret False)
     else ret True)"

definition bub_boot_kernel :: "'w efi \<Rightarrow> 'w MyBubOps \<Rightarrow> byte list \<Rightarrow> ('w, BubBootResult) io" where
  "bub_boot_kernel fw bub boot_partition_name =
     bnd (call (AllocatePool fw EfiLoaderCode (of_nat BOOT_HDR_SIZE))) (\<lambda>(err, head_buf, head_mem).
     if EFI_ERROR err
     then bnd (efi_warning fw (''Could not allocate for kernel buffer.'' @ nl)) (\<lambda>_. ret BUB_BOOT_ERROR_OOM)
     else
     bnd (read_from_partition (parent bub) boot_partition_name head_mem 0 (of_nat BOOT_HDR_SIZE))
       (\<lambda>(io_result, head_mem, num_bytes_read).
     if io_result \<noteq> BUB_IO_RESULT_OK
     then bnd (efi_warning fw (''Could not read boot image header.'' @ nl)) (\<lambda>_. ret BUB_BOOT_ERROR_IO)
     else
     bnd (bub_partition_entry_by_name fw (block_io bub) boot_partition_name) (\<lambda>(err, entry, mem).
     if EFI_ERROR err
     then bnd (efi_warning fw (''Could not find boot partition GPT entry.'' @ nl)) (\<lambda>_. ret BUB_BOOT_ERROR_IO)
     else
     bnd (media_of fw (block_io bub)) (\<lambda>m.
     let head = boot_hdr_of head_mem in
     bnd (boot_header_fits fw head (IMG_SIZE (gpt_entry_of mem) m)) (\<lambda>fits.
     if \<not> fits then ret BUB_BOOT_ERROR_PARTITION_INVALID_FORMAT
     else
     bnd (call (AllocatePool fw EfiLoaderCode (ucast (kernel_size head)))) (\<lambda>(err, kernel_buf, kernel_mem).
     if EFI_ERROR err
     then bnd (efi_warning fw (''Could not allocate for kernel buffer.'' @ nl)) (\<lambda>_. ret BUB_BOOT_ERROR_OOM)
     else
     bnd (read_from_partition (parent bub) boot_partition_name kernel_mem (ucast (page_size head))
            (ucast (kernel_size head))) (\<lambda>(io_result, kernel_mem, num_bytes_read).
     if io_result \<noteq> BUB_IO_RESULT_OK
     then bnd (efi_warning fw (''Could not read kernel image.'' @ nl)) (\<lambda>_. ret BUB_BOOT_ERROR_IO)
     else start_kernel fw bub head kernel_mem)))))))"

section \<open>The command line\<close>

lemma copy_cmdline_run:
  assumes "0 \<notin> set s" "i + length s < length opts"
  shows "copy_cmdline (s @ 0 # rest) i opts =
    Inr (i + length s, take i opts @ map ucast s @ 0 # drop (Suc (i + length s)) opts)"
  using assms
proof (induction s arbitrary: i opts)
  case Nil
  then show ?case by (simp add: upd_conv_take_nth_drop)
next
  case (Cons c s)
  then have "copy_cmdline (s @ 0 # rest) (Suc i) (opts[i := ucast c]) =
      Inr (Suc i + length s, take (Suc i) (opts[i := ucast c]) @ map ucast s @
        0 # drop (Suc (Suc i + length s)) (opts[i := ucast c]))"
    by simp
  moreover have "take (Suc i) (opts[i := ucast c]) = take i opts @ [ucast c]"
    using Cons.prems(2) by (simp add: take_Suc_conv_app_nth)
  ultimately show ?case
    using Cons.prems by simp
qed

lemma copy_cmdline_unterminated:
  "0 \<notin> set s \<Longrightarrow> i + length s \<le> length opts \<Longrightarrow> copy_cmdline s i opts = Inl Oob_Read"
  by (induction s arbitrary: i opts) auto

section \<open>Loading on a working device\<close>

lemma good_alloc:
  assumes "dev_ok fw bio dio live img good" "good w" "few (live w) 16"
  shows "\<exists>err x mem w'. call (AllocatePool fw t n) w = (Inr (err, x, mem), w') \<and> \<not> EFI_ERROR err \<and>
    x \<notin> live w \<and> live w' = insert x (live w) \<and> length mem = unat n \<and> good w' \<and> img w' = img w"
proof -
  obtain err x mem w' where a: "AllocatePool fw t n w = ((err, x, mem), w')"
    by (metis surj_pair)
  have "\<not> EFI_ERROR err" "keeps good img w w'"
    using dev_okD(5,6) [OF assms(1) assms(2), of t n] assms(3) a by simp_all
  then show ?thesis
    using pool_ok_alloc [OF dev_okD(1) [OF assms(1)] a] a by (auto simp: call_def keeps_def)
qed

text \<open>What the checks amount to on a partition of \<open>n\<close> bytes that holds the header.\<close>

definition boot_image_ok :: "boot_img_hdr \<Rightarrow> nat \<Rightarrow> bool" where
  "boot_image_ok head n \<longleftrightarrow> boot_magic head = BOOT_MAGIC \<and> unat (kernel_size head) \<le> n \<and>
     unat (page_size head) \<le> n - BOOT_HDR_SIZE"

lemma length_BOOT_MAGIC [simp, layout_simps]: "length BOOT_MAGIC = 8"
  by (simp add: BOOT_MAGIC_def)

lemma boot_header_fits_run:
  assumes "dev_ok fw bio dio live img good" "good w"
    and "length (boot_magic head) = 8" "1632 \<le> n" "n < 2 ^ 63"
  shows "\<exists>w'. boot_header_fits fw head (of_nat n) w = (Inr (boot_image_ok head n), w') \<and>
    live w' = live w \<and> keeps good img w w'"
proof -
  have magic: "diff_bytes BOOT_MAGIC (boot_magic head) = 0 \<longleftrightarrow> boot_magic head = BOOT_MAGIC"
    using diff_bytes_eq_0_iff [of BOOT_MAGIC "boot_magic head"] assms(3) by auto
  have cmp: "bub_memcmp BOOT_MAGIC (boot_magic head) 8 = Inr (diff_bytes BOOT_MAGIC (boot_magic head))"
    using assms(3) by simp
  have sub: "of_nat n - of_nat BOOT_HDR_SIZE = (of_nat (n - BOOT_HDR_SIZE) :: u64)"
    using assms(4) by (simp add: BOOT_HDR_SIZE_def of_nat_diff)
  have "unat (of_nat (n - BOOT_HDR_SIZE) :: u64) = n - BOOT_HDR_SIZE" "unat (of_nat n :: u64) = n"
    using assms(5) by (simp_all only: unat_of_nat_63 less_imp_diff_less)
  then have lt: "(of_nat n :: u64) < ucast v \<longleftrightarrow> n < unat v"
    "(of_nat (n - BOOT_HDR_SIZE) :: u64) < ucast v \<longleftrightarrow> n - BOOT_HDR_SIZE < unat v" for v :: u32
    by (simp_all add: word_less_nat_alt)
  have warn: "\<exists>w'. bnd (efi_warning fw s) (\<lambda>_. ret False) w = (Inr False, w') \<and> live w' = live w \<and> keeps good img w w'"
    if "ascii_text s" for s
    using good_warning [OF assms(1,2) that] by auto
  have msgs: "ascii_text (''Wrong boot image header magic.'' @ nl)"
    "ascii_text (''Kernel size beyond allowed boundary.'' @ nl)" "ascii_text (''Page size too big.'' @ nl)"
    by (simp_all add: ascii_text_def)
  note warns = msgs [THEN warn]
  consider "boot_magic head \<noteq> BOOT_MAGIC"
    | "boot_magic head = BOOT_MAGIC" "n < unat (kernel_size head)"
    | "boot_magic head = BOOT_MAGIC" "\<not> n < unat (kernel_size head)" "n - BOOT_HDR_SIZE < unat (page_size head)"
    | "boot_magic head = BOOT_MAGIC" "\<not> n < unat (kernel_size head)" "\<not> n - BOOT_HDR_SIZE < unat (page_size head)"
    by blast
  then show ?thesis
  proof cases
    case 1
    then show ?thesis using warns(1) cmp magic by (simp add: boot_header_fits_def boot_image_ok_def)
  next
    case 2
    then show ?thesis using warns(2) cmp magic by (simp add: boot_header_fits_def boot_image_ok_def lt)
  next
    case 3
    then show ?thesis using warns(3) cmp magic by (simp add: boot_header_fits_def boot_image_ok_def lt sub)
  next
    case 4
    then show ?thesis
      using cmp magic assms(2) by (simp add: boot_header_fits_def boot_image_ok_def lt sub keeps_def not_less)
  qed
qed

lemma uefi_part_img: "img w' = img w \<Longrightarrow> uefi_part img w' = uefi_part img w"
  by (simp add: uefi_part_def fun_eq_iff)

text \<open>What an allocated block may hold before the program has written to it.\<close>

definition fresh_memory :: "'w efi \<Rightarrow> memory_type \<Rightarrow> u64 \<Rightarrow> byte list \<Rightarrow> bool" where
  "fresh_memory fw t n mem \<longleftrightarrow> (\<exists>w err p w'. AllocatePool fw t n w = ((err, p, mem), w') \<and> \<not> EFI_ERROR err)"

lemma fresh_memory_call:
  "call (AllocatePool fw t n) w = (Inr (err, p, mem), w') \<Longrightarrow> \<not> EFI_ERROR err \<Longrightarrow> fresh_memory fw t n mem"
  by (auto simp: fresh_memory_def call_def split: prod.splits)

lemma boot_kernel_run:
  assumes "uefi_inv fw bio dio live img good w" "parent bub = uefi_ops fw bio dio" "block_io bub = bio"
    and "uefi_part img w name = Some c" "1632 \<le> length c" "few (live w) 4"
  defines "head \<equiv> boot_hdr_of (take 1632 c)"
  shows "(\<not> boot_image_ok head (length c) \<longrightarrow> (\<exists>p q w'.
      bub_boot_kernel fw bub name w = (Inr BUB_BOOT_ERROR_PARTITION_INVALID_FORMAT, w') \<and>
      uefi_inv fw bio dio live img good w' \<and> img w' = img w \<and>
      p \<noteq> q \<and> p \<notin> live w \<and> q \<notin> live w \<and> live w' = {p, q} \<union> live w)) \<and>
    (boot_image_ok head (length c) \<longrightarrow> (\<exists>kernel_mem w'.
      length kernel_mem = unat (kernel_size head) \<and>
      fresh_memory fw EfiLoaderCode (ucast (kernel_size head)) kernel_mem \<and>
      bub_boot_kernel fw bub name w = start_kernel fw bub head
        (blit 0 (chunk (unat (page_size head)) (min (unat (kernel_size head)) (length c - unat (page_size head))) c)
           kernel_mem) w' \<and>
      good w' \<and> img w' = img w))"
proof -
  have D: "dev_ok fw bio dio live img good" "good w" "disk_ok (img w)"
    using assms(1) by (simp_all add: uefi_inv_def)
  have c: "length c < 2 ^ 63" by (rule uefi_part_length [OF assms(1,4)])
  have nm: "name_ok name" using assms(4) by (simp add: uefi_part_def split: if_splits)
  obtain r1 h hm w1 where w1: "call (AllocatePool fw EfiLoaderCode (of_nat BOOT_HDR_SIZE)) w = (Inr (r1, h, hm), w1)"
    "\<not> EFI_ERROR r1" "h \<notin> live w" "live w1 = insert h (live w)" "length hm = 1632" "good w1" "img w1 = img w"
    using good_alloc [OF D(1,2) few_mono [OF assms(6)], of EfiLoaderCode "of_nat BOOT_HDR_SIZE"]
    by (auto simp: BOOT_HDR_SIZE_def)
  have f1: "few (live w1) 5" using few_insert [OF assms(6), of h] w1(4) by simp
  have inv1: "uefi_inv fw bio dio live img good w1"
    using D w1(6,7) few_mono [OF f1] by (simp add: uefi_inv_def)
  have part1: "uefi_part img w1 name = Some c" using assms(4) uefi_part_img [where img = img, OF w1(7)] by simp
  have at0: "at_offset (length c) 0 0" using at_offset_of_nat [of 0 "length c"] c by simp
  obtain w2 where w2: "bub_read_from_partition fw bio dio name hm 0 (of_nat BOOT_HDR_SIZE) w1 =
      (Inr (BUB_IO_RESULT_OK, take 1632 c, Some 1632), w2)" "good w2" "img w2 = img w" "live w2 = live w1"
    using uefi_read_run [OF inv1 part1 at0, of 1632 "of_nat BOOT_HDR_SIZE" hm] w1(5,7) assms(5)
    by (auto simp: BOOT_HDR_SIZE_def)
  have inv2: "uefi_inv fw bio dio live img good w2"
    using D w2 few_mono [OF f1] by (simp add: uefi_inv_def)
  have part2: "uefi_part img w2 name = Some c" using assms(4) uefi_part_img [where img = img, OF w2(3)] by simp
  obtain e p mem w3 where e: "bub_partition_entry_by_name fw bio name w2 = (Inr (EFI_SUCCESS, p, mem), w3)"
    "gpt_entry_of mem = e" "entry_ok (img w2) e" "length c = entry_bytes e" "p \<in> live w3" "live w3 - {p} = live w2"
    "good w3" "img w3 = img w2" "p \<notin> live w2"
    by (rule uefi_entry [OF inv2 part2]) auto
  define m where "m = Media fw bio w3"
  have "BlockSize m = 512" using dev_okD(3) [OF D(1) e(7)] by (simp add: m_def)
  moreover have "length (img w2) < 2 ^ 63" using dev_okD(4) [OF D(1) w2(2)] .
  ultimately have size: "IMG_SIZE e m = of_nat (length c)"
    using IMG_SIZE_run(1) [OF e(3)] e(4) by simp
  have "length (boot_magic head) = 8" using assms(5) by (simp add: head_def boot_hdr_of_def)
  from boot_header_fits_run [OF D(1) e(7) this assms(5) c]
  obtain w3' where fits: "boot_header_fits fw head (of_nat (length c)) w3 =
      (Inr (boot_image_ok head (length c)), w3')" "live w3' = live w3" "good w3'" "img w3' = img w3"
    by (auto simp: keeps_def)
  have rd: "read_from_partition (parent bub) = bub_read_from_partition fw bio dio"
    using assms(2) by (simp add: uefi_ops_def)
  have pre: "bub_boot_kernel fw bub name w =
     (if \<not> boot_image_ok head (length c) then ret BUB_BOOT_ERROR_PARTITION_INVALID_FORMAT
      else
      bnd (call (AllocatePool fw EfiLoaderCode (ucast (kernel_size head)))) (\<lambda>(err, kernel_buf, kernel_mem).
      if EFI_ERROR err
      then bnd (efi_warning fw (''Could not allocate for kernel buffer.'' @ nl)) (\<lambda>_. ret BUB_BOOT_ERROR_OOM)
      else
      bnd (bub_read_from_partition fw bio dio name kernel_mem (ucast (page_size head))
             (ucast (kernel_size head))) (\<lambda>(io_result, kernel_mem, num_bytes_read).
      if io_result \<noteq> BUB_IO_RESULT_OK
      then bnd (efi_warning fw (''Could not read kernel image.'' @ nl)) (\<lambda>_. ret BUB_BOOT_ERROR_IO)
      else start_kernel fw bub head kernel_mem))) w3'"
    using w1(1,2) w2(1) e(1,2) size fits(1) assms(3)
    unfolding bub_boot_kernel_def rd
    by (simp add: media_of_def Let_def flip: m_def head_def)
  have f3: "few (live w3) 6"
  proof -
    have "live w3 = insert p (live w1)" using e(5,6) w2(4) by auto
    then show ?thesis using few_insert [OF f1, of p] by simp
  qed
  show ?thesis
  proof (cases "boot_image_ok head (length c)")
    case False
    have "uefi_inv fw bio dio live img good w3'"
      using D e(8) w2(3) fits(2-4) few_mono [OF f3] by (simp add: uefi_inv_def)
    moreover have "live w3' = {h, p} \<union> live w" "h \<noteq> p" "p \<notin> live w"
      using e(5,6,9) w2(4) w1(3,4) fits(2) by auto
    ultimately show ?thesis
      using False pre e(8) w2(3) w1(3) fits(4) by auto
  next
    case True
    obtain r4 k km w4 where w4: "call (AllocatePool fw EfiLoaderCode (ucast (kernel_size head))) w3' =
        (Inr (r4, k, km), w4)" "\<not> EFI_ERROR r4" "live w4 = insert k (live w3)"
      "length km = unat (kernel_size head)" "good w4" "img w4 = img w"
      using good_alloc [OF D(1) fits(3), of EfiLoaderCode "ucast (kernel_size head)"] few_mono [OF f3, of 16]
        e(8) w2(3) fits(2,4) by auto
    have inv4: "uefi_inv fw bio dio live img good w4"
      using D w4(3,5,6) few_mono [OF few_insert [OF f3, of k]] by (simp add: uefi_inv_def)
    have part4: "uefi_part img w4 name = Some c" using assms(4) uefi_part_img [where img = img, OF w4(6)] by simp
    have ps: "unat (page_size head) \<le> length c" using True by (auto simp: boot_image_ok_def)
    have "(ucast (page_size head) :: u64) = of_nat (unat (page_size head))"
      by (simp add: unsigned_ucast_eq)
    then have at: "at_offset (length c) (ucast (page_size head)) (unat (page_size head))"
      using at_offset_of_nat [OF ps c] by simp
    let ?k = "min (unat (kernel_size head)) (length c - unat (page_size head))"
    obtain w5 where "bub_read_from_partition fw bio dio name km (ucast (page_size head))
        (ucast (kernel_size head)) w4 =
      (Inr (BUB_IO_RESULT_OK, blit 0 (chunk (unat (page_size head)) ?k c) km, Some (of_nat ?k)), w5)"
      "good w5" "img w5 = img w"
      using uefi_read_run [OF inv4 part4 at, of ?k "ucast (kernel_size head)" km] w4(4,6) by auto
    then show ?thesis
      using True pre w4 fresh_memory_call [OF w4(1,2)] by auto
  qed
qed

end
