(* ===== verification/Ram_Device.thy ===== *)
theory Ram_Device
  imports Bub_Ops_Uefi
begin

text \<open>
  A concrete device for the firmware \<open>ram_fw\<close>: a disk with a partition table of three entries,
  \<open>misc\<close>, \<open>boot_a\<close> and \<open>boot_b\<close>. It fulfils the invariant of the provider, so the hypotheses of the
  theorems about the firmware back end can hold.
\<close>

section \<open>The disk\<close>

definition ram_entry :: "u64 \<Rightarrow> u64 \<Rightarrow> byte list \<Rightarrow> byte list" where
  "ram_entry f l name = replicate 32 0 @ le_bytes 8 f @ le_bytes 8 l @ replicate 8 0 @
     u16_bytes (map ucast name @ replicate (36 - length name) 0)"

definition ram_header :: "byte list" where
  "ram_header = replicate 80 0 @ le_bytes 4 (3 :: u32) @ replicate 428 0"

definition ram_image :: "byte list \<Rightarrow> byte list \<Rightarrow> byte list \<Rightarrow> byte list" where
  "ram_image m a b = replicate 512 0 @ ram_header @
     ram_entry 34 36 (chars misc) @ ram_entry 36 40 (chars (cstr ''boot_a'')) @
     ram_entry 40 44 (chars (cstr ''boot_b'')) @ replicate 16000 0 @ m @ a @ b"

lemma length_ram_entry [simp]: "length name < 36 \<Longrightarrow> length (ram_entry f l name) = 128"
  by (simp add: ram_entry_def)

lemma length_ram_header [simp]: "length ram_header = 512"
  by (simp add: ram_header_def)

lemma chunk_middle: "length a = off \<Longrightarrow> length b = n \<Longrightarrow> chunk off n (a @ b @ c) = b"
  by (simp add: chunk_def)

lemma ram_entry_fields:
  assumes "length name < 36"
  shows "first_lba (gpt_entry_of (ram_entry f l name)) = f"
    "last_lba (gpt_entry_of (ram_entry f l name)) = l"
    "entry_name (gpt_entry_of (ram_entry f l name)) = map ucast name @ replicate (36 - length name) 0"
proof -
  let ?n = "u16_bytes (map ucast name @ replicate (36 - length name) 0)"
  have "chunk 32 8 (ram_entry f l name) = le_bytes 8 f"
    unfolding ram_entry_def by (rule chunk_middle) simp_all
  then show "first_lba (gpt_entry_of (ram_entry f l name)) = f"
    by (simp add: gpt_entry_of_def)
  have "chunk 40 8 ((replicate 32 0 @ le_bytes 8 f) @ le_bytes 8 l @ replicate 8 0 @ ?n) = le_bytes 8 l"
    by (rule chunk_middle) simp_all
  then show "last_lba (gpt_entry_of (ram_entry f l name)) = l"
    by (simp add: gpt_entry_of_def ram_entry_def)
  have "chunk 56 72 ((replicate 32 0 @ le_bytes 8 f @ le_bytes 8 l @ replicate 8 0) @ ?n @ []) = ?n"
    by (rule chunk_middle) (use assms in simp_all)
  then show "entry_name (gpt_entry_of (ram_entry f l name)) = map ucast name @ replicate (36 - length name) 0"
    by (simp add: gpt_entry_of_def ram_entry_def)
qed

lemma chars_names [simp]:
  "chars misc = [109, 105, 115, 99]" "chars (cstr ''boot_a'') = [98, 111, 111, 116, 95, 97]"
  "chars (cstr ''boot_b'') = [98, 111, 111, 116, 95, 98]"
  by (simp_all add: misc_def cstr_def chars_def)

lemma name_ok_names [simp]: "name_ok misc" "name_ok (cstr ''boot_a'')" "name_ok (cstr ''boot_b'')"
  by (simp_all add: name_ok_def) (simp_all add: misc_def cstr_def)

abbreviation e_misc :: "byte list" where "e_misc \<equiv> ram_entry 34 36 [109, 105, 115, 99]"
abbreviation e_boot_a :: "byte list" where "e_boot_a \<equiv> ram_entry 36 40 [98, 111, 111, 116, 95, 97]"
abbreviation e_boot_b :: "byte list" where "e_boot_b \<equiv> ram_entry 40 44 [98, 111, 111, 116, 95, 98]"

lemma ram_image_chunks:
  shows "chunk 512 512 (ram_image m a b) = ram_header"
    "chunk 1024 128 (ram_image m a b) = e_misc"
    "chunk 1152 128 (ram_image m a b) = e_boot_a"
    "chunk 1280 128 (ram_image m a b) = e_boot_b"
proof -
  let ?r = "replicate 16000 0 @ m @ a @ b"
  have "chunk 512 512 (replicate 512 0 @ ram_header @ e_misc @ e_boot_a @ e_boot_b @ ?r) = ram_header"
    by (rule chunk_middle) simp_all
  then show "chunk 512 512 (ram_image m a b) = ram_header" by (simp add: ram_image_def)
  have "chunk 1024 128 ((replicate 512 0 @ ram_header) @ e_misc @ e_boot_a @ e_boot_b @ ?r) = e_misc"
    by (rule chunk_middle) simp_all
  then show "chunk 1024 128 (ram_image m a b) = e_misc" by (simp add: ram_image_def)
  have "chunk 1152 128 ((replicate 512 0 @ ram_header @ e_misc) @ e_boot_a @ e_boot_b @ ?r) = e_boot_a"
    by (rule chunk_middle) simp_all
  then show "chunk 1152 128 (ram_image m a b) = e_boot_a" by (simp add: ram_image_def)
  have "chunk 1280 128 ((replicate 512 0 @ ram_header @ e_misc @ e_boot_a) @ e_boot_b @ ?r) = e_boot_b"
    by (rule chunk_middle) simp_all
  then show "chunk 1280 128 (ram_image m a b) = e_boot_b" by (simp add: ram_image_def)
qed

lemma ram_entry_count: "unat (entry_count (gpt_header_at (ram_image m a b))) = 3"
proof -
  have "chunk 80 4 ram_header = le_bytes 4 (3 :: u32)"
    unfolding ram_header_def by (rule chunk_middle) simp_all
  then show ?thesis
    by (simp add: gpt_header_at_def ram_image_chunks gpth_of_def)
qed

lemma ram_entries:
  "gpt_entry_at (ram_image m a b) 0 = gpt_entry_of e_misc"
  "gpt_entry_at (ram_image m a b) (Suc 0) = gpt_entry_of e_boot_a"
  "gpt_entry_at (ram_image m a b) 2 = gpt_entry_of e_boot_b"
  by (simp_all add: gpt_entry_at_def ram_image_chunks)

lemma ram_names:
  "entry_name (gpt_entry_of e_misc) = [109, 105, 115, 99] @ replicate 32 0"
  "entry_name (gpt_entry_of e_boot_a) = [98, 111, 111, 116, 95, 97] @ replicate 30 0"
  "entry_name (gpt_entry_of e_boot_b) = [98, 111, 111, 116, 95, 98] @ replicate 30 0"
  by (simp_all add: ram_entry_fields)

lemma upt_3: "[0..<3] = [0, Suc 0, 2]"
  by (simp add: upt_rec)

lemma ram_lookup:
  "gpt_lookup (ram_image m a b) misc = Some (gpt_entry_of e_misc)"
  "gpt_lookup (ram_image m a b) (cstr ''boot_a'') = Some (gpt_entry_of e_boot_a)"
  "gpt_lookup (ram_image m a b) (cstr ''boot_b'') = Some (gpt_entry_of e_boot_b)"
proof -
  have z: "chars (replicate 32 (0 :: u16)) = []" "chars (replicate 30 (0 :: u16)) = []"
    by (simp_all add: chars_def numeral_eq_Suc)
  have c: "chars ([109, 105, 115, 99] @ replicate 32 (0 :: u16)) = [109, 105, 115, 99]"
    "chars ([98, 111, 111, 116, 95, 97] @ replicate 30 (0 :: u16)) = [98, 111, 111, 116, 95, 97]"
    "chars ([98, 111, 111, 116, 95, 98] @ replicate 30 (0 :: u16)) = [98, 111, 111, 116, 95, 98]"
    using z by (simp_all add: chars_def)
  show "gpt_lookup (ram_image m a b) misc = Some (gpt_entry_of e_misc)"
    "gpt_lookup (ram_image m a b) (cstr ''boot_a'') = Some (gpt_entry_of e_boot_a)"
    "gpt_lookup (ram_image m a b) (cstr ''boot_b'') = Some (gpt_entry_of e_boot_b)"
    using c by (simp_all add: gpt_lookup_def gpt_index_def ram_entry_count upt_3 ram_entries ram_names)
qed

section \<open>The invariant\<close>

definition ram_good :: "ram \<Rightarrow> bool" where
  "ram_good w \<longleftrightarrow> length (ram_disk w) < 2 ^ 63"

lemma ram_free_few: "few (ram_live w) 16 \<Longrightarrow> ram_free w \<noteq> []"
proof
  assume f: "few (ram_live w) 16" and e: "ram_free w = []"
  have "of_nat ` {1..<64} \<subseteq> ram_live w"
  proof
    fix p :: ptr assume "p \<in> of_nat ` {1..<64}"
    then obtain i where i: "p = of_nat i" "1 \<le> i" "i < 64" by auto
    have "p \<in> set (blocks w)" using e i by (auto simp: ram_free_def filter_empty_conv)
    moreover have "unat p = i" using i by (simp add: unat_of_nat)
    then have "p \<noteq> 0" using i(2) by auto
    ultimately show "p \<in> ram_live w" by (simp add: ram_live_def)
  qed
  moreover have "inj_on (of_nat :: nat \<Rightarrow> ptr) {1..<64}"
  proof (rule inj_onI)
    fix i j :: nat
    assume "i \<in> {1..<64}" "j \<in> {1..<64}" "(of_nat i :: ptr) = of_nat j"
    then have "unat (of_nat i :: ptr) = unat (of_nat j :: ptr)" "i < 64" "j < 64" by auto
    then show "i = j" by (simp add: unat_of_nat)
  qed
  then have "card (of_nat ` {1..<64} :: ptr set) = 63" by (simp add: card_image)
  ultimately have "63 \<le> card (ram_live w)"
    by (metis card_mono List.finite_set finite_Diff ram_live_def)
  with f show False by (simp add: few_def)
qed

lemma dev_ok_ram: "dev_ok ram_fw 1 2 ram_live ram_disk ram_good"
proof -
  have "strlen_ok ram_fw"
    by (simp add: strlen_ok_def ram_fw_def chars_def)
  then show ?thesis
    unfolding dev_ok_def
    using pool_ok_ram ram_free_few
    by (auto simp: ram_fw_def ram_read_def keeps_def ram_good_def split: list.split)
qed

lemma ram_sizes:
  "entry_start (gpt_entry_of e_misc) = 17408" "entry_bytes (gpt_entry_of e_misc) = 1024"
  "entry_start (gpt_entry_of e_boot_a) = 18432" "entry_bytes (gpt_entry_of e_boot_a) = 2048"
  "entry_start (gpt_entry_of e_boot_b) = 20480" "entry_bytes (gpt_entry_of e_boot_b) = 2048"
  by (simp_all add: entry_start_def entry_bytes_def ram_entry_fields)

lemma length_ram_image:
  "length m = 1024 \<Longrightarrow> length a = 2048 \<Longrightarrow> length b = 2048 \<Longrightarrow> length (ram_image m a b) = 22528"
  by (simp add: ram_image_def)

lemma disk_ok_ram:
  assumes "length m = 1024" "length a = 2048" "length b = 2048"
  shows "disk_ok (ram_image m a b)"
  using length_ram_image [OF assms]
  by (simp add: disk_ok_def table_ok_def ram_entry_count upt_3 ram_entries ram_names ram_lookup
      ram_sizes entry_ok_def ram_entry_fields)

lemma ram_inv:
  assumes "length m = 1024" "length a = 2048" "length b = 2048"
  shows "uefi_inv ram_fw 1 2 ram_live ram_disk ram_good \<lparr>ram_disk = ram_image m a b, blocks = []\<rparr>"
  using dev_ok_ram disk_ok_ram [OF assms] length_ram_image [OF assms]
  by (simp add: uefi_inv_def ram_good_def few_def ram_live_def)

lemma ram_parts:
  assumes "length m = 1024" "length a = 2048" "length b = 2048"
    and "ram_disk w = ram_image m a b"
  shows "uefi_part ram_disk w misc = Some m" "uefi_part ram_disk w (cstr ''boot_a'') = Some a"
    "uefi_part ram_disk w (cstr ''boot_b'') = Some b"
proof -
  let ?t = "replicate 512 0 @ ram_header @ e_misc @ e_boot_a @ e_boot_b @ replicate 16000 0"
  have "chunk 17408 1024 (?t @ m @ a @ b) = m" "chunk 18432 2048 ((?t @ m) @ a @ b) = a"
    "chunk 20480 2048 ((?t @ m @ a) @ b @ []) = b"
    by (rule chunk_middle; use assms in simp)+
  then show "uefi_part ram_disk w misc = Some m" "uefi_part ram_disk w (cstr ''boot_a'') = Some a"
    "uefi_part ram_disk w (cstr ''boot_b'') = Some b"
    using assms(4) by (simp_all add: uefi_part_def ram_lookup ram_sizes) (simp_all add: ram_image_def)
qed

section \<open>Its contents\<close>

text \<open>Reset metadata, the given boot partition A, and zeros in boot partition B.\<close>

definition ram_misc :: "byte list" where
  "ram_misc = ab_bytes (ab_seal reset_ab_data) @ replicate 960 0"

definition ram_world :: "byte list \<Rightarrow> ram" where
  "ram_world a = \<lparr>ram_disk = ram_image ram_misc a (replicate 2048 0), blocks = []\<rparr>"

lemma ram_misc_length [simp]: "length ram_misc = 1024"
  by (simp add: ram_misc_def length_ab_bytes)

lemma ram_world_inv:
  "length a = 2048 \<Longrightarrow> uefi_inv ram_fw 1 2 ram_live ram_disk ram_good (ram_world a)"
  unfolding ram_world_def by (rule ram_inv) simp_all

lemma ram_world_misc:
  assumes "length a = 2048"
  shows "misc_image (uefi_part ram_disk) (ram_world a) = ab_bytes (ab_seal reset_ab_data)"
proof -
  have "uefi_part ram_disk (ram_world a) misc = Some ram_misc"
    by (rule ram_parts [of ram_misc a "replicate 2048 0"]) (use assms in \<open>simp_all add: ram_world_def\<close>)
  then show ?thesis by (simp add: misc_image_def ram_misc_def length_ab_bytes)
qed

end
