(* ===== verification/Bub_Main.thy ===== *)
theory Bub_Main
  imports Bub_BootKernel Ram_Device
begin

text \<open>
  \<open>bub_main.c\<close>: the loop that chooses a slot, boots it and, when its partition does not hold a boot
  image, marks it invalid and tries again. The loop has no bound of its own, so it is a partial
  function: \<open>None\<close> means that it never ends.
\<close>

section \<open>The code\<close>

definition bub_error :: "'w efi \<Rightarrow> string \<Rightarrow> ('w, 'a) io" where
  "bub_error fw format =
     bnd (bub_print fw (cstr (''ERROR: '' @ format))) (\<lambda>_. bub_abort fw)"

text \<open>
  What follows the attempt to boot a kernel: a partition that does not hold a boot image marks its
  slot, every other failure is fatal. The local \<open>ab_ctl\<close> of the A/B functions starts as whatever the
  stack holds.
\<close>

definition handle_boot_result ::
    "'w efi \<Rightarrow> 'w MyBubOps \<Rightarrow> byte list \<Rightarrow> BubBootResult \<Rightarrow> ('w, unit) io" where
  "handle_boot_result fw bub slot_suffix boot_result =
     (if boot_result = BUB_BOOT_ERROR_PARTITION_INVALID_FORMAT then
        bnd (efi_warning fw (''Marking slot as invalid.'' @ nl)) (\<lambda>_.
        bnd (stack_array fw BUB_AB_DATA_SIZE) (\<lambda>stack.
        bnd (bub_ab_mark_as_invalid False (bub_print fw) (ab_of stack) (parent bub) (Some slot_suffix)) (\<lambda>marked.
        if marked \<noteq> 0 then bub_error fw ''Could not mark slot invalid.'' else ret ())))
      else if boot_result \<noteq> BUB_BOOT_RESULT_OK
      then bub_error fw (''Error loading kernel.'' @ nl)
      else ret ())"

text \<open>One turn of the loop, with the buffers \<open>slot_suffix\<close> and \<open>boot_name\<close> before and after it.\<close>

definition boot_turn ::
    "'w efi \<Rightarrow> 'w MyBubOps \<Rightarrow> byte list \<Rightarrow> byte list \<Rightarrow>
     ('w, BubBootResult \<times> byte list \<times> byte list) io" where
  "boot_turn fw bub slot_suffix boot_name =
     bnd (stack_array fw BUB_AB_DATA_SIZE) (\<lambda>stack.
     bnd (bub_ab_flow False (bub_print fw) (ab_of stack) (parent bub) (Some slot_suffix) (of_nat BUB_SUFFIX_SIZE))
       (\<lambda>(ab_result, slot_suffix).
     bnd (if ab_result \<noteq> BUB_AB_FLOW_RESULT_OK
          then bub_error fw (''Could not choose A/B slot.'' @ nl) else ret ()) (\<lambda>_.
     bnd (pure (bub_memcpy boot_name 4 slot_suffix BUB_SUFFIX_SIZE)) (\<lambda>boot_name.
     bnd (bub_boot_kernel fw bub boot_name) (\<lambda>boot_result.
     bnd (handle_boot_result fw bub slot_suffix boot_result) (\<lambda>_.
     ret (boot_result, slot_suffix, boot_name)))))))"

partial_function (option) boot_loop ::
    "'w efi \<Rightarrow> 'w MyBubOps \<Rightarrow> byte list \<Rightarrow> byte list \<Rightarrow> 'w \<Rightarrow> ((fault + EFI_STATUS) \<times> 'w) option" where
  "boot_loop fw bub slot_suffix boot_name w =
     (case boot_turn fw bub slot_suffix boot_name w of
        (Inl e, w') \<Rightarrow> Some (Inl e, w')
      | (Inr (boot_result, slot_suffix', boot_name'), w') \<Rightarrow>
          if boot_result = BUB_BOOT_ERROR_PARTITION_INVALID_FORMAT
          then boot_loop fw bub slot_suffix' boot_name' w'
          else Some (Inr EFI_SUCCESS, w'))"

definition efi_main :: "'w efi \<Rightarrow> handle \<Rightarrow> 'w \<Rightarrow> ((fault + EFI_STATUS) \<times> 'w) option" where
  "efi_main fw image_handle w =
     (case bnd (bub_print fw (cstr (''Brillo UEFI A/B BOOT LOADER'' @ nl))) (\<lambda>_. bub_init fw image_handle) w of
        (Inl e, w') \<Rightarrow> Some (Inl e, w')
      | (Inr None, w') \<Rightarrow> Some (bub_error fw ''Could not initialize Brillo Uefi object.'' w')
      | (Inr (Some bub), w') \<Rightarrow>
          boot_loop fw bub (replicate BUB_SUFFIX_SIZE 0) (cstr ''boot'' @ [0, 0]) w')"

section \<open>Fatal errors\<close>

lemma call_returns: "\<exists>x w'. call f w = (Inr x, w')"
  by (cases "f w") (simp add: call_def)

lemma bub_abort_aborts:
  assumes "pool_ok fw live"
  shows "fst (bub_abort fw w) = Inl Aborted"
proof -
  have "10 # cstr (''ABORTING...'' @ nl) = (10 # map (\<lambda>c. of_nat (of_char c)) (''ABORTING...'' @ nl)) @ [0]"
    by (simp add: cstr_def)
  then obtain w1 where w1: "bub_print fw (10 # cstr (''ABORTING...'' @ nl)) w = (Inr (), w1)"
    using bub_print_ascii [OF assms, of "10 # map (\<lambda>c. of_nat (of_char c)) (''ABORTING...'' @ nl)" w] by auto
  obtain x w2 where w2: "call (Stall fw (5 * 1000 * 1000)) w1 = (Inr x, w2)"
    using call_returns [of "Stall fw (5 * 1000 * 1000)" w1] by auto
  obtain y w3 where "call (Exit fw 0 EFI_NOT_FOUND 0) w2 = (Inr y, w3)"
    using call_returns [of "Exit fw 0 EFI_NOT_FOUND 0" w2] by auto
  with w1 w2 show ?thesis by (simp add: bub_abort_def)
qed

lemma bub_error_aborts:
  assumes "pool_ok fw live" "length s < 2 ^ 20"
    and "list_all (\<lambda>b. 0 < b \<and> b < 0x80) (map (\<lambda>c. of_nat (of_char c) :: byte) s)"
  shows "fst (bub_error fw s w) = Inl Aborted"
proof -
  let ?m = "map (\<lambda>c. of_nat (of_char c) :: byte) (''ERROR: '' @ s)"
  have "list_all (\<lambda>b. 0 < b \<and> b < 0x80) ?m" using assms(3) by simp
  then obtain w1 where w1: "bub_print fw (?m @ [0]) w = (Inr (), w1)"
    using bub_print_ascii [OF assms(1), of ?m w] assms(2) by auto
  moreover have "cstr (''ERROR: '' @ s) = ?m @ [0]" by (simp add: cstr_def)
  ultimately show ?thesis
    using bub_abort_aborts [OF assms(1), of w1] by (simp add: bub_error_def)
qed

lemma mark_error_aborts:
  "pool_ok fw live \<Longrightarrow> fst (bub_error fw ''Could not mark slot invalid.'' w) = Inl Aborted"
  by (rule bub_error_aborts) simp_all

section \<open>A turn on a working device\<close>

text \<open>The name of the boot partition of a slot, as the loop builds it.\<close>

definition boot_partition :: "slot_name \<Rightarrow> byte list" where
  "boot_partition n = (case n of Slot_A \<Rightarrow> cstr ''boot_a'' | Slot_B \<Rightarrow> cstr ''boot_b'')"

definition boot_buffers :: "byte list \<Rightarrow> byte list \<Rightarrow> bool" where
  "boot_buffers suffix name \<longleftrightarrow>
     length suffix = 3 \<and> length name = 7 \<and> take 4 name = [98, 111, 111, 116]"

lemma boot_name_copy:
  assumes "boot_buffers suffix name"
  shows "bub_memcpy name 4 (name_suffix n) BUB_SUFFIX_SIZE = Inr (boot_partition n)"
  using assms
  by (cases n) (simp_all add: boot_buffers_def name_suffix_def boot_partition_def blit_def
      BUB_SUFFIX_SIZE_def cstr_def)

lemma ab_wf_stack: "\<exists>ab0. stack_array fw BUB_AB_DATA_SIZE w = (Inr ab0, w) \<and> ab_wf (ab_of ab0)"
  by (simp add: stack_array_def BUB_AB_DATA_SIZE_def ab_wf_ab_of)

lemma turn_run:
  assumes "uefi_inv fw bio dio live img good w" "parent bub = uefi_ops fw bio dio"
    and "boot_buffers suffix name" "ab_valid (misc_image (uefi_part img) w)"
    and "policy_step (abs_meta (misc_image (uefi_part img) w)) = (Some n, s')"
  shows "\<exists>w1. framed fw bio dio live img good w w1 \<and> ab_valid (misc_image (uefi_part img) w1) \<and>
    abs_meta (misc_image (uefi_part img) w1) = s' \<and>
    boot_turn fw bub suffix name w =
      bnd (bub_boot_kernel fw bub (boot_partition n)) (\<lambda>r.
      bnd (handle_boot_result fw bub (name_suffix n) r) (\<lambda>_.
      ret (r, name_suffix n, boot_partition n))) w1"
proof -
  obtain st where st: "stack_array fw BUB_AB_DATA_SIZE w = (Inr st, w)" "ab_wf (ab_of st)"
    using ab_wf_stack [of fw w] by auto
  have len: "length suffix = 3" using assms(3) by (simp add: boot_buffers_def)
  obtain w1 where w1: "bub_ab_flow False (bub_print fw) (ab_of st) (uefi_ops fw bio dio) (Some suffix) 3 w =
      (Inr (flow_report (Some n) suffix), w1)" "framed fw bio dio live img good w w1"
    "ab_valid (misc_image (uefi_part img) w1)" "abs_meta (misc_image (uefi_part img) w1) = s'"
    using uefi_frame.flow_run_valid [OF framed_refl [OF assms(1)] st(2), of suffix 3 False] len assms(4,5)
    by auto
  have rep: "flow_report (Some n) suffix = (BUB_AB_FLOW_RESULT_OK, name_suffix n)"
    using len by (cases n) (simp_all add: flow_report_def name_suffix_def)
  show ?thesis
    using w1 st(1) boot_name_copy [OF assms(3), of n]
    by (intro exI [of _ w1]) (simp add: boot_turn_def rep assms(2) BUB_SUFFIX_SIZE_def)
qed

text \<open>The boot partition of the slot does not overlap misc.\<close>

definition boot_apart :: "byte list \<Rightarrow> slot_name \<Rightarrow> bool" where
  "boot_apart img n = (case (gpt_lookup img misc, gpt_lookup img (boot_partition n)) of
     (Some e, Some f) \<Rightarrow> outside e (entry_start f) (entry_bytes f) | _ \<Rightarrow> False)"

lemma boot_apart_part:
  assumes "framed fw bio dio live img good w w1" "boot_apart (img w) n"
  shows "uefi_part img w1 (boot_partition n) = uefi_part img w (boot_partition n)"
  using assms(2) framed_part [OF assms(1)]
  by (auto simp: boot_apart_def split: option.splits)

lemma turn_boots:
  assumes "uefi_inv fw bio dio live img good w" "parent bub = uefi_ops fw bio dio" "block_io bub = bio"
    and "boot_buffers suffix name" "ab_valid (misc_image (uefi_part img) w)"
    and "policy_step (abs_meta (misc_image (uefi_part img) w)) = (Some n, s')"
    and "uefi_part img w (boot_partition n) = Some c" "boot_apart (img w) n" "1632 \<le> length c"
    and "few (live w) 4" "boot_image_ok (boot_hdr_of (take 1632 c)) (length c)"
    and fits: "unat (page_size (boot_hdr_of (take 1632 c))) + unat (kernel_size (boot_hdr_of (take 1632 c)))
      \<le> length c"
  shows "\<exists>w2. ab_valid (misc_image (uefi_part img) w2) \<and>
    abs_meta (misc_image (uefi_part img) w2) = s' \<and>
    boot_turn fw bub suffix name w =
      bnd (start_kernel fw bub (boot_hdr_of (take 1632 c))
             (chunk (unat (page_size (boot_hdr_of (take 1632 c))))
                    (unat (kernel_size (boot_hdr_of (take 1632 c)))) c)) (\<lambda>r.
      bnd (handle_boot_result fw bub (name_suffix n) r) (\<lambda>_.
      ret (r, name_suffix n, boot_partition n))) w2"
proof -
  let ?head = "boot_hdr_of (take 1632 c)"
  obtain w1 where w1: "framed fw bio dio live img good w w1" "ab_valid (misc_image (uefi_part img) w1)"
    "abs_meta (misc_image (uefi_part img) w1) = s'"
    "boot_turn fw bub suffix name w =
      bnd (bub_boot_kernel fw bub (boot_partition n)) (\<lambda>r.
      bnd (handle_boot_result fw bub (name_suffix n) r) (\<lambda>_.
      ret (r, name_suffix n, boot_partition n))) w1"
    using turn_run [OF assms(1,2,4-6)] by blast
  have inv1: "uefi_inv fw bio dio live img good w1" "few (live w1) 4"
    using w1(1) assms(10) by (simp_all add: framed_def)
  have part1: "uefi_part img w1 (boot_partition n) = Some c"
    using boot_apart_part [OF w1(1) assms(8)] assms(7) by simp
  obtain km w2 where km: "length km = unat (kernel_size ?head)"
    "bub_boot_kernel fw bub (boot_partition n) w1 = start_kernel fw bub ?head
      (blit 0 (chunk (unat (page_size ?head)) (min (unat (kernel_size ?head)) (length c - unat (page_size ?head))) c)
        km) w2" "img w2 = img w1"
    using boot_kernel_run [OF inv1(1) assms(2,3) part1 assms(9) inv1(2)] assms(11) by blast
  have "blit 0 (chunk (unat (page_size ?head)) (min (unat (kernel_size ?head)) (length c - unat (page_size ?head))) c)
      km = chunk (unat (page_size ?head)) (unat (kernel_size ?head)) c"
    using fits km(1) by (simp add: min_absorb1)
  moreover have "misc_image (uefi_part img) w2 = misc_image (uefi_part img) w1"
    using uefi_part_img [where img = img, OF km(3)] by (simp add: misc_image_def)
  ultimately show ?thesis
    using w1 km(2) by (intro exI [of _ w2]) (simp add: bnd_def)
qed

lemma turn_marks:
  assumes "uefi_inv fw bio dio live img good w" "parent bub = uefi_ops fw bio dio" "block_io bub = bio"
    and "boot_buffers suffix name" "ab_valid (misc_image (uefi_part img) w)"
    and "policy_step (abs_meta (misc_image (uefi_part img) w)) = (Some n, s')"
    and "uefi_part img w (boot_partition n) = Some c" "boot_apart (img w) n" "1632 \<le> length c"
    and "few (live w) 4" "\<not> boot_image_ok (boot_hdr_of (take 1632 c)) (length c)"
  shows "\<exists>w2. ab_valid (misc_image (uefi_part img) w2) \<and>
    abs_meta (misc_image (uefi_part img) w2) = policy_mark n s' \<and>
    boot_turn fw bub suffix name w =
      bnd (bub_error fw ''Could not mark slot invalid.'') (\<lambda>_ :: unit.
      ret (BUB_BOOT_ERROR_PARTITION_INVALID_FORMAT, name_suffix n, boot_partition n)) w2"
proof -
  obtain w1 where w1: "framed fw bio dio live img good w w1" "ab_valid (misc_image (uefi_part img) w1)"
    "abs_meta (misc_image (uefi_part img) w1) = s'"
    "boot_turn fw bub suffix name w =
      bnd (bub_boot_kernel fw bub (boot_partition n)) (\<lambda>r.
      bnd (handle_boot_result fw bub (name_suffix n) r) (\<lambda>_.
      ret (r, name_suffix n, boot_partition n))) w1"
    using turn_run [OF assms(1,2,4-6)] by blast
  have inv1: "uefi_inv fw bio dio live img good w1" "few (live w1) 4"
    using w1(1) assms(10) by (simp_all add: framed_def)
  have part1: "uefi_part img w1 (boot_partition n) = Some c"
    using boot_apart_part [OF w1(1) assms(8)] assms(7) by simp
  obtain w1' where w1': "bub_boot_kernel fw bub (boot_partition n) w1 =
      (Inr BUB_BOOT_ERROR_PARTITION_INVALID_FORMAT, w1')"
    "uefi_inv fw bio dio live img good w1'" "img w1' = img w1"
    using boot_kernel_run [OF inv1(1) assms(2,3) part1 assms(9) inv1(2)] assms(11) by blast
  have "ascii_text (''Marking slot as invalid.'' @ nl)" by (simp add: ascii_text_def)
  from uefi_print [OF w1'(2) console_msg_warning [OF this]]
  obtain w2 where w2: "efi_warning fw (''Marking slot as invalid.'' @ nl) w1' = (Inr (), w2)"
    "uefi_inv fw bio dio live img good w2" "img w2 = img w1"
    unfolding bub_warning_def using w1'(3) by auto
  have same: "misc_image (uefi_part img) w2 = misc_image (uefi_part img) w1"
    using uefi_part_img [where img = img, OF w2(3)] by (simp add: misc_image_def)
  obtain st where st: "stack_array fw BUB_AB_DATA_SIZE w2 = (Inr st, w2)" "ab_wf (ab_of st)"
    using ab_wf_stack [of fw w2] by auto
  have sl: "bub_strlen (name_suffix n) = Inr 2" "3 \<le> length (name_suffix n)"
    by (cases n; simp add: name_suffix_def cstr_def)+
  obtain w3 where w3: "bub_ab_mark_as_invalid False (bub_print fw) (ab_of st) (uefi_ops fw bio dio) (Some (name_suffix n)) w2 =
      (Inr 1, w3)" "ab_valid (misc_image (uefi_part img) w3)"
    "abs_meta (misc_image (uefi_part img) w3) = policy_mark n s'"
    using uefi.mark_run [OF w2(2) st(2) _ sl(2,1), of False] w1(2,3) same
    by (cases n) (auto simp: name_suffix_def policy_mark_def cstr_def)
  have "handle_boot_result fw bub (name_suffix n) BUB_BOOT_ERROR_PARTITION_INVALID_FORMAT w1' =
      bub_error fw ''Could not mark slot invalid.'' w3"
    using w2(1) st(1) w3(1) by (simp add: handle_boot_result_def assms(2) del: stack_array_Inr)
  then show ?thesis
    using w1(4) w1'(1) w3(2,3) by (intro exI [of _ w3]) (simp add: bnd_def)
qed

section \<open>Properties\<close>


text \<open>The device of the witnesses: reset metadata, a boot image in slot A, nothing in slot B.\<close>

definition ram_boot :: "u32 \<Rightarrow> byte list" where
  "ram_boot k = BOOT_MAGIC @ le_bytes 4 k @ replicate 24 0 @ le_bytes 4 (416 :: u32) @ replicate 2008 7"

abbreviation ram_boot_a :: "byte list" where "ram_boot_a \<equiv> ram_boot 16"

definition ram_bub :: "ram MyBubOps" where
  "ram_bub = \<lparr>parent = uefi_ops ram_fw 1 2, efi_image_handle = 9, efi_path = 8, block_io = 1, disk_io = 2\<rparr>"

lemma ram_boot_header:
  "length (ram_boot k) = 2048" "boot_magic (boot_hdr_of (take 1632 (ram_boot k))) = BOOT_MAGIC"
  "kernel_size (boot_hdr_of (take 1632 (ram_boot k))) = k"
  "page_size (boot_hdr_of (take 1632 (ram_boot k))) = 416"
proof -
  let ?r = "replicate 2008 7 :: byte list"
  show len: "length (ram_boot k) = 2048" by (simp add: ram_boot_def)
  have t: "chunk i n (take 1632 (ram_boot k)) = chunk i n (ram_boot k)" if "i + n \<le> 1632" for i n
    using that by (simp add: chunk_def drop_take min_def)
  have "chunk 0 8 ([] @ BOOT_MAGIC @ (le_bytes 4 k @ replicate 24 0 @ le_bytes 4 (416 :: u32) @ ?r)) = BOOT_MAGIC"
    by (rule chunk_middle) simp_all
  then show "boot_magic (boot_hdr_of (take 1632 (ram_boot k))) = BOOT_MAGIC"
    using t [of 0 8] by (simp add: boot_hdr_of_def ram_boot_def)
  have "chunk 8 4 (BOOT_MAGIC @ le_bytes 4 k @ (replicate 24 0 @ le_bytes 4 (416 :: u32) @ ?r)) =
      le_bytes 4 k"
    by (rule chunk_middle) simp_all
  then show "kernel_size (boot_hdr_of (take 1632 (ram_boot k))) = k"
    using t [of 8 4] by (simp add: boot_hdr_of_def ram_boot_def)
  have "chunk 36 4 ((BOOT_MAGIC @ le_bytes 4 k @ replicate 24 0) @ le_bytes 4 (416 :: u32) @ ?r) =
      le_bytes 4 (416 :: u32)"
    by (rule chunk_middle) simp_all
  then show "page_size (boot_hdr_of (take 1632 (ram_boot k))) = 416"
    using t [of 36 4] by (simp add: boot_hdr_of_def ram_boot_def)
qed

lemma ram_world_facts:
  assumes "length a = 2048"
  shows "uefi_inv ram_fw 1 2 ram_live ram_disk ram_good (ram_world a)"
    "ab_valid (misc_image (uefi_part ram_disk) (ram_world a))"
    "policy_step (abs_meta (misc_image (uefi_part ram_disk) (ram_world a))) =
      (Some Slot_A, (Trying 15 6, Trying 15 7))"
    "uefi_part ram_disk (ram_world a) (boot_partition Slot_A) = Some a"
    "boot_apart (ram_disk (ram_world a)) Slot_A" "few (ram_live (ram_world a)) 4"
proof -
  show "uefi_inv ram_fw 1 2 ram_live ram_disk ram_good (ram_world a)"
    "ab_valid (misc_image (uefi_part ram_disk) (ram_world a))"
    using ram_world_inv [OF assms] ram_world_misc [OF assms] by (simp_all add: ab_valid_ab_seal)
  show "policy_step (abs_meta (misc_image (uefi_part ram_disk) (ram_world a))) =
      (Some Slot_A, (Trying 15 6, Trying 15 7))"
    by (simp add: ram_world_misc [OF assms] abs_meta_reset policy_step_def policy_choice_def)
  show "uefi_part ram_disk (ram_world a) (boot_partition Slot_A) = Some a"
    using ram_parts(2) [of ram_misc a "replicate 2048 0" "ram_world a"] assms
    by (simp add: boot_partition_def ram_world_def)
  show "boot_apart (ram_disk (ram_world a)) Slot_A"
    by (simp add: boot_apart_def boot_partition_def ram_world_def ram_lookup ram_sizes outside_def)
  show "few (ram_live (ram_world a)) 4"
    by (simp add: few_def ram_live_def ram_world_def)
qed


text \<open>C7: a slot whose partition does not hold a boot image ends the loader. The slot is marked
  invalid on the disk, but the test of the result takes the success of \<open>bub_ab_mark_as_invalid\<close> (1)
  for a failure, so instead of falling back to the other slot in the same power cycle the program
  aborts.\<close>

theorem invalid_boot_partition_aborts:
  assumes "uefi_inv fw bio dio live img good w" "parent bub = uefi_ops fw bio dio" "block_io bub = bio"
    and "boot_buffers suffix name" "ab_valid (misc_image (uefi_part img) w)"
    and "policy_step (abs_meta (misc_image (uefi_part img) w)) = (Some n, s')"
    and "uefi_part img w (boot_partition n) = Some c" "boot_apart (img w) n" "1632 \<le> length c"
    and "few (live w) 4" "\<not> boot_image_ok (boot_hdr_of (take 1632 c)) (length c)"
  shows "\<exists>w2 w'. ab_valid (misc_image (uefi_part img) w2) \<and>
    abs_meta (misc_image (uefi_part img) w2) = policy_mark n s' \<and>
    (bub_error fw ''Could not mark slot invalid.'' w2 :: (fault + unit) \<times> _) = (Inl Aborted, w') \<and>
    boot_loop fw bub suffix name w = Some (Inl Aborted, w')"
proof -
  obtain w2 where w2: "ab_valid (misc_image (uefi_part img) w2)"
    "abs_meta (misc_image (uefi_part img) w2) = policy_mark n s'"
    "boot_turn fw bub suffix name w =
      bnd (bub_error fw ''Could not mark slot invalid.'') (\<lambda>_ :: unit.
      ret (BUB_BOOT_ERROR_PARTITION_INVALID_FORMAT, name_suffix n, boot_partition n)) w2"
    using turn_marks [OF assms] by blast
  have "pool_ok fw live" using assms(1) dev_okD(1) by (auto simp: uefi_inv_def)
  then obtain w' where "(bub_error fw ''Could not mark slot invalid.'' w2 :: (fault + unit) \<times> _) = (Inl Aborted, w')"
    using mark_error_aborts [of fw live w2] by (metis prod.collapse)
  with w2 show ?thesis
    by (intro exI [of _ w2] exI [of _ w']) (simp add: boot_loop.simps)
qed

theorem invalid_boot_partition_aborts_witness:
  "\<exists>w'. boot_loop ram_fw ram_bub [0, 0, 0] (cstr ''boot'' @ [0, 0]) (ram_world (replicate 2048 0)) =
    Some (Inl Aborted, w')"
proof -
  note F = ram_world_facts [of "replicate 2048 0", simplified]
  have "boot_magic (boot_hdr_of (take 1632 (replicate 2048 0))) \<noteq> BOOT_MAGIC"
    by (auto simp: boot_hdr_of_def BOOT_MAGIC_def dest: arg_cong [of _ _ hd])
  then have "\<not> boot_image_ok (boot_hdr_of (take 1632 (replicate 2048 0))) (length (replicate 2048 (0 :: byte)))"
    by (simp add: boot_image_ok_def)
  moreover have "parent ram_bub = uefi_ops ram_fw 1 2" "block_io ram_bub = 1"
    "boot_buffers [0, 0, 0] (cstr ''boot'' @ [0, 0])"
    by (simp_all add: ram_bub_def boot_buffers_def cstr_def)
  ultimately show ?thesis
    using invalid_boot_partition_aborts [OF F(1) _ _ _ F(2,3,4,5) _ F(6), of ram_bub "[0, 0, 0]"
        "cstr ''boot'' @ [0, 0]"]
    by auto
qed

end
