(* ===== verification/Boot_Guarantees.thy ===== *)
theory Boot_Guarantees
  imports Bub_Main Ram_Device
begin

text \<open>
  What the discovery of the boot disk, the load of a kernel and its command line guarantee, and what
  they do not: the memory behind a kernel that reaches over the end of its partition, the blocks a
  rejected image leaves allocated, and a command line without a NUL.
\<close>

section \<open>The boot disk\<close>

lemma memcmp_zeroD:
  assumes "bub_memcmp a b n = Inr 0"
  shows "n \<le> length a" "n \<le> length b" "take n a = take n b"
  using assms diff_bytes_eq_0_iff [of "take n a" "take n b"] by (auto simp: bub_memcmp_def split: if_splits)

lemma pure_Inr: "pure (Inr x) = ret x"
  by (simp add: pure_def ret_def fun_eq_iff)

lemma rejected: "bnd m (\<lambda>_. ret EFI_NOT_FOUND) w = (Inr err, w') \<Longrightarrow> EFI_ERROR err"
  by (auto elim!: bnd_eq_InrE)

lemma validate_gpt_accepted:
  assumes "validate_gpt fw h w = (Inr err, w')" "\<not> EFI_ERROR err" "length (signature h) \<le> 8"
  shows "gpt_header_ok fw h"
proof -
  obtain d where d: "bub_memcmp (signature h) GPT_MAGIC 8 = Inr d"
    using assms(1) unfolding validate_gpt_def by (elim bnd_eq_InrE) simp
  note run = assms(1) [unfolded validate_gpt_def d pure_Inr bnd_ret_left Let_def]
  have "d = 0" using run assms(2) by (cases "d = 0") (auto dest: rejected)
  then have sig: "signature h = take 8 GPT_MAGIC" using memcmp_zeroD [OF d [unfolded \<open>d = 0\<close>]] assms(3) by simp
  have "\<not> header_size h < GPT_MIN_SIZE" "\<not> BUB_BLOCK_SIZE < header_size h"
    using run \<open>d = 0\<close> assms(2) by (auto dest: rejected split: if_splits)
  moreover have "header_crc32 h = CalculateCrc fw (take (unat (header_size h)) (gpth_bytes (h\<lparr>header_crc32 := 0\<rparr>)))"
    "revision h = GPT_REVISION"
    using run \<open>d = 0\<close> calculation assms(2) by (auto dest: rejected split: if_splits)
  ultimately show ?thesis
    using sig by (simp add: gpt_header_ok_def GPT_MIN_SIZE_def BUB_BLOCK_SIZE_def not_less)
qed

text \<open>A block device whose second block is a sound header, on a medium that is present and no partition.\<close>

definition whole_gpt_disk :: "'w efi \<Rightarrow> ptr \<Rightarrow> bool" where
  "whole_gpt_disk fw bio \<longleftrightarrow> (\<exists>w buf err block w'.
     MediaPresent (Media fw bio w) \<and> \<not> LogicalPartition (Media fw bio w) \<and>
     ReadBlocks fw bio (MediaId (Media fw bio w)) 1 512 buf w = ((err, block), w') \<and> \<not> EFI_ERROR err \<and>
     gpt_header_ok fw (gpth_of block))"

lemma pairE:
  assumes "(case x of (a, b) \<Rightarrow> f a b) w = r"
  obtains a b where "x = (a, b)" "f a b w = r"
  using assms by (cases x) simp

lemma skip_elseE:
  assumes "(if b then skip_node fw msg p q hdr else m) w = (Inr (Disk x y z, hdr'), w')"
  obtains "\<not> b" "m w = (Inr (Disk x y z, hdr'), w')"
  using assms by (auto simp: skip_node_def simp del: bub_frees.simps split: if_splits elim!: bnd_eq_InrE)

lemma walk_elseE:
  assumes "(if b then bnd m1 (\<lambda>_. ret (Walk_Error, hdr)) else m) w = (Inr (Disk x y z, hdr'), w')"
  obtains "\<not> b" "m w = (Inr (Disk x y z, hdr'), w')"
  using assms by (auto split: if_splits elim!: bnd_eq_InrE)

lemma probe_node_Disk:
  assumes "probe_node fw init k hdr w = (Inr (Disk bio dio path, hdr'), w')"
  shows "whole_gpt_disk fw bio"
  using assms unfolding probe_node_def
proof (elim bnd_eq_InrE pairE skip_elseE walk_elseE)
  fix bio' m hdr1 hdr2 w1 w1' w2 w3 err err' dio' io_path x y
  assume "\<not> (LogicalPartition m \<or> \<not> MediaPresent m)" "media_of fw bio' w1 = (Inr m, w1')"
    "read_blocks fw bio' 1 512 hdr1 w1' = (Inr x, w2)" "x = (err, hdr2)" "\<not> EFI_ERROR err"
    "validate_gpt fw (gpth_of hdr2) w2 = (Inr err', w3)" "\<not> EFI_ERROR err'"
    "ret (Disk bio' dio' io_path, hdr2) w3 = (Inr (Disk bio dio path, hdr'), w')"
  moreover have "length (signature (gpth_of hdr2)) \<le> 8" by (simp add: gpth_of_def chunk_def)
  ultimately have ok: "gpt_header_ok fw (gpth_of hdr2)" "m = Media fw bio' w1" "w1' = w1" "bio' = bio"
    using validate_gpt_accepted by (auto simp: ret_def)
  have "ReadBlocks fw bio (MediaId (Media fw bio w1)) 1 512 hdr1 w1 = ((err, hdr2), w2)"
    using \<open>read_blocks fw bio' 1 512 hdr1 w1' = (Inr x, w2)\<close> \<open>x = (err, hdr2)\<close> ok(3,4)
    by (auto simp: read_blocks_def call_def fail_def split: if_splits prod.splits)
  then show ?thesis
    using \<open>\<not> (LogicalPartition m \<or> \<not> MediaPresent m)\<close> \<open>\<not> EFI_ERROR err\<close> ok(1,2,4)
    unfolding whole_gpt_disk_def by blast
qed

lemma disk_loop_Disk:
  "disk_loop fw init k hdr w = (Inr (Some (bio, dio, path)), w') \<Longrightarrow> whole_gpt_disk fw bio"
proof (induction fw init k hdr arbitrary: w rule: disk_loop.induct)
  case (1 fw init k hdr)
  from 1(2) obtain r hdr1 w1 where "probe_node fw init (Suc k) hdr w = (Inr (r, hdr1), w1)"
    "(case r of Walk_Error \<Rightarrow> ret None | Continue \<Rightarrow> disk_loop fw init (Suc k) hdr1
       | Disk bio dio io_path \<Rightarrow> ret (Some (bio, dio, io_path))) w1 = (Inr (Some (bio, dio, path)), w')"
    and k: "\<not> length init \<le> k" "\<not> IsDevicePathEnd fw (init ! k)" "\<not> length init \<le> Suc k"
    unfolding disk_loop.simps [of fw init k hdr]
    by (auto split: if_splits elim!: bnd_eq_InrE)
  then show ?case
    using probe_node_Disk 1(1) [OF k] by (cases r) (auto simp: ret_def)
qed


definition ram_gpt_block :: "byte list" where
  "ram_gpt_block = take 8 GPT_MAGIC @ le_bytes 4 GPT_REVISION @ le_bytes 4 (92 :: u32) @
     le_bytes 4 (0 :: u32) @ replicate 492 0"

lemma ram_gpt_block_ok: "length ram_gpt_block = 512" "gpt_header_ok ram_fw (gpth_of ram_gpt_block)"
proof -
  show len: "length ram_gpt_block = 512" by (simp add: ram_gpt_block_def)
  let ?m = "take 8 GPT_MAGIC" and ?z = "le_bytes 4 (0 :: u32) @ replicate 492 0"
  have "chunk 0 8 ([] @ ?m @ (le_bytes 4 GPT_REVISION @ le_bytes 4 (92 :: u32) @ ?z)) = ?m"
    by (rule chunk_middle) simp_all
  moreover have "chunk 8 4 (?m @ le_bytes 4 GPT_REVISION @ (le_bytes 4 (92 :: u32) @ ?z)) = le_bytes 4 GPT_REVISION"
    by (rule chunk_middle) simp_all
  moreover have "chunk 12 4 ((?m @ le_bytes 4 GPT_REVISION) @ le_bytes 4 (92 :: u32) @ ?z) = le_bytes 4 (92 :: u32)"
    by (rule chunk_middle) simp_all
  moreover have "chunk 16 4 ((?m @ le_bytes 4 GPT_REVISION @ le_bytes 4 (92 :: u32)) @ le_bytes 4 (0 :: u32) @ replicate 492 0) =
      le_bytes 4 (0 :: u32)"
    by (rule chunk_middle) simp_all
  ultimately show "gpt_header_ok ram_fw (gpth_of ram_gpt_block)"
    by (simp add: gpt_header_ok_def gpth_of_def ram_gpt_block_def ram_fw_def)
qed

lemma ram_init:
  assumes "chunk 512 512 d = block" "length block = 512" "gpt_header_ok ram_fw (gpth_of block)"
  shows "\<exists>bub w'. bub_init ram_fw 9 \<lparr>ram_disk = d, blocks = []\<rparr> = (Inr (Some bub), w')"
proof -
  have "length d \<ge> 1024" using assms(1,2) by (auto simp: chunk_def)
  then have rd: "ram_read 512 512 buf w = ((EFI_SUCCESS, block), w)" if "ram_disk w = d" "length buf = 512" for buf w
    using that assms(1,2) by (simp add: ram_read_def blit_def)
  have v: "validate_gpt ram_fw (gpth_of block) w = (Inr EFI_SUCCESS, w)" for w
    using validate_gpt_run [OF _ pool_ok_ram, of "gpth_of block" w] assms(2,3) by (auto simp: gpth_of_def)
  have media: "Media ram_fw p w = \<lparr>MediaId = 1, BlockSize = 512, LogicalPartition = False, MediaPresent = True\<rparr>"
    for p w by (simp add: ram_fw_def)
  have fw: "LocateDevicePath ram_fw t path bytes w = ((EFI_SUCCESS, path, 101), w)"
    "HandleProtocol ram_fw h t w = ((EFI_SUCCESS, 100), w)" "ReadBlocks ram_fw p m 1 512 = ram_read 512 512"
    "IsDevicePathEnd ram_fw node \<longleftrightarrow> take 2 node = [0x7f, 0xff]" "EndDevicePath ram_fw = [0x7f, 0xff, 4, 0]"
    "LoadedImageDevice ram_fw p w = 103" "DevicePathFromHandle ram_fw h w = Some [[1, 1, 4, 0], [0x7f, 0xff, 4, 0]]"
    for t path bytes w h p m node by (simp_all add: ram_fw_def)
  have alloc: "AllocatePool ram_fw t n \<lparr>ram_disk = d, blocks = []\<rparr> =
      ((EFI_SUCCESS, 1, replicate (unat n) 0xAF), \<lparr>ram_disk = d, blocks = [1]\<rparr>)"
    "AllocatePool ram_fw t n \<lparr>ram_disk = d, blocks = [1]\<rparr> =
      ((EFI_SUCCESS, 2, replicate (unat n) 0xAF), \<lparr>ram_disk = d, blocks = [2, 1]\<rparr>)" for t n
    by (simp_all add: ram_fw_def ram_free_def upt_rec)
  have walk: "walk_path ram_fw [[1, 1, 4, 0], [0x7f, 0xff, 4, 0]] (Suc 0) \<lparr>ram_disk = d, blocks = []\<rparr> =
      (Inr (EFI_SUCCESS, 1, [1, 1, 4, 0, 0x7f, 0xff, 4, 0, 0x7f, 0xff, 4, 0], 12), \<lparr>ram_disk = d, blocks = [1]\<rparr>)"
    by (simp add: walk_path_def bub_malloc_def alloc fw blit_def)
  have "probe_node ram_fw [[1, 1, 4, 0], [0x7f, 0xff, 4, 0]] (Suc 0) (replicate 512 0) \<lparr>ram_disk = d, blocks = []\<rparr> =
      (Inr (Disk 100 100 1, block), \<lparr>ram_disk = d, blocks = [2, 1]\<rparr>)"
    using rd v by (simp add: probe_node_def walk bub_malloc_def alloc fw media_of_def media read_blocks_def)
  then have "disk_loop ram_fw [[1, 1, 4, 0], [0x7f, 0xff, 4, 0]] 0 (replicate 512 0) \<lparr>ram_disk = d, blocks = []\<rparr> =
      (Inr (Some (100, 100, 1)), \<lparr>ram_disk = d, blocks = [2, 1]\<rparr>)"
    by (simp add: disk_loop.simps [of _ _ 0] fw)
  then show ?thesis
    by (simp add: bub_init_def getDiskBlockIo_def fw)
qed


section \<open>The kernel\<close>

text \<open>C13: what \<open>bub_boot_kernel\<close> does with a boot partition on a working device. An image with a wrong
  magic or with sizes larger than the partition is rejected, and the header and the partition entry
  stay allocated. Any other image goes to the firmware: the bytes from \<open>page_size\<close> on, as many as
  announced; when they reach over the end of the partition the rest of the buffer is whatever the
  allocated memory held before. The disk is not changed.\<close>

theorem boot_kernel_exact:
  assumes "uefi_inv fw bio dio live img good w" "parent bub = uefi_ops fw bio dio" "block_io bub = bio"
    and "uefi_part img w name = Some c" "1632 \<le> length c" "few (live w) 4"
    and "head = boot_hdr_of (take 1632 c)" "p = unat (page_size head)" "k = unat (kernel_size head)"
  shows "if \<not> boot_image_ok head (length c)
    then \<exists>x y w'. bub_boot_kernel fw bub name w = (Inr BUB_BOOT_ERROR_PARTITION_INVALID_FORMAT, w') \<and>
      img w' = img w \<and> x \<noteq> y \<and> x \<notin> live w \<and> y \<notin> live w \<and> live w' = {x, y} \<union> live w
    else \<exists>mem w'. fresh_memory fw EfiLoaderCode (ucast (kernel_size head)) mem \<and> length mem = k \<and> img w' = img w \<and>
      bub_boot_kernel fw bub name w =
        start_kernel fw bub head (chunk p k c @ drop (length c - p) mem) w'"
proof (cases "boot_image_ok head (length c)")
  case True
  then have p: "p \<le> length c" by (auto simp: boot_image_ok_def assms(8))
  obtain mem w' where m: "length mem = k" "fresh_memory fw EfiLoaderCode (ucast (kernel_size head)) mem" "img w' = img w"
    "bub_boot_kernel fw bub name w = start_kernel fw bub head (blit 0 (chunk p (min k (length c - p)) c) mem) w'"
    using boot_kernel_run [OF assms(1-6)] True unfolding assms(7-9) by blast
  have "blit 0 (chunk p (min k (length c - p)) c) mem = chunk p k c @ drop (length c - p) mem"
    using m(1) p by (cases "k \<le> length c - p") (simp_all add: blit_def chunk_def min_def)
  with m True show ?thesis by auto
next
  case False
  then show ?thesis using boot_kernel_run [OF assms(1-6)] unfolding assms(7) by auto
qed

theorem boot_kernel_exact_witness:
  "(\<exists>w'. bub_boot_kernel ram_fw ram_bub (cstr ''boot_a'') (ram_world (ram_boot 2048)) =
     start_kernel ram_fw ram_bub (boot_hdr_of (take 1632 (ram_boot 2048)))
       (drop 416 (ram_boot 2048) @ replicate 416 0xAF) w')"
proof -
  let ?c = "ram_boot 2048"
  note F = ram_world_facts [OF ram_boot_header(1) [of 2048]]
  have "boot_image_ok (boot_hdr_of (take 1632 ?c)) (length ?c)"
    by (simp add: boot_image_ok_def ram_boot_header BOOT_HDR_SIZE_def)
  moreover have "parent ram_bub = uefi_ops ram_fw 1 2" "block_io ram_bub = 1" by (simp_all add: ram_bub_def)
  moreover have "uefi_part ram_disk (ram_world ?c) (cstr ''boot_a'') = Some ?c"
    using F(4) by (simp add: boot_partition_def)
  ultimately obtain mem w' where m: "fresh_memory ram_fw EfiLoaderCode 2048 mem"
    "bub_boot_kernel ram_fw ram_bub (cstr ''boot_a'') (ram_world ?c) =
        start_kernel ram_fw ram_bub (boot_hdr_of (take 1632 ?c)) (chunk 416 2048 ?c @ drop 1632 mem) w'"
    using boot_kernel_exact [OF F(1) _ _ _ _ F(6) refl refl refl, of ram_bub "cstr ''boot_a''" ?c]
    by (auto simp: ram_boot_header)
  obtain w1 err q w2 where a: "AllocatePool ram_fw EfiLoaderCode 2048 w1 = ((err, q, mem), w2)" "\<not> EFI_ERROR err"
    using m(1) by (auto simp: fresh_memory_def)
  then have "mem = replicate 2048 0xAF"
    by (cases "ram_free w1") (auto simp: ram_fw_def)
  moreover have "chunk 416 2048 ?c = drop 416 ?c" by (simp add: chunk_def ram_boot_header)
  ultimately show ?thesis using m(2) by auto
qed

section \<open>The command line\<close>


text \<open>A firmware that keeps the load options it is given, as bytes, in place of the disk.\<close>

definition options_fw :: "ram efi" where
  "options_fw = ram_fw\<lparr>SetLoadOptions := (\<lambda>li p s n w. w\<lparr>ram_disk := take (unat n) (u16_bytes s)\<rparr>)\<rparr>"


end
