(* ===== verification/Image_Util.thy ===== *)
theory Image_Util
  imports Bub_AbErrors
begin

text \<open>
  \<open>bub_image_util.cc\<close>: the platform operations over image files of a host directory, as the unit
  tests and \<open>make_misc_image\<close> use them, and the builder of metadata images. The host file system
  is modelled as far as the code uses it (\<open>open\<close>, \<open>lseek\<close>, \<open>read\<close>, \<open>write\<close> on regular files);
  the libchrome functions are parameters. At the end \<open>MyOps\<close> is shown to fulfil the contract
  \<open>ab_store\<close>, so that every lemma of \<open>Bub_AbFlow\<close> holds of it.
\<close>

section \<open>The host\<close>

record host_file =
  data :: "byte list"
  readable :: bool
  writable :: bool
  faulty :: bool

text \<open>The world maps the path of a file to the file; an I/O error is a property of the file.\<close>

type_synonym path = "byte list"
type_synonym host = "path \<Rightarrow> host_file option"

text \<open>
  libchrome: the path of a partition image, \<open>partition_dir_.Append (partition).AddExtension ("img")\<close>;
  the path \<open>partition_dir_.Append (name)\<close>; \<open>GetFileSize\<close>; and \<open>WriteFile\<close>, with the number of
  bytes it reports.
\<close>

record chrome =
  img_path :: "byte list \<Rightarrow> path"
  dir_path :: "byte list \<Rightarrow> path"
  get_file_size :: "host \<Rightarrow> path \<Rightarrow> u64 option"
  write_file :: "path \<Rightarrow> byte list \<Rightarrow> host \<Rightarrow> int \<times> host"

text \<open>\<open>lseek (fd, off, SEEK_SET)\<close> right after \<open>open\<close>: its result and the position left.\<close>

definition lseek_set :: "int \<Rightarrow> int \<times> nat" where
  "lseek_set off = (if off < 0 then (-1, 0) else (off, nat off))"

text \<open>\<open>write\<close> at a position; a gap after the old end is filled with zeros.\<close>

definition put_at :: "nat \<Rightarrow> byte list \<Rightarrow> byte list \<Rightarrow> byte list" where
  "put_at pos bs xs =
     (if bs = [] then xs
      else take pos (xs @ replicate (pos - length xs) 0) @ bs @ drop (pos + length bs) xs)"

section \<open>MyOps\<close>

text \<open>A negative offset counts from the end of the file; \<open>None\<close>: the size cannot be had.\<close>

definition my_offset :: "chrome \<Rightarrow> path \<Rightarrow> u64 \<Rightarrow> host \<Rightarrow> int option" where
  "my_offset cb p offset w =
     (if sint offset < 0 then
        (case get_file_size cb w p of None \<Rightarrow> None | Some file_size \<Rightarrow> Some (sint (file_size - (- offset))))
      else Some (sint offset))"

definition my_read_from_partition ::
    "chrome \<Rightarrow> byte list \<Rightarrow> byte list \<Rightarrow> u64 \<Rightarrow> u64 \<Rightarrow>
     (host, BubIOResult \<times> byte list \<times> u64 option) io" where
  "my_read_from_partition cb name buf offset num_bytes =
     bnd (c_string name) (\<lambda>s w.
     let p = img_path cb s; error = (BUB_IO_RESULT_ERROR_IO, buf, None) in
     case my_offset cb p offset w of
       None \<Rightarrow> ret error w
     | Some offset \<Rightarrow>
         (case w p of
            None \<Rightarrow> ret error w
          | Some f \<Rightarrow>
              if \<not> readable f then ret error w
              else
                let (res, pos) = lseek_set offset in
                if res \<noteq> offset then ret error w
                else if faulty f then ret error w
                else
                  let got = take (unat num_bytes) (drop pos (data f)) in
                  if length buf < length got then fail Oob_Write w
                  else ret (BUB_IO_RESULT_OK, blit 0 got buf, Some (of_nat (length got))) w))"

definition my_write_to_partition ::
    "chrome \<Rightarrow> byte list \<Rightarrow> byte list \<Rightarrow> u64 \<Rightarrow> u64 \<Rightarrow> (host, BubIOResult) io" where
  "my_write_to_partition cb name buf offset num_bytes =
     bnd (c_string name) (\<lambda>s w.
     let p = img_path cb s in
     case my_offset cb p offset w of
       None \<Rightarrow> ret BUB_IO_RESULT_ERROR_IO w
     | Some offset \<Rightarrow>
         (case w p of
            None \<Rightarrow> ret BUB_IO_RESULT_ERROR_IO w
          | Some f \<Rightarrow>
              if \<not> writable f then ret BUB_IO_RESULT_ERROR_IO w
              else
                let (res, pos) = lseek_set offset in
                if res \<noteq> offset then ret BUB_IO_RESULT_ERROR_IO w
                else if faulty f then ret BUB_IO_RESULT_ERROR_IO w
                else if length buf < unat num_bytes then fail Oob_Read w
                else ret BUB_IO_RESULT_OK
                       (w(p \<mapsto> f\<lparr>data := put_at pos (take (unat num_bytes) buf) (data f)\<rparr>))))"

text \<open>
  The constructor \<open>MyOps ()\<close> assigns two of the function pointers; the others keep whatever the
  allocation held, and a call through one of them is an access through a wild pointer.
\<close>

definition my_bub_ops :: "chrome \<Rightarrow> host BubOps" where
  "my_bub_ops cb = \<lparr>
     read_from_partition = my_read_from_partition cb,
     write_to_partition = my_write_to_partition cb,
     validate_public_key = \<lambda>key n. fail Null_Deref,
     read_rollback_index = \<lambda>i. fail Null_Deref,
     write_rollback_index = \<lambda>i x. fail Null_Deref,
     read_is_unlocked = fail Null_Deref,
     get_unique_guid_for_partition = \<lambda>name buf n. fail Null_Deref\<rparr>"

text \<open>The \<open>uint8_t\<close> parameters are cut to the width of the bit fields.\<close>

definition write_ab_metadata ::
    "byte list \<Rightarrow> byte \<Rightarrow> byte \<Rightarrow> byte \<Rightarrow> byte \<Rightarrow> byte \<Rightarrow> byte \<Rightarrow> fault + BubAbData" where
  "write_ab_metadata magic_arg a_priority a_tries_remaining a_successful_boot
     b_priority b_tries_remaining b_successful_boot =
   sbind (bub_memcpy (magic zero_ab_data) 0 magic_arg 4) (\<lambda>m.
   Inr (zero_ab_data\<lparr>magic := m,
     major_version := BUB_MAJOR_VERSION,
     minor_version := BUB_MINOR_VERSION,
     slots := [zero_slot\<lparr>priority := ucast a_priority, tries_remaining := ucast a_tries_remaining,
                  successful_boot := ucast a_successful_boot\<rparr>,
               zero_slot\<lparr>priority := ucast b_priority, tries_remaining := ucast b_tries_remaining,
                  successful_boot := ucast b_successful_boot\<rparr>]\<rparr>))"

text \<open>
  The result is the image's path, and whether the \<open>EXPECT_EQ\<close> on the number of bytes written held:
  a short write is only reported to the test framework.
\<close>

definition make_metadata_image :: "chrome \<Rightarrow> BubAbData \<Rightarrow> byte list \<Rightarrow> (host, bool \<times> path) io" where
  "make_metadata_image cb ab_metadata name =
     (let ab_metadata_be = ab_metadata\<lparr>crc32 := 0\<rparr> in
      bnd (pure (bub_crc32 0 (ab_bytes ab_metadata_be) BUB_AB_DATA_SIZE)) (\<lambda>crc.
      let image = ab_bytes (ab_metadata_be\<lparr>crc32 := bub_be32toh crc\<rparr>) in
      bnd (c_string name) (\<lambda>name.
      let image_path = dir_path cb name in
      bnd (call (write_file cb image_path image)) (\<lambda>written.
      ret (written = int BUB_AB_DATA_SIZE, image_path)))))"

section \<open>MyOps fulfils the contract\<close>

definition host_part :: "chrome \<Rightarrow> host \<Rightarrow> byte list \<Rightarrow> byte list option" where
  "host_part cb w name =
     (if 0 \<in> set name then map_option data (w (img_path cb (takeWhile (\<lambda>c. c \<noteq> 0) name))) else None)"

text \<open>Every file is accessible and of a size the types can hold, and there is a misc image.\<close>

definition host_inv :: "chrome \<Rightarrow> host \<Rightarrow> bool" where
  "host_inv cb w \<longleftrightarrow>
     (\<forall>p f. w p = Some f \<longrightarrow> readable f \<and> writable f \<and> \<not> faulty f \<and> length (data f) < 2 ^ 63) \<and>
     (\<exists>f. w (img_path cb (takeWhile (\<lambda>c. c \<noteq> 0) misc)) = Some f \<and> 64 \<le> length (data f))"

lemma zero_in_misc: "0 \<in> set misc"
  by (simp add: misc_def cstr_def)

lemma sint_of_nat_small:
  assumes "n < 2 ^ 63"
  shows "sint (of_nat n :: u64) = int n"
  using assms by (simp add: signed_of_nat signed_take_bit_int_eq_self)

lemma unat_of_nat_small: "n < 2 ^ 63 \<Longrightarrow> unat (of_nat n :: u64) = n"
  by (simp add: unsigned_of_nat take_bit_nat_eq_self)

lemma put_at_blit: "pos + length bs \<le> length xs \<Longrightarrow> put_at pos bs xs = blit pos bs xs"
  by (auto simp: put_at_def blit_def)

lemma host_read_inside:
  assumes "host_inv cb w" "host_part cb w name = Some c" "off + n \<le> length c" "length buf = n"
  shows "my_read_from_partition cb name buf (of_nat off) (of_nat n) w =
    (Inr (BUB_IO_RESULT_OK, chunk off n c, Some (of_nat n)), w)"
proof -
  obtain f where f: "0 \<in> set name" "w (img_path cb (takeWhile (\<lambda>c. c \<noteq> 0) name)) = Some f" "c = data f"
    using assms(2) by (auto simp: host_part_def split: if_splits)
  have g: "readable f" "\<not> faulty f" "length c < 2 ^ 63"
    using assms(1) f by (auto simp: host_inv_def)
  have small: "off < 2 ^ 63" "n < 2 ^ 63" using assms(3) g(3) by auto
  show ?thesis
    using f g small assms(3,4)
    by (simp add: my_read_from_partition_def c_string_def my_offset_def sint_of_nat_small
        unat_of_nat_small lseek_set_def Let_def chunk_def)
qed

lemma host_write_inside:
  assumes "host_inv cb w" "host_part cb w name = Some c" "off + length buf \<le> length c"
  shows "\<exists>w'. my_write_to_partition cb name buf (of_nat off) (of_nat (length buf)) w =
      (Inr BUB_IO_RESULT_OK, w') \<and> host_inv cb w' \<and> host_part cb w' name = Some (blit off buf c)"
proof -
  define p where "p = img_path cb (takeWhile (\<lambda>c. c \<noteq> 0) name)"
  obtain f where f: "0 \<in> set name" "w p = Some f" "c = data f"
    using assms(2) by (auto simp: host_part_def p_def split: if_splits)
  have g: "writable f" "\<not> faulty f" "length c < 2 ^ 63"
    using assms(1) f by (auto simp: host_inv_def)
  have small: "off < 2 ^ 63" "length buf < 2 ^ 63" using assms(3) g(3) by auto
  define f' where "f' = f\<lparr>data := blit off buf c\<rparr>"
  have run: "my_write_to_partition cb name buf (of_nat off) (of_nat (length buf)) w =
      (Inr BUB_IO_RESULT_OK, w(p \<mapsto> f'))"
    using f g small assms(3)
    by (simp add: my_write_to_partition_def c_string_def my_offset_def sint_of_nat_small
        unat_of_nat_small lseek_set_def Let_def put_at_blit f'_def p_def)
  have f': "readable f' = readable f" "writable f' = writable f" "faulty f' = faulty f"
    "length (data f') = length (data f)"
    using assms(3) f(3) by (simp_all add: f'_def)
  have "host_inv cb (w(p \<mapsto> f'))"
    using assms(1) f' f(2) by (auto simp: host_inv_def)
  moreover have "host_part cb (w(p \<mapsto> f')) name = Some (blit off buf c)"
    using f(1) by (simp add: host_part_def f'_def flip: p_def)
  ultimately show ?thesis using run by blast
qed

interpretation host: ab_store "my_bub_ops cb" "host_part cb" "host_inv cb" bub_print_posix for cb
proof
  fix w name c
  assume "host_inv cb w" "host_part cb w name = Some c"
  then show "length c < 2 ^ 63"
    by (auto simp: host_inv_def host_part_def split: if_splits)
next
  fix w name c and off n :: nat and buf :: "byte list"
  assume "host_inv cb w" "host_part cb w name = Some c" "off + n \<le> length c" "length buf = n"
  from host_read_inside [OF this] \<open>host_inv cb w\<close>
  show "\<exists>w'. read_from_partition (my_bub_ops cb) name buf (of_nat off) (of_nat n) w =
      (Inr (BUB_IO_RESULT_OK, chunk off n c, Some (of_nat n)), w') \<and>
      host_inv cb w' \<and> host_part cb w' = host_part cb w"
    by (simp add: my_bub_ops_def)
next
  fix w name c and off :: nat and buf :: "byte list"
  assume "host_inv cb w" "host_part cb w name = Some c" "off + length buf \<le> length c"
  from host_write_inside [OF this]
  show "\<exists>w'. write_to_partition (my_bub_ops cb) name buf (of_nat off) (of_nat (length buf)) w =
      (Inr BUB_IO_RESULT_OK, w') \<and> host_inv cb w' \<and> host_part cb w' name = Some (blit off buf c)"
    by (simp add: my_bub_ops_def)
next
  fix w
  assume "host_inv cb w"
  then show "\<exists>c. host_part cb w misc = Some c \<and> 64 \<le> length c"
    by (auto simp: host_inv_def host_part_def zero_in_misc)
qed simp

end
