(* ===== verification/Make_Misc_Image.thy ===== *)
theory Make_Misc_Image
  imports Image_Util
begin

text \<open>
  \<open>make_misc_image\<close>: the host tool that builds a misc image from six numbers on the command line.
  libchrome's command line, tokenizer and number conversion are parameters: the switches of the
  command line, the tokens of a string and the value of a token.
\<close>

section \<open>The code\<close>

type_synonym str = "byte list"

record cmdline =
  get_switch_value_ascii :: "str \<Rightarrow> str"
  get_switch_value_path :: "str \<Rightarrow> str"
  tokens :: "str \<Rightarrow> str list"
  string_to_int :: "str \<Rightarrow> int option"

text \<open>The message \<open>set_slots_from_tokens\<close> prints before it returns 0.\<close>

datatype slots_error = Need_Exactly_6 | Bad_Priority | Bad_Tries_Remaining | Bad_Successful_Boot

fun next_attribute ::
    "(str \<Rightarrow> int option) \<Rightarrow> slots_error \<Rightarrow> int \<Rightarrow> str list \<Rightarrow> slots_error + (byte \<times> str list)" where
  "next_attribute conv err hi [] = Inl Need_Exactly_6"
| "next_attribute conv err hi (t # st) =
     (case conv t of
        None \<Rightarrow> Inl err
      | Some v \<Rightarrow> if v < 0 \<or> v > hi then Inl err else Inr (word_of_int v, st))"

text \<open>One turn of the loop, on the slot as far as it is assigned.\<close>

definition slot_from_tokens ::
    "(str \<Rightarrow> int option) \<Rightarrow> str list \<Rightarrow> BubSlotData \<Rightarrow>
     (slots_error + str list) \<times> BubSlotData" where
  "slot_from_tokens conv st s =
     (case next_attribute conv Bad_Priority 15 st of
        Inl e \<Rightarrow> (Inl e, s)
      | Inr (v, st) \<Rightarrow>
          let s = s\<lparr>priority := ucast v\<rparr> in
          (case next_attribute conv Bad_Tries_Remaining 7 st of
             Inl e \<Rightarrow> (Inl e, s)
           | Inr (v, st) \<Rightarrow>
               let s = s\<lparr>tries_remaining := ucast v\<rparr> in
               (case next_attribute conv Bad_Successful_Boot 1 st of
                  Inl e \<Rightarrow> (Inl e, s)
                | Inr (v, st) \<Rightarrow> (Inr st, s\<lparr>successful_boot := ucast v\<rparr>))))"

fun set_slots_from_tokens ::
    "(str \<Rightarrow> int option) \<Rightarrow> str list \<Rightarrow> BubSlotData list \<Rightarrow>
     (slots_error + unit) \<times> BubSlotData list" where
  "set_slots_from_tokens conv st [] = (Inr (), [])"
| "set_slots_from_tokens conv st (m # ms) =
     (case slot_from_tokens conv st m of
        (Inl e, m) \<Rightarrow> (Inl e, m # ms)
      | (Inr st, m) \<Rightarrow>
          (let (r, ms) = set_slots_from_tokens conv st ms in (r, m # ms)))"

definition parse_command_line_args ::
    "cmdline \<Rightarrow> BubSlotData list \<Rightarrow> int \<times> BubSlotData list \<times> str" where
  "parse_command_line_args cl metadata =
     (let data_tokens = tokens cl (get_switch_value_ascii cl (cstr ''ab_metadata'')) in
      case set_slots_from_tokens (string_to_int cl) data_tokens metadata of
        (Inl _, metadata) \<Rightarrow> (0, metadata, [])
      | (Inr _, metadata) \<Rightarrow>
          let fname = get_switch_value_path cl (cstr ''output'') in
          (if fname = [] then 0 else 1, metadata, fname))"

definition make_misc_image :: "chrome \<Rightarrow> BubSlotData list \<Rightarrow> str \<Rightarrow> (host, int) io" where
  "make_misc_image cb metadata fname =
     bnd (pure (write_ab_metadata BUB_BOOT_CTRL_MAGIC
            (ucast (priority (metadata ! 0))) (ucast (tries_remaining (metadata ! 0)))
            (ucast (successful_boot (metadata ! 0)))
            (ucast (priority (metadata ! 1))) (ucast (tries_remaining (metadata ! 1)))
            (ucast (successful_boot (metadata ! 1))))) (\<lambda>misc_data.
     bnd (make_metadata_image cb misc_data (fname @ [0])) (\<lambda>_.
     ret 1))"

text \<open>The exit status of the program; \<open>metadata\<close> is the indeterminate local array.\<close>

definition make_misc_main :: "cmdline \<Rightarrow> chrome \<Rightarrow> BubSlotData list \<Rightarrow> (host, int) io" where
  "make_misc_main cl cb metadata =
     (let (ok, metadata, misc_name) = parse_command_line_args cl metadata in
      if ok = 0 then ret 0
      else
        bnd (make_misc_image cb metadata misc_name) (\<lambda>made.
        if made = 0 then ret 0 else ret 1))"

section \<open>What is accepted\<close>

text \<open>The values of the first six tokens.\<close>

definition six_values :: "(str \<Rightarrow> int option) \<Rightarrow> str list \<Rightarrow> int list option" where
  "six_values conv st =
     (if length st < 6 then None else those (map conv (take 6 st)))"

definition in_ranges :: "int list \<Rightarrow> bool" where
  "in_ranges vs \<longleftrightarrow> list_all2 (\<lambda>v hi. 0 \<le> v \<and> v \<le> hi) vs [15, 7, 1, 15, 7, 1]"

text \<open>The state a slot with these values is in.\<close>

definition slot_of_values :: "int \<Rightarrow> int \<Rightarrow> int \<Rightarrow> slot_state" where
  "slot_of_values p t s =
     (if p = 0 then Unbootable
      else if t > 0 then Trying (nat p) (nat t)
      else if s \<noteq> 0 then Confirmed (nat p)
      else Unbootable)"

lemma next_attribute_Inr [simp]:
  "next_attribute conv err hi st = Inr (v, st') \<longleftrightarrow>
   (\<exists>t x. st = t # st' \<and> conv t = Some x \<and> 0 \<le> x \<and> x \<le> hi \<and> v = word_of_int x)"
  by (cases st) (auto split: option.splits)

lemma ucast_word_of_int_byte:
  "LENGTH('a::len) \<le> 8 \<Longrightarrow> ucast (word_of_int v :: byte) = (word_of_int v :: 'a word)"
  by (rule bit_word_eqI) (auto simp: bit_simps)

lemma slot_from_tokens_Inr:
  "slot_from_tokens conv st s = (Inr st', s') \<longleftrightarrow>
   (\<exists>a b c p t x. st = a # b # c # st' \<and> conv a = Some p \<and> conv b = Some t \<and> conv c = Some x \<and>
      0 \<le> p \<and> p \<le> 15 \<and> 0 \<le> t \<and> t \<le> 7 \<and> 0 \<le> x \<and> x \<le> 1 \<and>
      s' = s\<lparr>priority := word_of_int p, tries_remaining := word_of_int t,
             successful_boot := word_of_int x\<rparr>)"
  by (auto simp: slot_from_tokens_def Let_def ucast_word_of_int_byte split: sum.splits)

lemma set_slots_Inr:
  "set_slots_from_tokens conv st [m0, m1] = (Inr u, ms) \<longleftrightarrow>
   (\<exists>st1 st2 s0 s1. slot_from_tokens conv st m0 = (Inr st1, s0) \<and>
      slot_from_tokens conv st1 m1 = (Inr st2, s1) \<and> ms = [s0, s1])"
  by (auto split: prod.splits sum.splits)

lemma list_six: "6 \<le> length xs \<longleftrightarrow> (\<exists>a b c d e f r. xs = a # b # c # d # e # f # r)"
  by (auto simp: numeral_eq_Suc Suc_le_length_iff)

lemma six_values_iff:
  "six_values conv st = Some vs \<longleftrightarrow>
   (\<exists>a b c d e f r p t x q u y. st = a # b # c # d # e # f # r \<and> vs = [p, t, x, q, u, y] \<and>
      conv a = Some p \<and> conv b = Some t \<and> conv c = Some x \<and>
      conv d = Some q \<and> conv e = Some u \<and> conv f = Some y)"
proof (cases "6 \<le> length st")
  case True
  then obtain a b c d e f r where "st = a # b # c # d # e # f # r" by (auto simp: list_six)
  then show ?thesis by (auto simp: six_values_def split: option.splits)
next
  case False
  then show ?thesis by (auto simp: six_values_def)
qed

lemma set_slots_accepts:
  "(\<exists>ms. set_slots_from_tokens conv st [m0, m1] = (Inr (), ms)) \<longleftrightarrow>
   (\<exists>vs. six_values conv st = Some vs \<and> in_ranges vs)"
  by (auto simp: set_slots_Inr slot_from_tokens_Inr six_values_iff in_ranges_def
      simp del: set_slots_from_tokens.simps)

lemma unat_word_of_int_small:
  assumes "0 \<le> v" "v < 2 ^ LENGTH('a::len)"
  shows "unat (word_of_int v :: 'a word) = nat v"
  using assms by (simp add: unsigned_of_int take_bit_int_eq_self)

lemma word_of_int_small_eq_0:
  assumes "0 \<le> v" "v < 2 ^ LENGTH('a::len)"
  shows "(word_of_int v :: 'a word) = 0 \<longleftrightarrow> v = 0"
  using unat_word_of_int_small [OF assms] assms(1) by (metis nat_0_iff order_antisym unat_eq_zero unat_0 of_int_0)

lemma abs_slot_of_values:
  assumes "0 \<le> p" "p \<le> 15" "0 \<le> t" "t \<le> 7" "0 \<le> x" "x \<le> 1"
  shows "abs_slot (m\<lparr>priority := word_of_int p, tries_remaining := word_of_int t,
    successful_boot := word_of_int x\<rparr>) = slot_of_values p t x"
proof -
  have "unat (word_of_int p :: 4 word) = nat p" "unat (word_of_int t :: 3 word) = nat t"
    "(word_of_int p :: 4 word) = 0 \<longleftrightarrow> p = 0" "(word_of_int t :: 3 word) = 0 \<longleftrightarrow> t = 0"
    "(word_of_int x :: 1 word) = 0 \<longleftrightarrow> x = 0"
    using assms by (simp_all add: unat_word_of_int_small word_of_int_small_eq_0)
  then show ?thesis using assms
    by (auto simp: abs_slot_def slot_of_values_def word_neq_0_conv)
qed

section \<open>What is written\<close>

text \<open>\<open>WriteFile\<close> creates or replaces the file at the path and nothing else.\<close>

definition chrome_writes :: "chrome \<Rightarrow> bool" where
  "chrome_writes cb \<longleftrightarrow>
     (\<forall>p bs w. \<exists>f. write_file cb p bs w = (int (length bs), w(p \<mapsto> f)) \<and> data f = bs \<and>
        readable f \<and> writable f \<and> \<not> faulty f)"

lemma write_ab_metadata_run:
  "write_ab_metadata BUB_BOOT_CTRL_MAGIC (ucast (priority a)) (ucast (tries_remaining a))
     (ucast (successful_boot a)) (ucast (priority b)) (ucast (tries_remaining b))
     (ucast (successful_boot b)) =
   Inr (reset_ab_data\<lparr>slots := [a\<lparr>reserved := replicate 7 0\<rparr>, b\<lparr>reserved := replicate 7 0\<rparr>]\<rparr>)"
  by (simp add: write_ab_metadata_def zero_ab_data_def reset_ab_data_def zero_slot_def Let_def
      BUB_MAJOR_VERSION_def BUB_MINOR_VERSION_def numeral_2_eq_2)

lemma make_metadata_image_run:
  assumes "chrome_writes cb" "ab_wf d" "0 \<notin> set name"
  shows "\<exists>f. make_metadata_image cb d (name @ [0]) w =
      (Inr (True, dir_path cb name), w(dir_path cb name \<mapsto> f)) \<and> data f = ab_bytes (ab_seal d) \<and>
      readable f \<and> writable f \<and> \<not> faulty f"
proof -
  have crc: "bub_crc32 0 (ab_bytes (d\<lparr>crc32 := 0\<rparr>)) 64 = Inr (ab_crc d)"
    using assms(2) by (simp add: ab_crc_def length_ab_bytes)
  have name: "takeWhile (\<lambda>c. c \<noteq> 0) (name @ [0]) = name"
    using assms(3) by (auto simp: takeWhile_append)
  obtain f where f: "write_file cb (dir_path cb name) (ab_bytes (ab_seal d)) w =
      (int (length (ab_bytes (ab_seal d))), w(dir_path cb name \<mapsto> f))" "data f = ab_bytes (ab_seal d)"
      "readable f" "writable f" "\<not> faulty f"
    using assms(1) unfolding chrome_writes_def by meson
  show ?thesis
    using f crc name assms(2)
    by (intro exI [of _ f])
       (simp add: make_metadata_image_def Let_def BUB_AB_DATA_SIZE_def c_string_def ab_seal_def length_ab_bytes)
qed

lemma abs_slot_reserved [simp]: "abs_slot (s\<lparr>reserved := r\<rparr>) = abs_slot s"
  by (simp add: abs_slot_def)

lemma make_misc_image_run:
  assumes "chrome_writes cb" "0 \<notin> set fname"
  shows "\<exists>f. make_misc_image cb [a, b] fname w = (Inr 1, w(dir_path cb fname \<mapsto> f)) \<and>
    length (data f) = 64 \<and> ab_valid (data f) \<and> abs_meta (data f) = (abs_slot a, abs_slot b)"
proof -
  define d where "d = reset_ab_data\<lparr>slots := [a\<lparr>reserved := replicate 7 0\<rparr>, b\<lparr>reserved := replicate 7 0\<rparr>]\<rparr>"
  have wf: "ab_wf d"
    unfolding d_def by (rule ab_wf_slots [OF ab_wf_reset]) (simp_all add: slot_wf_def)
  obtain f where f: "make_metadata_image cb d (fname @ [0]) w =
      (Inr (True, dir_path cb fname), w(dir_path cb fname \<mapsto> f))" "data f = ab_bytes (ab_seal d)"
    using make_metadata_image_run [OF assms(1) wf assms(2)] by blast
  have m: "abs_meta (ab_bytes (ab_seal d)) =
      (abs_slot (a\<lparr>reserved := replicate 7 0\<rparr>), abs_slot (b\<lparr>reserved := replicate 7 0\<rparr>))"
    by (rule abs_meta_ab_seal [OF wf]) (simp add: d_def)
  have v: "ab_valid (ab_bytes (ab_seal d))"
    using wf by (rule ab_valid_ab_seal) (simp add: d_def)
  have "make_misc_image cb [a, b] fname w = (Inr 1, w(dir_path cb fname \<mapsto> f))"
    using f(1) by (simp add: make_misc_image_def write_ab_metadata_run flip: d_def)
  with f(2) m v wf show ?thesis
    by (intro exI [of _ f]) (simp add: length_ab_bytes)
qed

lemma set_slots_mean:
  assumes "set_slots_from_tokens conv st [m0, m1] = (Inr (), ms)"
    and "six_values conv st = Some [p, t, x, q, u, y]"
  obtains s0 s1 where "ms = [s0, s1]" "abs_slot s0 = slot_of_values p t x" "abs_slot s1 = slot_of_values q u y"
  using assms by (auto simp: set_slots_Inr slot_from_tokens_Inr six_values_iff abs_slot_of_values
      simp del: set_slots_from_tokens.simps)

text \<open>The tool accepts a list of tokens exactly when it starts with six numbers in the ranges of
  the six bit fields (whatever follows them).\<close>

lemma set_slots_from_tokens_accepts:
  "(\<exists>ms. set_slots_from_tokens conv st [m0, m1] = (Inr (), ms)) \<longleftrightarrow>
   (\<exists>vs. six_values conv st = Some vs \<and> in_ranges vs)"
  by (rule set_slots_accepts)

text \<open>C12: what the tool writes is what the loader reads: from any accepted tokens the image at the
  output path passes the loader's magic and checksum tests and means the two slot states the six
  numbers describe; no other file changes.\<close>

theorem make_misc_image_roundtrip:
  assumes "set_slots_from_tokens conv st [m0, m1] = (Inr (), ms)"
    and "six_values conv st = Some [p, t, x, q, u, y]"
    and "chrome_writes cb" "0 \<notin> set fname"
  shows "\<exists>f. make_misc_image cb ms fname w = (Inr 1, w(dir_path cb fname \<mapsto> f)) \<and>
    ab_valid (data f) \<and> abs_meta (data f) = (slot_of_values p t x, slot_of_values q u y)"
proof -
  obtain s0 s1 where ms: "ms = [s0, s1]"
    and s: "abs_slot s0 = slot_of_values p t x" "abs_slot s1 = slot_of_values q u y"
    by (rule set_slots_mean [OF assms(1,2)])
  show ?thesis
    using make_misc_image_run [OF assms(3,4), of s0 s1 w] by (auto simp: ms s)
qed

definition test_chrome :: chrome where
  "test_chrome = \<lparr>img_path = \<lambda>p. p @ butlast (cstr ''.img''), dir_path = \<lambda>p. p,
     get_file_size = \<lambda>w p. map_option (\<lambda>f. of_nat (length (data f))) (w p),
     write_file = \<lambda>p bs w. (int (length bs),
       w(p \<mapsto> \<lparr>data = bs, readable = True, writable = True, faulty = False\<rparr>))\<rparr>"

lemma chrome_writes_test: "chrome_writes test_chrome"
  unfolding chrome_writes_def
proof (intro allI)
  fix p bs and w :: host
  show "\<exists>f. write_file test_chrome p bs w = (int (length bs), w(p \<mapsto> f)) \<and> data f = bs \<and>
      readable f \<and> writable f \<and> \<not> faulty f"
    by (rule exI [of _ "\<lparr>data = bs, readable = True, writable = True, faulty = False\<rparr>"])
       (simp add: test_chrome_def)
qed

theorem make_misc_image_roundtrip_witness:
  "\<exists>f ms. make_misc_image test_chrome ms [109] (\<lambda>_. None) = (Inr 1, [[109] \<mapsto> f]) \<and>
    ab_valid (data f) \<and> abs_meta (data f) = (Trying 9 3, Confirmed 4)"
proof -
  have "set_slots_from_tokens (\<lambda>t. Some (uint (hd t))) [[9], [3], [0], [4], [0], [1]]
      [zero_slot, zero_slot] =
    (Inr (), [zero_slot\<lparr>priority := 9, tries_remaining := 3\<rparr>,
              zero_slot\<lparr>priority := 4, successful_boot := 1\<rparr>])"
    by (simp add: slot_from_tokens_def zero_slot_def)
  from make_misc_image_roundtrip [OF this, of 9 3 0 4 0 1 test_chrome "[109]" "\<lambda>_. None"]
  show ?thesis
    by (auto simp: chrome_writes_test six_values_def slot_of_values_def) (auto simp: test_chrome_def)
qed

end
