(* ===== verification/Ab_Guarantees.thy ===== *)
theory Ab_Guarantees
  imports Make_Misc_Image Ram_Device
begin

text \<open>
  What the A/B flow guarantees on the two real providers, the firmware (\<open>uefi_frame\<close>) and the host
  files (\<open>host\<close>): the code follows the boot policy for every sequence of boots and invalidations,
  and damaged metadata is noticed and replaced.
\<close>

section \<open>Damaged metadata\<close>

lemma ab_bytes_crc_zeroed:
  assumes "length bs = 64"
  shows "ab_bytes ((ab_of bs)\<lparr>crc32 := 0\<rparr>) = take 60 bs @ [0, 0, 0, 0]"
proof -
  have z: "le_bytes 4 (0 :: u32) = [0, 0, 0, 0]" by (simp add: numeral_eq_Suc)
  have c: "le_bytes 4 (crc32 (ab_of bs)) = chunk 60 4 bs"
    using assms by (simp add: ab_of_def)
  have "ab_bytes (ab_of bs) = take 60 (ab_bytes (ab_of bs)) @ chunk 60 4 bs"
    using assms by (simp add: chunk_def)
  moreover have "take 60 (ab_bytes ((ab_of bs)\<lparr>crc32 := 0\<rparr>)) = take 60 (ab_bytes (ab_of bs))"
  proof -
    have "length (magic (ab_of bs)) = 4" "length (reserved1 (ab_of bs)) = 2"
      "length (concat (map slot_bytes (slots (ab_of bs)))) = 16" "length (reserved2 (ab_of bs)) = 36"
      using assms by (simp_all add: ab_of_def length_slot_bytes slot_wf_slot_of)
    then show ?thesis by (simp add: ab_bytes_def)
  qed
  moreover have "drop 60 (ab_bytes ((ab_of bs)\<lparr>crc32 := 0\<rparr>)) = [0, 0, 0, 0]"
  proof -
    have "length (magic (ab_of bs)) = 4" "length (reserved1 (ab_of bs)) = 2"
      "length (concat (map slot_bytes (slots (ab_of bs)))) = 16" "length (reserved2 (ab_of bs)) = 36"
      using assms by (simp_all add: ab_of_def length_slot_bytes slot_wf_slot_of)
    then show ?thesis using z by (simp add: ab_bytes_def)
  qed
  ultimately show ?thesis
    using assms by (metis ab_bytes_ab_of append_take_drop_id)
qed

lemma ab_valid_crc:
  assumes "ab_valid bs"
  shows "bub_be32toh (le_val (chunk 60 4 bs)) = crc_ref 0 (take 60 bs @ [0, 0, 0, 0])"
proof -
  have len: "length bs = 64" using assms by (simp add: ab_valid_def)
  have "bub_be32toh (crc32 (ab_of bs)) = ab_crc (ab_of bs)"
    using assms by (auto simp: ab_valid_def ab_check_def Let_def split: if_splits)
  then show ?thesis
    using ab_bytes_crc_zeroed [OF len] by (simp add: ab_crc_def ab_of_def)
qed

text \<open>Damage to up to four consecutive bytes, of the data or of the checksum.\<close>

lemma damage_detected:
  assumes "ab_valid img" "length bs \<le> 4" "off + length bs \<le> 60 \<or> 60 \<le> off" "off + length bs \<le> 64"
    and "blit off bs img \<noteq> img"
  shows "\<not> ab_valid (blit off bs img)"
proof
  assume v: "ab_valid (blit off bs img)"
  have len: "length img = 64" using assms(1) by (simp add: ab_valid_def)
  note c1 = ab_valid_crc [OF assms(1)] and c2 = ab_valid_crc [OF v]
  show False
  proof (cases "off + length bs \<le> 60")
    case True
    have same: "chunk 60 4 (blit off bs img) = chunk 60 4 img"
      using True len by (simp add: chunk_blit_after)
    define suf where "suf = drop (off + length bs) (take 60 img) @ [0, 0, 0, 0]"
    have "off = 60 \<and> bs = [] \<or> off < 60" using True by (cases bs) auto
    then have t1: "take 60 (blit off bs img) @ [0, 0, 0, 0] = take off img @ bs @ suf"
      using True len by (auto simp: blit_def suf_def min_def drop_take)
    have "take off (take 60 img) @ take (length bs) (drop off (take 60 img)) @
        drop (length bs) (drop off (take 60 img)) = take 60 img"
      by (simp only: append_take_drop_id)
    moreover have "take off (take 60 img) = take off img"
      "take (length bs) (drop off (take 60 img)) = chunk off (length bs) img"
      "drop (length bs) (drop off (take 60 img)) = drop (off + length bs) (take 60 img)"
      using True by (simp_all add: chunk_def drop_take min_def add.commute)
    ultimately have "take off img @ chunk off (length bs) img @ drop (off + length bs) (take 60 img) = take 60 img"
      by (simp only:)
    then have t2: "take 60 img @ [0, 0, 0, 0] = take off img @ chunk off (length bs) img @ suf"
      unfolding suf_def by (metis append_assoc)
    have "crc_ref 0 (take off img @ bs @ suf) = crc_ref 0 (take off img @ chunk off (length bs) img @ suf)"
      using c1 c2 same by (simp only: t1 t2)
    from crc_ref_burst [OF _ assms(2) this] have "bs = chunk off (length bs) img"
      using True len by simp
    then have "blit off bs img = img"
      by (metis append_take_drop_id blit_def chunk_def drop_drop add.commute)
    with assms(5) show False by simp
  next
    case False
    then have off: "60 \<le> off" using assms(3) by simp
    have t: "take 60 (blit off bs img) = take 60 img"
      using chunk_blit_before [of 0 60 off img bs] off assms(4) len by simp
    then have "bub_be32toh (le_val (chunk 60 4 (blit off bs img))) = bub_be32toh (le_val (chunk 60 4 img))"
      using c1 c2 by simp
    then have "(le_val (chunk 60 4 (blit off bs img)) :: u32) = le_val (chunk 60 4 img)"
      by (metis bub_be32toh_involution)
    then have "le_bytes 4 (le_val (chunk 60 4 (blit off bs img)) :: u32) = le_bytes 4 (le_val (chunk 60 4 img) :: u32)"
      by simp
    then have "chunk 60 4 (blit off bs img) = chunk 60 4 img"
      using len assms(4) by simp
    then have "drop 60 (blit off bs img) = drop 60 img"
      using len assms(4) by (simp add: chunk_def)
    with t have "blit off bs img = img" by (metis append_take_drop_id)
    with assms(5) show False by simp
  qed
qed

section \<open>The code follows the policy\<close>

lemma abs_slot_ok: "state_ok (abs_slot s)"
proof -
  have "unat (priority s) < 2 ^ 4" "unat (tries_remaining s) < 2 ^ 3"
    using unsigned_less [of "priority s"] unsigned_less [of "tries_remaining s"] by simp_all
  then show ?thesis
    by (auto simp: abs_slot_def word_less_nat_alt unat_eq_zero [symmetric] simp del: unat_eq_zero
        dest: neq0_conv [THEN iffD1])
qed

lemma abs_meta_ok: "meta_ok (abs_meta bs)"
  by (simp add: meta_ok_def abs_meta_def abs_slot_ok)

text \<open>C1: on a working device with valid metadata, every sequence of boots and invalidations, run by
  \<open>bub_ab_flow\<close> and \<open>bub_ab_mark_as_invalid\<close> through the firmware, reports exactly what the boot
  policy prescribes step by step, leaves valid metadata that means the policy's final state, keeps the
  memory pool and the partition table, and changes no byte of the disk outside the misc partition.\<close>

theorem ab_ops_refine_policy:
  assumes "uefi_inv fw bio dio live img good w" "ab_wf ab0" "3 \<le> length suffix" "3 \<le> n"
    and "ab_valid (misc_image (uefi_part img) w)"
  shows "\<exists>w'. run_ab_ops debug (bub_print fw) ab0 (uefi_ops fw bio dio) suffix n xs w =
      (map2 (op_report suffix) xs (fst (policy_run xs (abs_meta (misc_image (uefi_part img) w)))), w') \<and>
    ab_valid (misc_image (uefi_part img) w') \<and>
    abs_meta (misc_image (uefi_part img) w') =
      snd (policy_run xs (abs_meta (misc_image (uefi_part img) w))) \<and>
    framed fw bio dio live img good w w'"
  using uefi_frame.run_ops [OF framed_refl [OF assms(1)] assms(2-4), of debug xs] assms(5)
  by auto

text \<open>C2: on a working device with valid metadata a boot takes the best slot: the bootable one of the
  highest priority, slot A when both have it; and it reports that there is no valid slot exactly when
  none is bootable.\<close>

theorem flow_selects_best:
  assumes "uefi_inv fw bio dio live img good w" "ab_wf ab0" "3 \<le> length suffix" "3 \<le> n"
    and "ab_valid (misc_image (uefi_part img) w)"
  shows "\<exists>r w'. bub_ab_flow debug (bub_print fw) ab0 (uefi_ops fw bio dio) (Some suffix) n w = (Inr r, w') \<and>
    ((\<exists>x. best_slot (abs_meta (misc_image (uefi_part img) w)) x \<and>
        r = (BUB_AB_FLOW_RESULT_OK, name_suffix x @ drop 3 suffix)) \<or>
     (\<forall>x. \<not> bootable (the_slot x (abs_meta (misc_image (uefi_part img) w)))) \<and>
        fst r = BUB_AB_FLOW_ERROR_NO_VALID_SLOTS)"
proof -
  let ?s = "abs_meta (misc_image (uefi_part img) w)"
  obtain w' where run: "bub_ab_flow debug (bub_print fw) ab0 (uefi_ops fw bio dio) (Some suffix) n w =
      (Inr (flow_report (fst (policy_step ?s)) suffix), w')"
    using uefi.flow_run_valid [OF assms, of debug] by blast
  have fst_step: "fst (policy_step ?s) = policy_choice ?s"
    by (simp add: policy_step_def split: option.split)
  show ?thesis
  proof (cases "policy_choice ?s")
    case None
    with run fst_step policy_choice_None [of ?s] show ?thesis by (simp add: flow_report_def)
  next
    case (Some x)
    with run fst_step policy_choice_best [of ?s x] show ?thesis
      by (cases x) (auto simp: flow_report_def name_suffix_def)
  qed
qed

lemma ab_wf_zero: "ab_wf zero_ab_data"
  by (simp add: ab_wf_def zero_ab_data_def slot_wf_def zero_slot_def)

lemma ram_run:
  "\<exists>w'. run_ab_ops False (bub_print ram_fw) zero_ab_data (uefi_ops ram_fw 1 2) [0, 0, 0] 3 xs (ram_world (replicate 2048 0)) =
    (map2 (op_report [0, 0, 0]) xs (fst (policy_run xs (Trying 15 7, Trying 15 7))), w')"
  using uefi_frame.run_ops [OF framed_refl [OF ram_world_inv] ab_wf_zero, of "replicate 2048 0" "[0, 0, 0]" 3 False xs]
  by (auto simp: ram_world_misc ab_valid_ab_seal abs_meta_reset)

theorem ab_ops_refine_policy_witness:
  "\<exists>w'. run_ab_ops False (bub_print ram_fw) zero_ab_data (uefi_ops ram_fw 1 2) [0, 0, 0] 3 [Flow, Mark Slot_A, Flow]
      (ram_world (replicate 2048 0)) =
    ([Flowed (Inr (BUB_AB_FLOW_RESULT_OK, cstr ''_a'')), Marked (Inr 1),
      Flowed (Inr (BUB_AB_FLOW_RESULT_OK, cstr ''_b''))], w') \<and>
    abs_meta (misc_image (uefi_part ram_disk) w') = (Unbootable, Trying 15 6)"
  using ab_ops_refine_policy [OF ram_world_inv ab_wf_zero, of "replicate 2048 0" "[0, 0, 0]" 3 False
      "[Flow, Mark Slot_A, Flow]"]
  by (auto simp: ram_world_misc ab_valid_ab_seal abs_meta_reset op_report_def flow_report_def
      policy_step_def policy_choice_def policy_mark_def)

theorem flow_selects_best_witness:
  "\<exists>r w'. bub_ab_flow False (bub_print ram_fw) zero_ab_data (uefi_ops ram_fw 1 2) (Some [0, 0, 0]) 3
      (ram_world (replicate 2048 0)) = (Inr r, w') \<and>
    (\<exists>x. best_slot (Trying 15 7, Trying 15 7) x \<and> snd r = name_suffix x)"
proof -
  have "ab_valid (misc_image (uefi_part ram_disk) (ram_world (replicate 2048 0)))"
    by (simp add: ram_world_misc ab_valid_ab_seal)
  moreover have m: "abs_meta (misc_image (uefi_part ram_disk) (ram_world (replicate 2048 0))) = (Trying 15 7, Trying 15 7)"
    by (simp add: ram_world_misc abs_meta_reset)
  ultimately show ?thesis
    using flow_selects_best [OF ram_world_inv ab_wf_zero, of "replicate 2048 0" "[0, 0, 0]" 3 False]
    by (fastforce simp: all_slots)
qed



section \<open>Consequences for the device\<close>

lemma map2_Flow:
  "length cs = k \<Longrightarrow> map2 (op_report suffix) (replicate k Flow) cs = map (\<lambda>c. Flowed (Inr (flow_report c suffix))) cs"
proof (induction k arbitrary: cs)
  case (Suc k)
  then show ?case by (cases cs) (simp_all add: op_report_def)
qed simp

text \<open>The boots of a row of power cycles.\<close>

lemma boots_run:
  assumes "uefi_inv fw bio dio live img good w" "ab_wf ab0" "3 \<le> length suffix" "3 \<le> n"
    and "ab_valid (misc_image (uefi_part img) w)"
  shows "\<exists>w'. run_ab_ops debug (bub_print fw) ab0 (uefi_ops fw bio dio) suffix n (replicate k Flow) w =
      (map (\<lambda>c. Flowed (Inr (flow_report c suffix)))
         (fst (policy_run (replicate k Flow) (abs_meta (misc_image (uefi_part img) w)))), w') \<and>
    abs_meta (misc_image (uefi_part img) w') =
      snd (policy_run (replicate k Flow) (abs_meta (misc_image (uefi_part img) w)))"
  using uefi_frame.run_ops [OF framed_refl [OF assms(1)] assms(2-4), of debug "replicate k Flow"] assms(5)
  by (auto simp: map2_Flow)

text \<open>C3: damaged metadata is not used. When the stored block fails its check, the flow selects no slot,
  reports \<open>INVALID_METADATA\<close>, and installs fresh metadata in which both slots have priority 15 and 7
  tries; nothing outside misc changes.\<close>

theorem invalid_metadata_is_reset:
  assumes "uefi_inv fw bio dio live img good w" "ab_wf ab0" "3 \<le> length suffix" "3 \<le> n"
    and "\<not> ab_valid (misc_image (uefi_part img) w)"
  shows "\<exists>w'. bub_ab_flow debug (bub_print fw) ab0 (uefi_ops fw bio dio) (Some suffix) n w =
      (Inr (BUB_AB_FLOW_ERROR_INVALID_METADATA, replicate 3 0 @ drop 3 suffix), w') \<and>
    framed fw bio dio live img good w w' \<and> ab_valid (misc_image (uefi_part img) w') \<and>
    abs_meta (misc_image (uefi_part img) w') = (Trying 15 7, Trying 15 7)"
  using uefi_frame.flow_run_invalid [OF framed_refl [OF assms(1)] assms(2-4), of debug] assms(5)
  by (auto simp: ab_valid_ab_seal abs_meta_reset)

lemma zero_misc:
  "misc_image (uefi_part ram_disk) \<lparr>ram_disk = ram_image (replicate 1024 0) (replicate 2048 0) (replicate 2048 0),
     blocks = []\<rparr> = replicate 64 0"
proof -
  have "uefi_part ram_disk \<lparr>ram_disk = ram_image (replicate 1024 0) (replicate 2048 0) (replicate 2048 0),
      blocks = []\<rparr> misc = Some (replicate 1024 0)"
    by (rule ram_parts) simp_all
  then show ?thesis by (simp add: misc_image_def min_def)
qed

lemma zeros_invalid: "\<not> ab_valid (replicate 64 0)"
proof -
  have "magic (ab_of (replicate 64 0)) \<noteq> BUB_BOOT_CTRL_MAGIC"
    by (auto simp: ab_of_def BUB_BOOT_CTRL_MAGIC_def dest: arg_cong [of _ _ hd])
  then show ?thesis by (simp add: ab_valid_def ab_check_def Let_def)
qed

theorem invalid_metadata_is_reset_witness:
  "\<exists>w'. bub_ab_flow False (bub_print ram_fw) zero_ab_data (uefi_ops ram_fw 1 2) (Some [1, 2, 3]) 3
      \<lparr>ram_disk = ram_image (replicate 1024 0) (replicate 2048 0) (replicate 2048 0), blocks = []\<rparr> =
      (Inr (BUB_AB_FLOW_ERROR_INVALID_METADATA, [0, 0, 0]), w') \<and>
    abs_meta (misc_image (uefi_part ram_disk) w') = (Trying 15 7, Trying 15 7)"
  using invalid_metadata_is_reset [OF ram_inv ab_wf_zero, of "replicate 1024 0" "replicate 2048 0"
      "replicate 2048 0" "[1, 2, 3]" 3 False]
  by (auto simp: zero_misc zeros_invalid)

text \<open>From freshly reset metadata the device boots slot A seven times, then slot B seven times, and
  from then on finds no slot, if no boot is ever confirmed.\<close>

lemma reset_device_boots_7_and_7:
  assumes "uefi_inv fw bio dio live img good w" "ab_wf ab0" "3 \<le> n"
    and "ab_valid (misc_image (uefi_part img) w)"
    and "abs_meta (misc_image (uefi_part img) w) = (Trying 15 7, Trying 15 7)"
  shows "fst (run_ab_ops debug (bub_print fw) ab0 (uefi_ops fw bio dio) [0, 0, 0] n (replicate (14 + k) Flow) w) =
    replicate 7 (Flowed (Inr (BUB_AB_FLOW_RESULT_OK, cstr ''_a''))) @
    replicate 7 (Flowed (Inr (BUB_AB_FLOW_RESULT_OK, cstr ''_b''))) @
    replicate k (Flowed (Inr (BUB_AB_FLOW_ERROR_NO_VALID_SLOTS, [0, 0, 0])))"
  using boots_run [OF assms(1,2) _ assms(3,4), of "[0, 0, 0]" debug "14 + k"] assms(5)
  by (auto simp: policy_run_reset flow_report_def simp del: replicate_add policy_run.simps)

lemma reset_device_boots_7_and_7_witness:
  "fst (run_ab_ops False (bub_print ram_fw) zero_ab_data (uefi_ops ram_fw 1 2) [0, 0, 0] 3 (replicate (14 + 2) Flow)
      (ram_world (replicate 2048 0))) =
    replicate 7 (Flowed (Inr (BUB_AB_FLOW_RESULT_OK, cstr ''_a''))) @
    replicate 7 (Flowed (Inr (BUB_AB_FLOW_RESULT_OK, cstr ''_b''))) @
    replicate 2 (Flowed (Inr (BUB_AB_FLOW_ERROR_NO_VALID_SLOTS, [0, 0, 0])))"
  by (rule reset_device_boots_7_and_7 [OF ram_world_inv ab_wf_zero])
     (simp_all add: ram_world_misc ab_valid_ab_seal abs_meta_reset)


text \<open>A disk with an update in slot A over a confirmed slot B.\<close>

definition update_data :: BubAbData where
  "update_data = reset_ab_data\<lparr>slots := [zero_slot\<lparr>priority := 15, tries_remaining := 2\<rparr>,
     zero_slot\<lparr>priority := 14, successful_boot := 1\<rparr>]\<rparr>"

definition update_world :: ram where
  "update_world = \<lparr>ram_disk = ram_image (ab_bytes (ab_seal update_data) @ replicate 960 0)
     (replicate 2048 0) (replicate 2048 0), blocks = []\<rparr>"

lemma ab_wf_update: "ab_wf update_data"
  unfolding update_data_def by (rule ab_wf_slots [OF ab_wf_reset]) (simp_all add: slot_wf_def zero_slot_def)

lemma image_world_facts:
  assumes "ab_wf d" "magic d = BUB_BOOT_CTRL_MAGIC" "slots d = [a, b]"
    and "w = \<lparr>ram_disk = ram_image (ab_bytes (ab_seal d) @ replicate 960 0)
      (replicate 2048 0) (replicate 2048 0), blocks = []\<rparr>"
  shows "uefi_inv ram_fw 1 2 ram_live ram_disk ram_good w"
    "ab_valid (misc_image (uefi_part ram_disk) w)"
    "abs_meta (misc_image (uefi_part ram_disk) w) = (abs_slot a, abs_slot b)"
proof -
  have len: "length (ab_bytes (ab_seal d) @ replicate 960 0) = 1024"
    using assms(1) by (simp add: length_ab_bytes)
  show "uefi_inv ram_fw 1 2 ram_live ram_disk ram_good w"
    unfolding assms(4) by (rule ram_inv) (use len in simp_all)
  have "uefi_part ram_disk w misc = Some (ab_bytes (ab_seal d) @ replicate 960 0)"
    by (rule ram_parts) (use len in \<open>simp_all add: assms(4)\<close>)
  then have mi: "misc_image (uefi_part ram_disk) w = ab_bytes (ab_seal d)"
    using assms(1) by (simp add: misc_image_def length_ab_bytes)
  show "ab_valid (misc_image (uefi_part ram_disk) w)"
    unfolding mi by (rule ab_valid_ab_seal [OF assms(1,2)])
  show "abs_meta (misc_image (uefi_part ram_disk) w) = (abs_slot a, abs_slot b)"
    unfolding mi by (rule abs_meta_ab_seal [OF assms(1,3)])
qed

lemma update_world_facts:
  "uefi_inv ram_fw 1 2 ram_live ram_disk ram_good update_world"
  "ab_valid (misc_image (uefi_part ram_disk) update_world)"
  "abs_meta (misc_image (uefi_part ram_disk) update_world) = (Trying 15 2, Confirmed 14)"
proof -
  have d: "magic update_data = BUB_BOOT_CTRL_MAGIC"
    "slots update_data = [zero_slot\<lparr>priority := 15, tries_remaining := 2\<rparr>,
      zero_slot\<lparr>priority := 14, successful_boot := 1\<rparr>]"
    by (simp_all add: update_data_def)
  note F = image_world_facts [OF ab_wf_update d update_world_def]
  show "uefi_inv ram_fw 1 2 ram_live ram_disk ram_good update_world"
    "ab_valid (misc_image (uefi_part ram_disk) update_world)" by (rule F)+
  show "abs_meta (misc_image (uefi_part ram_disk) update_world) = (Trying 15 2, Confirmed 14)"
    using F(3) by (simp add: abs_slot_def)
qed

text \<open>One whose slot A is used up.\<close>

definition spent_data :: BubAbData where
  "spent_data = reset_ab_data\<lparr>slots := [zero_slot, zero_slot\<lparr>priority := 3, tries_remaining := 5\<rparr>]\<rparr>"

definition spent_world :: ram where
  "spent_world = \<lparr>ram_disk = ram_image (ab_bytes (ab_seal spent_data) @ replicate 960 0)
     (replicate 2048 0) (replicate 2048 0), blocks = []\<rparr>"

lemma spent_world_facts:
  "uefi_inv ram_fw 1 2 ram_live ram_disk ram_good spent_world"
  "ab_valid (misc_image (uefi_part ram_disk) spent_world)"
  "abs_meta (misc_image (uefi_part ram_disk) spent_world) = (Unbootable, Trying 3 5)"
proof -
  have wf: "ab_wf spent_data"
    unfolding spent_data_def by (rule ab_wf_slots [OF ab_wf_reset]) (simp_all add: slot_wf_def zero_slot_def)
  have d: "magic spent_data = BUB_BOOT_CTRL_MAGIC"
    "slots spent_data = [zero_slot, zero_slot\<lparr>priority := 3, tries_remaining := 5\<rparr>]"
    by (simp_all add: spent_data_def)
  note F = image_world_facts [OF wf d spent_world_def]
  show "uefi_inv ram_fw 1 2 ram_live ram_disk ram_good spent_world"
    "ab_valid (misc_image (uefi_part ram_disk) spent_world)" by (rule F)+
  show "abs_meta (misc_image (uefi_part ram_disk) spent_world) = (Unbootable, Trying 3 5)"
    using F(3) by (simp add: abs_slot_def)
qed


text \<open>C8: a slot that is unbootable, be it marked invalid, exhausted or never written, is never selected
  again, whatever the order of the boots and invalidations that follow.\<close>

theorem unbootable_never_selected:
  assumes "uefi_inv fw bio dio live img good w" "ab_wf ab0" "3 \<le> n"
    and "ab_valid (misc_image (uefi_part img) w)"
    and "the_slot m (abs_meta (misc_image (uefi_part img) w)) = Unbootable"
  shows "Flowed (Inr (BUB_AB_FLOW_RESULT_OK, name_suffix m)) \<notin>
    set (fst (run_ab_ops debug (bub_print fw) ab0 (uefi_ops fw bio dio) [0, 0, 0] n xs w))"
proof
  let ?s = "abs_meta (misc_image (uefi_part img) w)"
  let ?cs = "fst (policy_run xs ?s)"
  assume "Flowed (Inr (BUB_AB_FLOW_RESULT_OK, name_suffix m)) \<in>
    set (fst (run_ab_ops debug (bub_print fw) ab0 (uefi_ops fw bio dio) [0, 0, 0] n xs w))"
  then have "Flowed (Inr (BUB_AB_FLOW_RESULT_OK, name_suffix m)) \<in> set (map2 (op_report [0, 0, 0]) xs ?cs)"
    using uefi_frame.run_ops [OF framed_refl [OF assms(1)] assms(2) _ assms(3), of "[0, 0, 0]" debug xs] assms(4)
    by auto
  then obtain i where i: "i < length xs"
    "op_report [0, 0, 0] (xs ! i) (?cs ! i) = Flowed (Inr (BUB_AB_FLOW_RESULT_OK, name_suffix m))"
    by (auto simp: in_set_conv_nth)
  from i(2) have "xs ! i = Flow" by (cases "xs ! i") (simp_all add: op_report_def)
  moreover from i(2) this have "?cs ! i = Some m"
    by (cases "?cs ! i"; cases "the (?cs ! i)"; cases m)
      (simp_all add: op_report_def flow_report_def name_suffix_def cstr_def)
  ultimately show False
    using policy_run_unbootable [OF assms(5) i(1)] by simp
qed

theorem unbootable_never_selected_witness:
  "Flowed (Inr (BUB_AB_FLOW_RESULT_OK, name_suffix Slot_A)) \<notin>
    set (fst (run_ab_ops False (bub_print ram_fw) zero_ab_data (uefi_ops ram_fw 1 2) [0, 0, 0] 3 [Flow, Mark Slot_B, Flow] spent_world))"
  by (rule unbootable_never_selected [OF spent_world_facts(1) ab_wf_zero _ spent_world_facts(2)])
     (simp_all add: spent_world_facts(3))




lemma reset_image_byte_0: "ab_bytes (ab_seal reset_ab_data) ! 0 = 66"
  by (simp add: ab_bytes_def ab_seal_def BUB_BOOT_CTRL_MAGIC_def)


end
