(* ===== verification/Uefi_Guarantees.thy ===== *)
theory Uefi_Guarantees
  imports Bub_Main
begin

text \<open>
  What the firmware back end and the kernel loader guarantee, and where the code is weaker than its
  contract: the partition table, the transfers to and from partitions, the memory pool and the
  checks of a boot image.
\<close>

section \<open>The partition table\<close>

lemma gpth_bytes_crc_zeroed:
  assumes "length bs = 512"
  shows "gpth_bytes ((gpth_of bs)\<lparr>header_crc32 := 0\<rparr>) = blit 16 [0, 0, 0, 0] bs"
proof -
  have z: "le_bytes 4 (0 :: u32) = [0, 0, 0, 0]" by (simp add: numeral_eq_Suc)
  let ?h = "gpth_of bs"
  have split: "gpth_bytes h = (signature h @ le_bytes 4 (revision h) @ le_bytes 4 (header_size h)) @
      le_bytes 4 (header_crc32 h) @ drop 20 (gpth_bytes h)" if "length (signature h) = 8" for h
    using that by (simp add: gpth_bytes_def)
  have sig: "length (signature ?h) = 8" "length (signature (?h\<lparr>header_crc32 := 0\<rparr>)) = 8"
    using assms by (simp_all add: gpth_of_def)
  have pre: "signature ?h @ le_bytes 4 (revision ?h) @ le_bytes 4 (header_size ?h) = take 16 bs"
  proof -
    have "take 16 (gpth_bytes ?h) = signature ?h @ le_bytes 4 (revision ?h) @ le_bytes 4 (header_size ?h)"
      using sig(1) by (simp add: gpth_bytes_def)
    then show ?thesis using assms by simp
  qed
  have "drop 20 (gpth_bytes (?h\<lparr>header_crc32 := 0\<rparr>)) = drop 20 (gpth_bytes ?h)"
    using sig by (simp add: gpth_bytes_def)
  then show ?thesis
    using split [OF sig(2)] z pre assms by (simp add: blit_def)
qed

text \<open>The header check accepts exactly the blocks that start with the GPT signature, announce a
  header size between 92 and 512, carry the revision 1.0 and whose checksum field holds the CRC of
  the announced bytes with that field zeroed; every other block is \<open>EFI_NOT_FOUND\<close>. The check returns
  on every block, reads nothing outside of it and leaves the memory pool as it was.\<close>

lemma validate_gpt_accepts:
  assumes "length bs = 512" "pool_ok fw live"
  shows "\<exists>w'. validate_gpt fw (gpth_of bs) w = (Inr
    (if chunk 0 8 bs = take 8 GPT_MAGIC \<and> 92 \<le> header_size (gpth_of bs) \<and> header_size (gpth_of bs) \<le> 512 \<and>
        header_crc32 (gpth_of bs) =
          CalculateCrc fw (take (unat (header_size (gpth_of bs))) (blit 16 [0, 0, 0, 0] bs)) \<and>
        revision (gpth_of bs) = 0x00010000
     then EFI_SUCCESS else EFI_NOT_FOUND), w') \<and> live w' = live w"
proof -
  have "length (signature (gpth_of bs)) = 8" "signature (gpth_of bs) = chunk 0 8 bs"
    using assms(1) by (simp_all add: gpth_of_def)
  from validate_gpt_run [OF this(1) assms(2), of w] this(2) show ?thesis
    by (auto simp only: gpt_header_ok_def gpth_bytes_crc_zeroed [OF assms(1)] GPT_REVISION_def)
qed

lemma validate_gpt_accepts_witness:
  "fst (validate_gpt ram_fw (gpth_of (take 8 GPT_MAGIC @ [0, 0, 1, 0] @ [92, 0, 0, 0] @ replicate 496 0)) (ram_world [])) =
   Inr EFI_SUCCESS \<and>
   fst (validate_gpt ram_fw (gpth_of (replicate 512 0)) (ram_world [])) = Inr EFI_NOT_FOUND"
proof -
  let ?bs = "take 8 GPT_MAGIC @ [0, 0, 1, 0] @ [92, 0, 0, 0] @ replicate 496 0 :: byte list"
  have "chunk 16 4 (?bs) = replicate 4 0"
    by (simp add: chunk_def GPT_MAGIC_def cstr_def)
  then have "header_crc32 (gpth_of ?bs) = 0" by (simp add: gpth_of_def numeral_eq_Suc)
  moreover have "chunk 8 4 ?bs = [0, 0, 1, 0]" "chunk 12 4 ?bs = [92, 0, 0, 0]" "chunk 0 8 ?bs = take 8 GPT_MAGIC"
    by (simp_all add: chunk_def GPT_MAGIC_def cstr_def)
  then have "revision (gpth_of ?bs) = 0x00010000" "header_size (gpth_of ?bs) = 92" "chunk 0 8 ?bs = take 8 GPT_MAGIC"
    by (simp_all add: gpth_of_def)
  moreover have "length ?bs = 512" by simp
  from validate_gpt_accepts [OF this pool_ok_ram, of "ram_world []"] calculation
  have "fst (validate_gpt ram_fw (gpth_of ?bs) (ram_world [])) = Inr EFI_SUCCESS"
    by (auto simp: ram_fw_def)
  moreover have "header_size (gpth_of (replicate 512 0)) = 0"
    by (simp add: gpth_of_def chunk_def numeral_eq_Suc)
  then have "fst (validate_gpt ram_fw (gpth_of (replicate 512 0)) (ram_world [])) = Inr EFI_NOT_FOUND"
    using validate_gpt_accepts [of "replicate 512 0" ram_fw ram_live "ram_world []", OF _ pool_ok_ram] by auto
  ultimately show ?thesis by blast
qed



lemma find_entry_over:
  assumes "128 < unat count" "i \<le> 128"
  shows "find_entry fw count len wanted all i =
    (case find_entry fw 128 len wanted all i of Inr None \<Rightarrow> Inl Oob_Read | r \<Rightarrow> r)"
  using assms(2)
proof (induction "128 - i" arbitrary: i rule: less_induct)
  case less
  show ?case
  proof (cases "i < 128")
    case True
    then have "find_entry fw count len wanted all (Suc i) =
      (case find_entry fw 128 len wanted all (Suc i) of Inr None \<Rightarrow> Inl Oob_Read | r \<Rightarrow> r)"
      using less by simp
    then show ?thesis
      using True assms(1)
      by (subst (1 2) find_entry.simps)
         (auto simp: MAX_GPT_ENTRIES_def Let_def sbind_def split: sum.splits)
  next
    case False
    then show ?thesis
      using assms(1) less.prems by (subst (1 2) find_entry.simps) (simp add: MAX_GPT_ENTRIES_def)
  qed
qed

text \<open>The number of entries is taken from the header without a bound, the array has 128 elements: a
  header that announces more makes every search for a name that is not among the first 128 read
  behind the array.\<close>

lemma long_table_overrun:
  assumes "128 < unat count" "find_entry fw 128 len wanted all 0 = Inr None"
  shows "find_entry fw count len wanted all 0 = Inl Oob_Read"
  using find_entry_over [OF assms(1), of 0 fw len wanted all] assms(2) by simp

lemma long_table_overrun_witness:
  "find_entry ram_fw 129 1 [65, 0, 0, 0] (replicate 16384 0) 0 = Inl Oob_Read"
proof (rule long_table_overrun)
  have e: "entry_name (gpt_entry_of (chunk (128 * i) 128 (replicate 16384 0))) = replicate 36 0" if "i < 128" for i
  proof -
    have "chunk (128 * i) 128 (replicate 16384 (0 :: byte)) = replicate 128 0"
      using that by (simp add: chunk_def)
    then show ?thesis
      using u16_list_zeros [of 36] by (simp add: gpt_entry_of_def chunk_def)
  qed
  have "strlen_ok ram_fw" using dev_ok_ram dev_okD(2) by blast
  then have "find_entry ram_fw 128 1 [65, 0, 0, 0] (replicate 16384 0) 0 =
    Inr (find (\<lambda>i. chars (entry_name (gpt_entry_of (chunk (128 * i) 128 (replicate 16384 0)))) =
      chars (u16_list [65, 0, 0, 0])) [0..<128])"
    using find_entry_run [of ram_fw "replicate 16384 0" 128 "[65, 0, 0, 0]" 1 0] e
    by (simp add: list_all_iff chars_def)
  moreover have "find (\<lambda>i. chars (entry_name (gpt_entry_of (chunk (128 * i) 128 (replicate 16384 0)))) =
      chars (u16_list [65, 0, 0, 0])) [0..<128] = None"
    using e by (auto simp: find_None_iff chars_def)
  ultimately show "find_entry ram_fw 128 1 [65, 0, 0, 0] (replicate 16384 0) 0 = Inr None" by simp
qed simp

section \<open>Transfers\<close>

text \<open>C18: neither a read nor a write leaks or loses memory: whenever one of them returns, with whatever
  result and on whatever firmware that runs its pool as specified, the live blocks are those from
  before.\<close>

theorem partition_io_keeps_pool:
  assumes "pool_ok fw live"
  shows "(bub_read_from_partition fw bio dio name buf off n w = (Inr r, w') \<longrightarrow> live w' = live w) \<and>
    (bub_write_to_partition fw bio dio name buf off n w = (Inr s, w') \<longrightarrow> live w' = live w)"
  using read_keeps_pool [OF assms] write_keeps_pool [OF assms] by blast

theorem partition_io_keeps_pool_witness:
  "\<exists>r w'. bub_read_from_partition ram_fw 1 2 misc [0, 0] 0 2 (ram_world (replicate 2048 0)) = (Inr r, w') \<and>
    ram_live w' = ram_live (ram_world (replicate 2048 0))"
proof -
  have inv: "uefi_inv ram_fw 1 2 ram_live ram_disk ram_good (ram_world (replicate 2048 0))"
    by (rule ram_world_inv) simp
  have part: "uefi_part ram_disk (ram_world (replicate 2048 0)) misc = Some ram_misc"
    by (rule ram_parts [of ram_misc "replicate 2048 0" "replicate 2048 0"]) (simp_all add: ram_world_def)
  have at: "at_offset (length ram_misc) 0 0" by (simp add: at_offset_def)
  have k: "2 = min (unat (2 :: u64)) (length ram_misc - 0)" by simp
  have "2 \<le> length [0 :: byte, 0]" by simp
  from uefi_read_run [OF inv part at k this] obtain r w' where
    run: "bub_read_from_partition ram_fw 1 2 misc [0, 0] 0 2 (ram_world (replicate 2048 0)) = (Inr r, w')"
    by (elim exE conjE) (rule that)
  from conjunct1 [OF partition_io_keeps_pool [OF pool_ok_ram], THEN mp, OF run] run
  show ?thesis by (intro exI [of _ r] exI [of _ w'] conjI)
qed

text \<open>
  A positive offset behind the end of the partition: the size left over wraps around, the range check
  passes, and the transfer starts behind the partition.
\<close>

lemma uefi_read_beyond:
  assumes "uefi_inv fw bio dio live img good w" "uefi_part img w name = Some c"
    and "gpt_lookup (img w) name = Some e"
    and "length c < pos" "entry_start e + pos + k \<le> length (img w)" "k \<le> length buf"
  shows "\<exists>w'. bub_read_from_partition fw bio dio name buf (of_nat pos) (of_nat k) w =
      (Inr (BUB_IO_RESULT_OK, blit 0 (chunk (entry_start e + pos) k (img w)) buf, Some (of_nat k)), w')"
proof -
  obtain p mem w1 where e: "bub_partition_entry_by_name fw bio name w = (Inr (EFI_SUCCESS, p, mem), w1)"
    "gpt_entry_of mem = e" "entry_ok (img w) e" "length c = entry_bytes e" "p \<in> live w1" "live w1 - {p} = live w"
    "good w1" "img w1 = img w"
    by (rule uefi_entry [OF assms(1,2)]) (use assms(3) in auto)
  have D: "dev_ok fw bio dio live img good" using assms(1) by (simp add: uefi_inv_def)
  have b: "length (img w) < 2 ^ 63" using dev_okD(4) [OF D e(7)] e(8) by simp
  define m where "m = Media fw bio w1"
  have m: "BlockSize m = 512" using dev_okD(3) [OF D e(7)] by (simp add: m_def)
  note sz = IMG_SIZE_run [OF e(3) b m]
  have small: "pos < 2 ^ 63" "k < 2 ^ 63" "entry_start e + pos < 2 ^ 63" "entry_bytes e < 2 ^ 63"
    using assms(4,5) b e(4) by auto
  have nonneg: "\<not> sint (of_nat pos :: u64) < 0"
    using small(1) by (simp add: signed_of_nat signed_take_bit_int_eq_self)
  have wrap: "\<not> (of_nat (entry_bytes e) - of_nat pos :: u64) < of_nat k"
  proof -
    have "unat (of_nat (entry_bytes e) - of_nat pos :: u64) = 2 ^ 64 - (pos - entry_bytes e)"
      using small(1,4) assms(4) e(4)
      by (simp add: unat_sub_if' unat_of_nat_63 [OF small(1)] unat_of_nat_63 [OF small(4)])
    then show ?thesis
      using small(1,2) unat_of_nat_63 [OF small(2)] by (simp add: word_less_nat_alt)
  qed
  have adr: "of_nat (entry_start e) + of_nat pos = (of_nat (entry_start e + pos) :: u64)" by simp
  have uns: "unat (of_nat (entry_start e + pos) :: u64) = entry_start e + pos" "unat (of_nat k :: u64) = k"
    using small by (simp_all only: unat_of_nat_63)
  obtain err w2 where w2: "read_disk fw dio (MediaId m) (of_nat (entry_start e + pos)) (of_nat k) buf w1 =
      (Inr (err, blit 0 (chunk (entry_start e + pos) k (img w)) buf), w2)" "\<not> EFI_ERROR err"
    "live w2 = live w1" "good w2" "img w2 = img w"
    using good_read_disk [OF D e(7), of "of_nat (entry_start e + pos)" "of_nat k" buf "MediaId m"]
      uns assms(5,6) e(8) by (auto simp: keeps_def)
  obtain w3 where w3: "bub_free fw p w2 = (Inr (), w3)"
    using good_free [OF D w2(4), of p] w2(3,5) e(5) by (auto simp: keeps_def)
  have "bub_read_from_partition fw bio dio name buf (of_nat pos) (of_nat k) w =
      (Inr (BUB_IO_RESULT_OK, blit 0 (chunk (entry_start e + pos) k (img w)) buf, Some (of_nat k)), w3)"
    using e(1,2) w2(1,2) w3(1) nonneg wrap
    by (simp only: bub_read_from_partition_def media_of_def Let_def bnd_Inr prod.case simp_thms
        EFI_SUCCESS_no_error if_False sz(1,2) adr ret_run flip: m_def)
  then show ?thesis ..
qed

text \<open>C19: a read at an offset behind the end of a partition is not refused: it succeeds and returns
  bytes of the disk that do not belong to the partition, with the full count asked for.\<close>

theorem partition_read_escapes:
  assumes "uefi_inv fw bio dio live img good w" "uefi_part img w name = Some c"
    and "gpt_lookup (img w) name = Some e"
    and "length c < pos" "entry_start e + pos + k \<le> length (img w)"
  shows "\<exists>w'. bub_read_from_partition fw bio dio name (replicate k 0) (of_nat pos) (of_nat k) w =
      (Inr (BUB_IO_RESULT_OK, chunk (entry_start e + pos) k (img w), Some (of_nat k)), w')"
  using uefi_read_beyond [OF assms, of "replicate k 0"] assms(5) by simp

theorem partition_read_escapes_witness:
  "\<exists>w'. bub_read_from_partition ram_fw 1 2 misc [0, 0] 1026 2 (ram_world (replicate 2048 7)) =
      (Inr (BUB_IO_RESULT_OK, [7, 7], Some 2), w')"
proof -
  let ?w = "ram_world (replicate 2048 7)"
  have inv: "uefi_inv ram_fw 1 2 ram_live ram_disk ram_good ?w" by (rule ram_world_inv) simp
  have part: "uefi_part ram_disk ?w misc = Some ram_misc"
    by (rule ram_parts [of ram_misc "replicate 2048 7" "replicate 2048 0"]) (simp_all add: ram_world_def)
  have look: "gpt_lookup (ram_disk ?w) misc = Some (gpt_entry_of e_misc)"
    by (simp add: ram_world_def ram_lookup)
  have len: "length (ram_disk ?w) = 22528" by (simp add: ram_world_def length_ram_image)
  have part_a: "uefi_part ram_disk ?w (cstr ''boot_a'') = Some (replicate 2048 7)"
    by (rule ram_parts [of ram_misc "replicate 2048 7" "replicate 2048 0"]) (simp_all add: ram_world_def)
  then have "chunk 18432 2048 (ram_disk ?w) = replicate 2048 7"
    by (simp add: uefi_part_def ram_world_def ram_lookup ram_sizes)
  then have "chunk 2 2 (chunk 18432 2048 (ram_disk ?w)) = [7, 7]" by (simp add: chunk_def numeral_2_eq_2)
  then have "chunk 18434 2 (ram_disk ?w) = [7, 7]" by (simp add: chunk_chunk)
  moreover have "replicate 2 0 = [0, 0 :: byte]" by (simp add: numeral_2_eq_2)
  ultimately show ?thesis
    using partition_read_escapes [OF inv part look, of 1026 2] len by (simp add: ram_sizes)
qed

end
