(* ===== verification/Ab_Test.thy ===== *)
theory Ab_Test
  imports Make_Misc_Image
begin

text \<open>
  What the unit tests of \<open>bub_ab_flow_unittest.cc\<close> and \<open>make_misc_image_unittest.cc\<close> run on: the
  fixture \<open>AbTest\<close> of \<open>bub_image_util.cc\<close>, the heap functions of \<open>bub_sysdeps_posix.c\<close>, and of gtest
  the count of failed expectations. The second half shows what the fixture does on a host whose
  libchrome works as documented.
\<close>

section \<open>The world of a test\<close>

text \<open>
  \<open>heap\<close> is the number of bytes \<open>malloc\<close> can still hand out, \<open>stale\<close> what a fresh block holds and
  \<open>failures\<close> how many expectations have failed. An \<open>EXPECT\<close> macro that fails is counted and the test
  goes on.
\<close>

record gworld =
  files :: host
  heap :: nat
  stale :: "nat \<Rightarrow> byte"
  failures :: nat

definition on_files :: "(host, 'a) io \<Rightarrow> (gworld, 'a) io" where
  "on_files m = (\<lambda>w. case m (files w) of (r, f) \<Rightarrow> (r, w\<lparr>files := f\<rparr>))"

definition expect :: "bool \<Rightarrow> (gworld, unit) io" where
  "expect b = (\<lambda>w. (Inr (), if b then w else w\<lparr>failures := Suc (failures w)\<rparr>))"

text \<open>\<open>EXPECT_EQ (0, bub_memcmp (a, b, n))\<close>.\<close>

definition expect_memcmp :: "byte list \<Rightarrow> byte list \<Rightarrow> nat \<Rightarrow> (gworld, unit) io" where
  "expect_memcmp a b n = bnd (pure (bub_memcmp a b n)) (\<lambda>r. expect (r = 0))"

primrec in_order :: "('w, unit) io list \<Rightarrow> ('w, unit) io" where
  "in_order [] = ret ()"
| "in_order (m # ms) = bnd m (\<lambda>_. in_order ms)"

section \<open>The heap of the host\<close>

text \<open>\<open>bub_malloc_\<close> and \<open>bub_free\<close> of \<open>bub_sysdeps_posix.c\<close>; \<open>None\<close> is NULL, a block is its contents.\<close>

definition bub_malloc_posix :: "nat \<Rightarrow> (gworld, byte list option) io" where
  "bub_malloc_posix n = (\<lambda>w.
     if n \<le> heap w then (Inr (Some (map (stale w) [0..<n])), w\<lparr>heap := heap w - n\<rparr>)
     else (Inr None, w))"

definition bub_free_posix :: "byte list option \<Rightarrow> (gworld, unit) io" where
  "bub_free_posix ptr = (\<lambda>w.
     case ptr of None \<Rightarrow> (Inr (), w) | Some mem \<Rightarrow> (Inr (), w\<lparr>heap := heap w + length mem\<rparr>))"

definition bub_calloc_posix :: "nat \<Rightarrow> (gworld, byte list option) io" where
  "bub_calloc_posix n =
     bnd (bub_malloc_posix n) (\<lambda>x.
     case x of None \<Rightarrow> ret None
     | Some mem \<Rightarrow> bnd (pure (bub_memset mem 0 n)) (\<lambda>mem. ret (Some mem)))"

section \<open>The fixture\<close>

text \<open>
  What a test depends on besides the world: \<open>mkdtemp\<close>, with the libchrome paths of the directory it
  makes; whether the host build has its assertions on; and the indeterminate contents of the local
  structure of \<open>bub_ab_flow\<close>.
\<close>

record test_env =
  mkdtemp :: "host \<Rightarrow> chrome option \<times> host"
  dbg :: bool
  ab_local :: BubAbData

text \<open>
  \<open>SetUp\<close>: \<open>strdup\<close> of the 22-byte template, a NULL result of which \<open>mkdtemp\<close> would access; a failed
  \<open>ASSERT_TRUE\<close> is a failure that returns at once (without the \<open>free\<close>) and skips the test.
\<close>

definition SetUp :: "test_env \<Rightarrow> (gworld, chrome option) io" where
  "SetUp env =
     bnd (bub_malloc_posix 22) (\<lambda>buf.
     case buf of None \<Rightarrow> fail Null_Deref
     | Some buf \<Rightarrow>
         bnd (on_files (call (mkdtemp env))) (\<lambda>dir.
         case dir of None \<Rightarrow> bnd (expect False) (\<lambda>_. ret None)
         | Some cb \<Rightarrow> bnd (bub_free_posix (Some buf)) (\<lambda>_. ret (Some cb))))"

definition TEST_F :: "test_env \<Rightarrow> (chrome \<Rightarrow> (gworld, unit) io) \<Rightarrow> (gworld, unit) io" where
  "TEST_F env body = bnd (SetUp env) (\<lambda>dir. case dir of None \<Rightarrow> ret () | Some cb \<Rightarrow> body cb)"

definition GenerateMiscImage :: "chrome \<Rightarrow> BubAbData \<Rightarrow> (gworld, unit) io" where
  "GenerateMiscImage cb ab_metadata =
     bnd (on_files (make_metadata_image cb ab_metadata (cstr ''misc.img''))) (\<lambda>(ok, _). expect ok)"

text \<open>The expectations on one slot of the expected and of the actual metadata.\<close>

definition compare_slot :: "BubSlotData \<Rightarrow> BubSlotData \<Rightarrow> (gworld, unit) io" where
  "compare_slot expected actual = in_order [
     expect (priority expected = priority actual),
     expect (tries_remaining expected = tries_remaining actual),
     expect (successful_boot expected = successful_boot actual),
     expect_memcmp (reserved expected) (reserved actual) 7]"

text \<open>
  \<open>CompareMiscImage\<close>. The result of \<open>bub_calloc\<close> is not tested: \<open>read (2)\<close> into NULL fails or
  transfers nothing, and either way the function reports it and returns 1.
\<close>

definition CompareMiscImage :: "chrome \<Rightarrow> BubAbData \<Rightarrow> (gworld, int) io" where
  "CompareMiscImage cb ab_expected =
     bnd (bub_calloc_posix BUB_AB_DATA_SIZE) (\<lambda>ab_actual.
     let expected = ab_expected\<lparr>crc32 := 0\<rparr> in
     bnd (pure (bub_crc32 0 (ab_bytes expected) BUB_AB_DATA_SIZE)) (\<lambda>crc.
     let expected = expected\<lparr>crc32 := bub_be32toh crc\<rparr> in
     case ab_actual of None \<Rightarrow> ret 1
     | Some mem \<Rightarrow>
         bnd (on_files (read_from_partition (my_bub_ops cb) misc mem 0 (of_nat BUB_AB_DATA_SIZE)))
           (\<lambda>(io_result, mem, num_bytes_read).
         if io_result \<noteq> BUB_IO_RESULT_OK \<or> num_bytes_read \<noteq> Some (of_nat BUB_AB_DATA_SIZE)
         then bnd (bub_free_posix (Some mem)) (\<lambda>_. ret 1)
         else
           let actual = ab_of mem in
           bnd (in_order [
             expect_memcmp (ab_bytes expected) mem 8,
             compare_slot (slots expected ! 0) (slots actual ! 0),
             compare_slot (slots expected ! 1) (slots actual ! 1),
             expect_memcmp (reserved2 actual) (reserved2 expected) 36,
             expect (crc32 expected = crc32 actual),
             bub_free_posix (Some mem)]) (\<lambda>_.
           ret 0))))"

section \<open>A host as documented\<close>

text \<open>
  libchrome writes what it is told to where it is told to, the image of the partition \<open>misc\<close> is the
  file \<open>misc.img\<close> of the directory; and the files of the host are accessible and not too long.
\<close>

definition chrome_doc :: "chrome \<Rightarrow> bool" where
  "chrome_doc cb \<longleftrightarrow> chrome_writes cb \<and>
     img_path cb (butlast misc) = dir_path cb (butlast (cstr ''misc.img''))"

definition sound_files :: "host \<Rightarrow> bool" where
  "sound_files f \<longleftrightarrow>
     (\<forall>p h. f p = Some h \<longrightarrow> readable h \<and> writable h \<and> \<not> faulty h \<and> length (data h) < 2 ^ 63)"

definition env_doc :: "test_env \<Rightarrow> bool" where
  "env_doc env \<longleftrightarrow> ab_wf (ab_local env) \<and>
     (\<forall>f. sound_files f \<longrightarrow> (\<exists>cb f'. mkdtemp env f = (Some cb, f') \<and> chrome_doc cb \<and> sound_files f'))"

lemma on_files_run [simp]: "m (files w) = (r, f) \<Longrightarrow> on_files m w = (r, w\<lparr>files := f\<rparr>)"
  by (simp add: on_files_def)

lemma expect_True [simp]: "expect True w = (Inr (), w)"
  by (simp add: expect_def)

lemma expect_memcmp_same [simp]:
  "n \<le> length a \<Longrightarrow> n \<le> length b \<Longrightarrow> take n a = take n b \<Longrightarrow> expect_memcmp a b n w = (Inr (), w)"
  by (simp add: expect_memcmp_def bub_memcmp_def diff_bytes_eq_0_iff)

lemma compare_slot_same [simp]: "slot_wf s \<Longrightarrow> compare_slot s s w = (Inr (), w)"
  by (simp add: compare_slot_def slot_wf_def)

lemma bub_calloc_posix_run:
  "bub_calloc_posix n w =
     (if n \<le> heap w then (Inr (Some (replicate n 0)), w\<lparr>heap := heap w - n\<rparr>) else (Inr None, w))"
  by (simp add: bub_calloc_posix_def bub_malloc_posix_def)

text \<open>The metadata the tests write for given slots.\<close>

definition test_slot :: "byte \<Rightarrow> byte \<Rightarrow> byte \<Rightarrow> BubSlotData" where
  "test_slot p t s = zero_slot\<lparr>priority := ucast p, tries_remaining := ucast t, successful_boot := ucast s\<rparr>"

definition test_data :: "BubSlotData \<Rightarrow> BubSlotData \<Rightarrow> BubAbData" where
  "test_data a b = reset_ab_data\<lparr>slots := [a, b]\<rparr>"

lemma write_ab_metadata_test:
  assumes "length m = 4"
  shows "write_ab_metadata m p t s q u v = Inr ((test_data (test_slot p t s) (test_slot q u v))\<lparr>magic := m\<rparr>)"
  using assms by (simp add: write_ab_metadata_def zero_ab_data_def test_data_def reset_ab_data_def
      test_slot_def zero_slot_def Let_def BUB_MAJOR_VERSION_def BUB_MINOR_VERSION_def numeral_2_eq_2)

lemma test_data_fields [simp]:
  "slots (test_data a b) = [a, b]" "magic (test_data a b) = BUB_BOOT_CTRL_MAGIC"
  "(test_data a b)\<lparr>slots := [x, y]\<rparr> = test_data x y"
  "(test_data a b)\<lparr>magic := BUB_BOOT_CTRL_MAGIC\<rparr> = test_data a b"
  by (simp_all add: test_data_def reset_ab_data_def Let_def)

lemma test_data_wf [simp]:
  "slot_wf a \<Longrightarrow> slot_wf b \<Longrightarrow> ab_wf (test_data a b)"
  "slot_wf (test_slot p t s)"
  by (simp_all add: test_data_def ab_wf_slots test_slot_def) (simp add: slot_wf_def zero_slot_def)

lemma reset_test_data: "reset_ab_data = test_data (test_slot 15 7 0) (test_slot 15 7 0)"
  by (simp add: test_data_def test_slot_def reset_ab_data_def Let_def zero_slot_def)

text \<open>\<open>holds cb a b w\<close>: the misc image in \<open>w\<close> is sealed metadata with the slots \<open>a\<close> and \<open>b\<close>.\<close>

definition holds :: "chrome \<Rightarrow> BubSlotData \<Rightarrow> BubSlotData \<Rightarrow> gworld \<Rightarrow> bool" where
  "holds cb a b w \<longleftrightarrow> chrome_doc cb \<and> host_inv cb (files w) \<and> slot_wf a \<and> slot_wf b \<and>
     misc_image (host_part cb) (files w) = ab_bytes (ab_seal (test_data a b)) \<and> BUB_AB_DATA_SIZE \<le> heap w"

lemma CompareMiscImage_run:
  assumes "holds cb a b w"
  shows "CompareMiscImage cb (test_data a b) w = (Inr 0, w)"
proof -
  let ?d = "test_data a b"
  have d: "ab_wf ?d" "slot_wf a" "slot_wf b" "64 \<le> heap w"
    using assms by (simp_all add: holds_def BUB_AB_DATA_SIZE_def)
  have crc: "bub_crc32 0 (ab_bytes (?d\<lparr>crc32 := 0\<rparr>)) 64 = Inr (ab_crc ?d)"
    using d by (simp add: ab_crc_def length_ab_bytes)
  obtain c where c: "host_part cb (files w) misc = Some c" "64 \<le> length c"
    using host.misc_present assms by (auto simp: holds_def)
  have img: "take 64 c = ab_bytes (ab_seal ?d)"
    using assms c by (simp add: holds_def misc_image_def)
  have read: "read_from_partition (my_bub_ops cb) misc (replicate 64 0) 0 64 (files w) =
      (Inr (BUB_IO_RESULT_OK, ab_bytes (ab_seal ?d), Some 64), files w)"
    using host_read_inside [of cb "files w" misc c 0 64 "replicate 64 0"] assms c img
    by (simp add: holds_def my_bub_ops_def)
  have "on_files (read_from_partition (my_bub_ops cb) misc (replicate 64 0) 0 64) (w\<lparr>heap := heap w - 64\<rparr>) =
      (Inr (BUB_IO_RESULT_OK, ab_bytes (ab_seal ?d), Some 64), w\<lparr>heap := heap w - 64\<rparr>)"
    using read by (simp add: on_files_def)
  moreover have "slots (ab_seal ?d) = [a, b]" "length (reserved2 ?d) = 36" "reserved2 (ab_seal ?d) = reserved2 ?d"
    using d(1) by (simp_all add: ab_seal_def ab_wf_def)
  ultimately show ?thesis
    using d crc
    by (simp add: CompareMiscImage_def bub_calloc_posix_run BUB_AB_DATA_SIZE_def Let_def ab_seal_def
        length_ab_bytes bub_free_posix_def)
qed

lemma GenerateMiscImage_run:
  assumes "chrome_doc cb" "sound_files (files w)" "ab_wf d"
  shows "\<exists>f. GenerateMiscImage cb d w = (Inr (), w\<lparr>files := f\<rparr>) \<and> sound_files f \<and> host_inv cb f \<and>
    misc_image (host_part cb) f = ab_bytes (ab_seal d)"
proof -
  let ?n = "butlast (cstr ''misc.img'')"
  have n: "cstr ''misc.img'' = ?n @ [0]" "0 \<notin> set ?n" by (simp_all add: cstr_def)
  have m: "takeWhile (\<lambda>c. c \<noteq> 0) misc = butlast misc" by (simp add: misc_def cstr_def)
  obtain h where h: "make_metadata_image cb d (?n @ [0]) (files w) =
      (Inr (True, dir_path cb ?n), (files w)(dir_path cb ?n \<mapsto> h))" "data h = ab_bytes (ab_seal d)"
      "readable h" "writable h" "\<not> faulty h"
    using make_metadata_image_run [OF _ assms(3) n(2), of cb "files w"] assms(1) by (auto simp: chrome_doc_def)
  let ?f = "(files w)(dir_path cb ?n \<mapsto> h)"
  have len: "length (data h) = 64" using h(2) assms(3) by (simp add: length_ab_bytes)
  have f: "?f (img_path cb (butlast misc)) = Some h" using assms(1) by (simp add: chrome_doc_def)
  have s: "sound_files ?f" using assms(2) h(3-5) len by (simp add: sound_files_def)
  then have inv: "host_inv cb ?f" using f len by (simp add: host_inv_def sound_files_def m)
  have img: "misc_image (host_part cb) ?f = ab_bytes (ab_seal d)"
    using f h(2) len by (simp add: misc_image_def host_part_def zero_in_misc m)
  have "GenerateMiscImage cb d w = (Inr (), w\<lparr>files := ?f\<rparr>)"
    using h(1) [folded n(1)] by (simp add: GenerateMiscImage_def on_files_def)
  with s inv img show ?thesis by blast
qed

lemma SetUp_run:
  assumes "env_doc env" "sound_files (files w)" "22 \<le> heap w"
  shows "\<exists>cb f. SetUp env w = (Inr (Some cb), w\<lparr>files := f\<rparr>) \<and> chrome_doc cb \<and> sound_files f"
proof -
  obtain cb f where m: "mkdtemp env (files w) = (Some cb, f)" "chrome_doc cb" "sound_files f"
    using assms(1,2) unfolding env_doc_def by blast
  have "on_files (call (mkdtemp env)) (w\<lparr>heap := heap w - 22\<rparr>) = (Inr (Some cb), w\<lparr>heap := heap w - 22, files := f\<rparr>)"
    using m(1) by (simp add: on_files_def call_def)
  then have "SetUp env w = (Inr (Some cb), w\<lparr>files := f\<rparr>)"
    using assms(3) by (simp add: SetUp_def bub_malloc_posix_def bub_free_posix_def)
  with m(2,3) show ?thesis by blast
qed

text \<open>A concrete test environment and world.\<close>

definition plain_env :: test_env where
  "plain_env = \<lparr>mkdtemp = \<lambda>f. (Some test_chrome, f), dbg = True, ab_local = zero_ab_data\<rparr>"

definition plain_world :: gworld where
  "plain_world = \<lparr>files = \<lambda>_. None, heap = 4096, stale = \<lambda>_. 0xAA, failures = 0\<rparr>"

lemma plain_env_ok:
  "env_doc plain_env" "sound_files (files plain_world)" "BUB_AB_DATA_SIZE \<le> heap plain_world"
  "22 \<le> heap plain_world"
  by (simp_all add: env_doc_def plain_env_def chrome_doc_def chrome_writes_test plain_world_def
      sound_files_def BUB_AB_DATA_SIZE_def)
     (simp add: test_chrome_def misc_def cstr_def ab_wf_def zero_ab_data_def)

end
