(* ===== verification/Bub_AbUnittest.thy ===== *)
theory Bub_AbUnittest
  imports Ab_Test Bub_Efi
begin

text \<open>
  \<open>bub_ab_flow_unittest.cc\<close>, test by test, as programs over the fixture of \<open>Ab_Test\<close>. The tests of the
  A/B flow are shown to pass on every host that works as documented; the test of the UTF-8
  conversion is shown to read behind one of its own string literals.
\<close>

section \<open>The macros\<close>

definition ab_init ::
    "chrome \<Rightarrow> byte list \<Rightarrow> byte \<Rightarrow> byte \<Rightarrow> byte \<Rightarrow> byte \<Rightarrow> byte \<Rightarrow> byte \<Rightarrow> (gworld, unit) io" where
  "ab_init cb m a_priority a_tries a_successful b_priority b_tries b_successful =
     bnd (pure (write_ab_metadata m a_priority a_tries a_successful b_priority b_tries b_successful))
       (\<lambda>init. GenerateMiscImage cb init)"

text \<open>The call under test, with a fresh three-byte buffer.\<close>

definition run_flow :: "test_env \<Rightarrow> chrome \<Rightarrow> (gworld, BubAbFlowResult \<times> byte list) io" where
  "run_flow env cb = on_files (bub_ab_flow (dbg env) bub_print_posix (ab_local env) (my_bub_ops cb)
     (Some (replicate BUB_SUFFIX_SIZE 0)) (of_nat BUB_SUFFIX_SIZE))"

definition expect_flow ::
    "test_env \<Rightarrow> chrome \<Rightarrow> BubAbData \<Rightarrow> BubAbFlowResult \<Rightarrow> byte list \<Rightarrow> (gworld, unit) io" where
  "expect_flow env cb ab_result expected_result expected_suffix =
     bnd (run_flow env cb) (\<lambda>(result, suffix). in_order [
       expect (result = expected_result),
       expect_memcmp expected_suffix suffix BUB_SUFFIX_SIZE,
       bnd (CompareMiscImage cb ab_result) (\<lambda>r. expect (r = 0))])"

definition test_ab_flow ::
    "test_env \<Rightarrow> chrome \<Rightarrow> byte \<Rightarrow> byte \<Rightarrow> byte \<Rightarrow> byte \<Rightarrow> byte \<Rightarrow> byte \<Rightarrow> BubAbFlowResult \<Rightarrow> byte list \<Rightarrow>
     (gworld, unit) io" where
  "test_ab_flow env cb a_priority a_tries a_successful b_priority b_tries b_successful
     expected_result expected_suffix =
   bnd (pure (write_ab_metadata BUB_BOOT_CTRL_MAGIC a_priority a_tries a_successful
                b_priority b_tries b_successful)) (\<lambda>ab_result.
   expect_flow env cb ab_result expected_result expected_suffix)"

definition expect_marked :: "test_env \<Rightarrow> chrome \<Rightarrow> byte list \<Rightarrow> (gworld, unit) io" where
  "expect_marked env cb suffix =
     bnd (on_files (bub_ab_mark_as_invalid (dbg env) bub_print_posix (ab_local env) (my_bub_ops cb)
       (Some suffix))) (\<lambda>r. expect (r \<noteq> 0))"

section \<open>The tests of the A/B flow\<close>

text \<open>
  The two tests that start from metadata without the magic number; the second flow call sees what
  the first one has written.
\<close>

definition after_reset :: "test_env \<Rightarrow> chrome \<Rightarrow> fault + BubAbData \<Rightarrow> (gworld, unit) io" where
  "after_reset env cb start =
     bnd (pure start) (\<lambda>init.
     bnd (pure (write_ab_metadata BUB_BOOT_CTRL_MAGIC 15 7 0 15 7 0)) (\<lambda>ab_result.
     in_order [
       GenerateMiscImage cb init,
       expect_flow env cb ab_result BUB_AB_FLOW_ERROR_INVALID_METADATA [0, 0, 0],
       test_ab_flow env cb 15 6 0 15 7 0 BUB_AB_FLOW_RESULT_OK (cstr ''_a'')]))"

definition nope :: "byte list" where
  "nope = map (\<lambda>c. of_nat (of_char c)) ''NOPE''"

definition InvalidMetadataMagicInvalidSlots :: "test_env \<Rightarrow> chrome \<Rightarrow> (gworld, unit) io" where
  "InvalidMetadataMagicInvalidSlots env cb = after_reset env cb (write_ab_metadata nope 0 0 0 0 0 0)"

definition InvalidMetadataMagicValidSlots :: "test_env \<Rightarrow> chrome \<Rightarrow> (gworld, unit) io" where
  "InvalidMetadataMagicValidSlots env cb = after_reset env cb (write_ab_metadata nope 15 0 1 14 0 1)"

definition NoValidSlots :: "test_env \<Rightarrow> chrome \<Rightarrow> (gworld, unit) io" where
  "NoValidSlots env cb = in_order [
     ab_init cb BUB_BOOT_CTRL_MAGIC 0 0 0 0 0 0,
     test_ab_flow env cb 0 0 0 0 0 0 BUB_AB_FLOW_ERROR_NO_VALID_SLOTS [0, 0, 0]]"

definition SingleSuccessfulSlot :: "test_env \<Rightarrow> chrome \<Rightarrow> (gworld, unit) io" where
  "SingleSuccessfulSlot env cb = in_order [
     ab_init cb BUB_BOOT_CTRL_MAGIC 14 0 1 0 0 0,
     test_ab_flow env cb 14 0 1 0 0 0 BUB_AB_FLOW_RESULT_OK (cstr ''_a'')]"

definition SingleTryingSlot :: "test_env \<Rightarrow> chrome \<Rightarrow> (gworld, unit) io" where
  "SingleTryingSlot env cb = in_order [
     ab_init cb BUB_BOOT_CTRL_MAGIC 14 3 0 0 0 0,
     test_ab_flow env cb 14 2 0 0 0 0 BUB_AB_FLOW_RESULT_OK (cstr ''_a'')]"

definition TwoValidSlotsA :: "test_env \<Rightarrow> chrome \<Rightarrow> (gworld, unit) io" where
  "TwoValidSlotsA env cb = in_order [
     ab_init cb BUB_BOOT_CTRL_MAGIC 15 0 1 14 0 1,
     test_ab_flow env cb 15 0 1 14 0 1 BUB_AB_FLOW_RESULT_OK (cstr ''_a'')]"

definition TwoValidSlotsB :: "test_env \<Rightarrow> chrome \<Rightarrow> (gworld, unit) io" where
  "TwoValidSlotsB env cb = in_order [
     ab_init cb BUB_BOOT_CTRL_MAGIC 14 0 1 15 0 1,
     test_ab_flow env cb 14 0 1 15 0 1 BUB_AB_FLOW_RESULT_OK (cstr ''_b'')]"

definition TryingFallback :: "test_env \<Rightarrow> chrome \<Rightarrow> (gworld, unit) io" where
  "TryingFallback env cb = in_order [
     ab_init cb BUB_BOOT_CTRL_MAGIC 15 7 0 14 0 1,
     test_ab_flow env cb 15 6 0 14 0 1 BUB_AB_FLOW_RESULT_OK (cstr ''_a''),
     test_ab_flow env cb 15 5 0 14 0 1 BUB_AB_FLOW_RESULT_OK (cstr ''_a''),
     test_ab_flow env cb 15 4 0 14 0 1 BUB_AB_FLOW_RESULT_OK (cstr ''_a''),
     test_ab_flow env cb 15 3 0 14 0 1 BUB_AB_FLOW_RESULT_OK (cstr ''_a''),
     test_ab_flow env cb 15 2 0 14 0 1 BUB_AB_FLOW_RESULT_OK (cstr ''_a''),
     test_ab_flow env cb 15 1 0 14 0 1 BUB_AB_FLOW_RESULT_OK (cstr ''_a''),
     test_ab_flow env cb 15 0 0 14 0 1 BUB_AB_FLOW_RESULT_OK (cstr ''_a''),
     test_ab_flow env cb 0 0 0 14 0 1 BUB_AB_FLOW_RESULT_OK (cstr ''_b'')]"

definition TryingNoFallbackRecovery :: "test_env \<Rightarrow> chrome \<Rightarrow> (gworld, unit) io" where
  "TryingNoFallbackRecovery env cb = in_order [
     ab_init cb BUB_BOOT_CTRL_MAGIC 15 7 0 0 0 0,
     test_ab_flow env cb 15 6 0 0 0 0 BUB_AB_FLOW_RESULT_OK (cstr ''_a''),
     test_ab_flow env cb 15 5 0 0 0 0 BUB_AB_FLOW_RESULT_OK (cstr ''_a''),
     test_ab_flow env cb 15 4 0 0 0 0 BUB_AB_FLOW_RESULT_OK (cstr ''_a''),
     test_ab_flow env cb 15 3 0 0 0 0 BUB_AB_FLOW_RESULT_OK (cstr ''_a''),
     test_ab_flow env cb 15 2 0 0 0 0 BUB_AB_FLOW_RESULT_OK (cstr ''_a''),
     test_ab_flow env cb 15 1 0 0 0 0 BUB_AB_FLOW_RESULT_OK (cstr ''_a''),
     test_ab_flow env cb 15 0 0 0 0 0 BUB_AB_FLOW_RESULT_OK (cstr ''_a''),
     test_ab_flow env cb 0 0 0 0 0 0 BUB_AB_FLOW_ERROR_NO_VALID_SLOTS [0, 0, 0]]"

definition SingleTryingSuccess :: "test_env \<Rightarrow> chrome \<Rightarrow> (gworld, unit) io" where
  "SingleTryingSuccess env cb = in_order [
     ab_init cb BUB_BOOT_CTRL_MAGIC 15 7 0 14 0 1,
     test_ab_flow env cb 15 6 0 14 0 1 BUB_AB_FLOW_RESULT_OK (cstr ''_a''),
     test_ab_flow env cb 15 5 0 14 0 1 BUB_AB_FLOW_RESULT_OK (cstr ''_a''),
     test_ab_flow env cb 15 4 0 14 0 1 BUB_AB_FLOW_RESULT_OK (cstr ''_a''),
     test_ab_flow env cb 15 3 0 14 0 1 BUB_AB_FLOW_RESULT_OK (cstr ''_a''),
     test_ab_flow env cb 15 2 0 14 0 1 BUB_AB_FLOW_RESULT_OK (cstr ''_a''),
     test_ab_flow env cb 15 1 0 14 0 1 BUB_AB_FLOW_RESULT_OK (cstr ''_a''),
     test_ab_flow env cb 15 0 0 14 0 1 BUB_AB_FLOW_RESULT_OK (cstr ''_a''),
     ab_init cb BUB_BOOT_CTRL_MAGIC 15 0 1 14 0 1,
     test_ab_flow env cb 15 0 1 14 0 1 BUB_AB_FLOW_RESULT_OK (cstr ''_a''),
     test_ab_flow env cb 15 0 1 14 0 1 BUB_AB_FLOW_RESULT_OK (cstr ''_a'')]"

definition TwoTryingRecovery :: "test_env \<Rightarrow> chrome \<Rightarrow> (gworld, unit) io" where
  "TwoTryingRecovery env cb = in_order [
     ab_init cb BUB_BOOT_CTRL_MAGIC 15 7 0 14 7 0,
     test_ab_flow env cb 15 6 0 14 7 0 BUB_AB_FLOW_RESULT_OK (cstr ''_a''),
     test_ab_flow env cb 15 5 0 14 7 0 BUB_AB_FLOW_RESULT_OK (cstr ''_a''),
     test_ab_flow env cb 15 4 0 14 7 0 BUB_AB_FLOW_RESULT_OK (cstr ''_a''),
     test_ab_flow env cb 15 3 0 14 7 0 BUB_AB_FLOW_RESULT_OK (cstr ''_a''),
     test_ab_flow env cb 15 2 0 14 7 0 BUB_AB_FLOW_RESULT_OK (cstr ''_a''),
     test_ab_flow env cb 15 1 0 14 7 0 BUB_AB_FLOW_RESULT_OK (cstr ''_a''),
     test_ab_flow env cb 15 0 0 14 7 0 BUB_AB_FLOW_RESULT_OK (cstr ''_a''),
     test_ab_flow env cb 0 0 0 14 6 0 BUB_AB_FLOW_RESULT_OK (cstr ''_b''),
     test_ab_flow env cb 0 0 0 14 5 0 BUB_AB_FLOW_RESULT_OK (cstr ''_b''),
     test_ab_flow env cb 0 0 0 14 4 0 BUB_AB_FLOW_RESULT_OK (cstr ''_b''),
     test_ab_flow env cb 0 0 0 14 3 0 BUB_AB_FLOW_RESULT_OK (cstr ''_b''),
     test_ab_flow env cb 0 0 0 14 2 0 BUB_AB_FLOW_RESULT_OK (cstr ''_b''),
     test_ab_flow env cb 0 0 0 14 1 0 BUB_AB_FLOW_RESULT_OK (cstr ''_b''),
     test_ab_flow env cb 0 0 0 14 0 0 BUB_AB_FLOW_RESULT_OK (cstr ''_b''),
     test_ab_flow env cb 0 0 0 0 0 0 BUB_AB_FLOW_ERROR_NO_VALID_SLOTS [0, 0, 0]]"

definition MarkedInvalidFallback :: "test_env \<Rightarrow> chrome \<Rightarrow> (gworld, unit) io" where
  "MarkedInvalidFallback env cb = in_order [
     ab_init cb BUB_BOOT_CTRL_MAGIC 15 0 1 14 0 1,
     test_ab_flow env cb 15 0 1 14 0 1 BUB_AB_FLOW_RESULT_OK (cstr ''_a''),
     expect_marked env cb (cstr ''_a''),
     test_ab_flow env cb 0 0 0 14 0 1 BUB_AB_FLOW_RESULT_OK (cstr ''_b'')]"

definition ValidAndInvalidHigherPriority :: "test_env \<Rightarrow> chrome \<Rightarrow> (gworld, unit) io" where
  "ValidAndInvalidHigherPriority env cb = in_order [
     ab_init cb BUB_BOOT_CTRL_MAGIC 14 0 1 15 0 0,
     test_ab_flow env cb 14 0 1 0 0 0 BUB_AB_FLOW_RESULT_OK (cstr ''_a'')]"

definition ValidAndUpdatingBadSuccessfulBoot :: "test_env \<Rightarrow> chrome \<Rightarrow> (gworld, unit) io" where
  "ValidAndUpdatingBadSuccessfulBoot env cb = in_order [
     ab_init cb BUB_BOOT_CTRL_MAGIC 14 0 1 15 7 1,
     test_ab_flow env cb 14 0 1 15 6 0 BUB_AB_FLOW_RESULT_OK (cstr ''_b'')]"

definition InvalidBadTriesRemainingAndValid :: "test_env \<Rightarrow> chrome \<Rightarrow> (gworld, unit) io" where
  "InvalidBadTriesRemainingAndValid env cb = in_order [
     ab_init cb BUB_BOOT_CTRL_MAGIC 0 7 0 14 0 1,
     test_ab_flow env cb 0 0 0 14 0 1 BUB_AB_FLOW_RESULT_OK (cstr ''_b'')]"

definition InvalidBadSuccessfulBootandValid :: "test_env \<Rightarrow> chrome \<Rightarrow> (gworld, unit) io" where
  "InvalidBadSuccessfulBootandValid env cb = in_order [
     ab_init cb BUB_BOOT_CTRL_MAGIC 0 0 1 14 0 1,
     test_ab_flow env cb 0 0 0 14 0 1 BUB_AB_FLOW_RESULT_OK (cstr ''_b'')]"

definition InvalidTriesBootAndUpdatingBadSuccessfulBoot :: "test_env \<Rightarrow> chrome \<Rightarrow> (gworld, unit) io" where
  "InvalidTriesBootAndUpdatingBadSuccessfulBoot env cb = in_order [
     ab_init cb BUB_BOOT_CTRL_MAGIC 0 7 1 15 7 1,
     test_ab_flow env cb 0 0 0 15 6 0 BUB_AB_FLOW_RESULT_OK (cstr ''_b'')]"

definition ab_tests :: "test_env \<Rightarrow> (chrome \<Rightarrow> (gworld, unit) io) list" where
  "ab_tests env = [
     NoValidSlots env,
     InvalidMetadataMagicInvalidSlots env,
     InvalidMetadataMagicValidSlots env,
     SingleSuccessfulSlot env,
     SingleTryingSlot env,
     TwoValidSlotsA env,
     TwoValidSlotsB env,
     TryingFallback env,
     TryingNoFallbackRecovery env,
     SingleTryingSuccess env,
     TwoTryingRecovery env,
     MarkedInvalidFallback env,
     ValidAndInvalidHigherPriority env,
     ValidAndUpdatingBadSuccessfulBoot env,
     InvalidBadTriesRemainingAndValid env,
     InvalidBadSuccessfulBootandValid env,
     InvalidTriesBootAndUpdatingBadSuccessfulBoot env]"

section \<open>The test of the conversion\<close>

text \<open>A string argument is the array of a C literal, with its terminating NUL.\<close>

definition converted_utf8_ucs2 :: "byte list \<Rightarrow> byte list \<Rightarrow> nat \<Rightarrow> (gworld, int) io" where
  "converted_utf8_ucs2 text raw_bytes utf8_num_bytes =
     (let ucs2_num_bytes = 2 * utf8_num_bytes in
      bnd (bub_calloc_posix ucs2_num_bytes) (\<lambda>test_str.
      case test_str of None \<Rightarrow> ret 1
      | Some mem \<Rightarrow>
          bnd (pure (utf8_to_ucs2 text (of_nat utf8_num_bytes) (u16_list mem) (of_nat ucs2_num_bytes)))
            (\<lambda>(err, units).
          if err \<noteq> 0 then bnd (bub_free_posix (Some (u16_bytes units))) (\<lambda>_. ret 1)
          else
            bnd (pure (bub_strlen raw_bytes)) (\<lambda>len.
            bnd (pure (bub_memcmp raw_bytes (u16_bytes units) (len + 1))) (\<lambda>r.
            bnd (bub_free_posix (Some (u16_bytes units))) (\<lambda>_. ret r))))))"

definition Utf8toUcs2 :: "(gworld, unit) io" where
  "Utf8toUcs2 = in_order [
     bnd (converted_utf8_ucs2 [0xC3, 0xA6, 0] [0xE6, 0, 0] 3) (\<lambda>r. expect (r = 0)),
     bnd (converted_utf8_ucs2 [0xE2, 0x82, 0xAC, 0] [0xAC, 0x20, 0] 4) (\<lambda>r. expect (r = 0)),
     bnd (converted_utf8_ucs2 (cstr ''AB'') [0x41, 0, 0x42, 0, 0] 6) (\<lambda>r. expect (r = 0)),
     bnd (converted_utf8_ucs2 [0xF0, 0x9F, 0x91, 0xA6, 0] [0x66, 0xF4, 0] 5) (\<lambda>r. expect (r \<noteq> 0))]"

section \<open>The tests of the flow pass\<close>

text \<open>
  \<open>starts cb m c d\<close>: the statement runs without a fault and without a failed expectation, keeps the
  rest of the world, and leaves metadata with the slots \<open>c\<close> and \<open>d\<close>; \<open>steps cb a b m c d\<close> is the same
  from metadata with the slots \<open>a\<close> and \<open>b\<close>.
\<close>

definition starts :: "chrome \<Rightarrow> (gworld, unit) io \<Rightarrow> BubSlotData \<Rightarrow> BubSlotData \<Rightarrow> bool" where
  "starts cb m c d \<longleftrightarrow> (\<forall>w. sound_files (files w) \<and> BUB_AB_DATA_SIZE \<le> heap w \<longrightarrow>
     (\<exists>f. m w = (Inr (), w\<lparr>files := f\<rparr>) \<and> holds cb c d (w\<lparr>files := f\<rparr>)))"

definition steps ::
    "chrome \<Rightarrow> BubSlotData \<Rightarrow> BubSlotData \<Rightarrow> (gworld, unit) io \<Rightarrow> BubSlotData \<Rightarrow> BubSlotData \<Rightarrow> bool" where
  "steps cb a b m c d \<longleftrightarrow> (\<forall>w. holds cb a b w \<longrightarrow>
     (\<exists>f. m w = (Inr (), w\<lparr>files := f\<rparr>) \<and> holds cb c d (w\<lparr>files := f\<rparr>)))"

lemma holds_sound: "holds cb a b w \<Longrightarrow> sound_files (files w) \<and> BUB_AB_DATA_SIZE \<le> heap w"
  by (auto simp: holds_def host_inv_def sound_files_def)

lemma starts_imp_steps: "starts cb m c d \<Longrightarrow> steps cb a b m c d"
  using holds_sound by (auto simp: starts_def steps_def)

lemma steps_Nil: "steps cb a b (in_order []) a b"
  unfolding steps_def
proof (intro allI impI)
  fix w assume "holds cb a b w"
  then show "\<exists>f. in_order [] w = (Inr (), w\<lparr>files := f\<rparr>) \<and> holds cb a b (w\<lparr>files := f\<rparr>)"
    by (intro exI [of _ "files w"]) simp
qed

lemma steps_Cons: "steps cb a b m c d \<Longrightarrow> steps cb c d (in_order ms) e f \<Longrightarrow> steps cb a b (in_order (m # ms)) e f"
  unfolding steps_def by fastforce

lemma starts_Cons: "starts cb m c d \<Longrightarrow> steps cb c d (in_order ms) e f \<Longrightarrow> starts cb (in_order (m # ms)) e f"
  unfolding steps_def starts_def by fastforce

lemma ab_init_starts:
  assumes "chrome_doc cb"
  shows "starts cb (ab_init cb BUB_BOOT_CTRL_MAGIC p t s q u v) (test_slot p t s) (test_slot q u v)"
  unfolding starts_def
proof (intro allI impI)
  fix w :: gworld assume "sound_files (files w) \<and> BUB_AB_DATA_SIZE \<le> heap w"
  then show "\<exists>f. ab_init cb BUB_BOOT_CTRL_MAGIC p t s q u v w = (Inr (), w\<lparr>files := f\<rparr>) \<and>
      holds cb (test_slot p t s) (test_slot q u v) (w\<lparr>files := f\<rparr>)"
    using GenerateMiscImage_run [OF assms, of w "test_data (test_slot p t s) (test_slot q u v)"] assms
    by (auto simp: ab_init_def write_ab_metadata_test holds_def)
qed

lemma expect_flow_steps:
  assumes "ab_wf (ab_local env)"
    and "flow_slots a b = (c, [a', b'])" "flow_report c (replicate 3 0) = (result, suffix)"
  shows "steps cb a b (expect_flow env cb (test_data a' b') result suffix) a' b'"
  unfolding steps_def
proof (intro allI impI)
  fix w assume h: "holds cb a b w"
  then have wf: "slot_wf a" "slot_wf b" by (simp_all add: holds_def)
  have wf': "slot_wf a'" "slot_wf b'" using flow_slots_wf [OF wf, of a' b'] assms(2) by simp_all
  have len: "length suffix = 3"
    using assms(3) by (auto simp: flow_report_def cstr_def split: option.splits slot_name.splits)
  obtain f where f: "bub_ab_flow (dbg env) bub_print_posix (ab_local env) (my_bub_ops cb)
      (Some (replicate 3 0)) 3 (files w) = (Inr (result, suffix), f)" "host_inv cb f"
      "misc_image (host_part cb) f = ab_bytes (ab_seal (test_data a' b'))"
    using host.flow_exact [of cb "files w" "ab_local env" "replicate 3 0" 3 "test_data a b" a b "dbg env"]
      h assms wf by (auto simp: holds_def)
  have run: "run_flow env cb w = (Inr (result, suffix), w\<lparr>files := f\<rparr>)"
    using f(1) by (simp add: run_flow_def BUB_SUFFIX_SIZE_def)
  have h': "holds cb a' b' (w\<lparr>files := f\<rparr>)" using h f(2,3) wf' by (simp add: holds_def)
  then show "\<exists>f. expect_flow env cb (test_data a' b') result suffix w = (Inr (), w\<lparr>files := f\<rparr>) \<and>
      holds cb a' b' (w\<lparr>files := f\<rparr>)"
    using run len CompareMiscImage_run [OF h']
    by (intro exI [of _ f]) (simp add: expect_flow_def BUB_SUFFIX_SIZE_def)
qed

text \<open>One line of a test, with what the reference definition of the flow says about it.\<close>

lemma test_ab_flow_steps:
  assumes "ab_wf (ab_local env)"
    and "(case flow_slots a b of (c, xs) \<Rightarrow> (flow_report c (replicate 3 0), xs)) =
      ((result, suffix), [test_slot p t s, test_slot q u v])"
  shows "steps cb a b (test_ab_flow env cb p t s q u v result suffix) (test_slot p t s) (test_slot q u v)"
proof -
  obtain c where c: "flow_slots a b = (c, [test_slot p t s, test_slot q u v])"
    "flow_report c (replicate 3 0) = (result, suffix)"
    using assms(2) by (auto split: prod.splits)
  show ?thesis
    using expect_flow_steps [OF assms(1) c, of cb]
    by (simp add: steps_def test_ab_flow_def write_ab_metadata_test)
qed

lemma expect_marked_steps:
  assumes "ab_wf (ab_local env)"
  shows "steps cb a b (expect_marked env cb (cstr ''_a'')) zero_slot b"
  unfolding steps_def
proof (intro allI impI)
  fix w assume h: "holds cb a b w"
  have s: "bub_strlen (cstr ''_a'') = Inr 2" "take 3 (cstr ''_a'') = cstr ''_a''" by (simp_all add: cstr_def)
  obtain f where f: "bub_ab_mark_as_invalid (dbg env) bub_print_posix (ab_local env) (my_bub_ops cb)
      (Some (cstr ''_a'')) (files w) = (Inr 1, f)" "host_inv cb f"
      "misc_image (host_part cb) f = ab_bytes (ab_seal (test_data zero_slot b))"
    using host.mark_exact [of cb "files w" "ab_local env" "cstr ''_a''" "test_data a b" a b "dbg env"]
      h assms s by (auto simp: holds_def mark_slots_def)
  then show "\<exists>f. expect_marked env cb (cstr ''_a'') w = (Inr (), w\<lparr>files := f\<rparr>) \<and>
      holds cb zero_slot b (w\<lparr>files := f\<rparr>)"
    using h by (intro exI [of _ f]) (simp add: expect_marked_def holds_def)
qed

lemmas flow_eval = flow_slots_def normalize_slot_def slot_is_bootable_def use_slot_def flow_report_def
  test_slot_def zero_slot_def Let_def

lemmas ab_test_defs = InvalidMetadataMagicInvalidSlots_def
  InvalidMetadataMagicValidSlots_def
  NoValidSlots_def
  SingleSuccessfulSlot_def
  SingleTryingSlot_def
  TwoValidSlotsA_def
  TwoValidSlotsB_def
  TryingFallback_def
  TryingNoFallbackRecovery_def
  SingleTryingSuccess_def
  TwoTryingRecovery_def
  MarkedInvalidFallback_def
  ValidAndInvalidHigherPriority_def
  ValidAndUpdatingBadSuccessfulBoot_def
  InvalidBadTriesRemainingAndValid_def
  InvalidBadSuccessfulBootandValid_def
  InvalidTriesBootAndUpdatingBadSuccessfulBoot_def

lemma after_reset_starts:
  assumes "chrome_doc cb" "ab_wf (ab_local env)" "ab_wf d" "magic d \<noteq> BUB_BOOT_CTRL_MAGIC"
  shows "starts cb (after_reset env cb (Inr d)) (test_slot 15 6 0) (test_slot 15 7 0)"
  unfolding starts_def
proof (intro allI impI)
  fix w :: gworld
  assume w: "sound_files (files w) \<and> BUB_AB_DATA_SIZE \<le> heap w"
  let ?r = "test_slot 15 7 0"
  obtain f where f: "GenerateMiscImage cb d w = (Inr (), w\<lparr>files := f\<rparr>)" "host_inv cb f"
      "misc_image (host_part cb) f = ab_bytes (ab_seal d)"
    using GenerateMiscImage_run [OF assms(1) _ assms(3)] w by blast
  have "\<not> ab_valid (ab_bytes (ab_seal d))"
    using assms(3,4) by (auto simp: ab_valid_def ab_check_def Let_def) (auto simp: ab_seal_def)
  then obtain g where g: "bub_ab_flow (dbg env) bub_print_posix (ab_local env) (my_bub_ops cb)
      (Some (replicate 3 0)) 3 f = (Inr (BUB_AB_FLOW_ERROR_INVALID_METADATA, [0, 0, 0]), g)" "host_inv cb g"
      "misc_image (host_part cb) g = ab_bytes (ab_seal (test_data ?r ?r))"
    using host.flow_run_invalid [of cb f "ab_local env" "replicate 3 0" 3 "dbg env"] f(2,3) assms(2)
    by (auto simp: numeral_3_eq_3 reset_test_data)
  have h: "holds cb ?r ?r (w\<lparr>files := g\<rparr>)" using g(2,3) w assms(1) by (simp add: holds_def)
  have "steps cb ?r ?r (test_ab_flow env cb 15 6 0 15 7 0 BUB_AB_FLOW_RESULT_OK (cstr ''_a''))
      (test_slot 15 6 0) ?r"
    by (rule test_ab_flow_steps [OF assms(2)]) (simp add: flow_eval)
  then obtain k where k: "test_ab_flow env cb 15 6 0 15 7 0 BUB_AB_FLOW_RESULT_OK (cstr ''_a'')
      (w\<lparr>files := g\<rparr>) = (Inr (), w\<lparr>files := k\<rparr>)" "holds cb (test_slot 15 6 0) ?r (w\<lparr>files := k\<rparr>)"
    using h unfolding steps_def by fastforce
  have run: "run_flow env cb (w\<lparr>files := f\<rparr>) =
      (Inr (BUB_AB_FLOW_ERROR_INVALID_METADATA, [0, 0, 0]), w\<lparr>files := g\<rparr>)"
    using g(1) by (simp add: run_flow_def BUB_SUFFIX_SIZE_def)
  have "expect_flow env cb (test_data ?r ?r) BUB_AB_FLOW_ERROR_INVALID_METADATA [0, 0, 0] (w\<lparr>files := f\<rparr>) =
      (Inr (), w\<lparr>files := g\<rparr>)"
    using run CompareMiscImage_run [OF h] by (simp add: expect_flow_def BUB_SUFFIX_SIZE_def)
  then have "after_reset env cb (Inr d) w = (Inr (), w\<lparr>files := k\<rparr>)"
    using f(1) k(1) by (simp add: after_reset_def write_ab_metadata_test)
  then show "\<exists>f. after_reset env cb (Inr d) w = (Inr (), w\<lparr>files := f\<rparr>) \<and>
      holds cb (test_slot 15 6 0) ?r (w\<lparr>files := f\<rparr>)"
    using k(2) by blast
qed

lemma nope_test:
  assumes "chrome_doc cb" "ab_wf (ab_local env)"
  shows "starts cb (after_reset env cb (write_ab_metadata nope p t s q u v)) (test_slot 15 6 0) (test_slot 15 7 0)"
proof -
  have n: "length nope = 4" "nope \<noteq> BUB_BOOT_CTRL_MAGIC" by (simp_all add: nope_def BUB_BOOT_CTRL_MAGIC_def)
  have wf: "ab_wf ((test_data (test_slot p t s) (test_slot q u v))\<lparr>magic := nope\<rparr>)"
    using test_data_wf(1) [of "test_slot p t s" "test_slot q u v"] n(1) by (simp add: ab_wf_def)
  show ?thesis
    using after_reset_starts [OF assms wf] n by (simp add: write_ab_metadata_test)
qed

lemma ab_tests_start:
  assumes "chrome_doc cb" "ab_wf (ab_local env)" "t \<in> set (ab_tests env)"
  shows "\<exists>c d. starts cb (t cb) c d"
proof -
  note init = ab_init_starts [OF assms(1)]
  note intros = starts_Cons [OF init] nope_test [OF assms(1,2)]
  note flow = steps_Cons [OF test_ab_flow_steps [OF assms(2)]]
  note other = steps_Nil steps_Cons [OF starts_imp_steps [OF init]] steps_Cons [OF expect_marked_steps [OF assms(2)]] steps_Cons [OF expect_marked_steps [OF assms(2)]]
  have "list_all (\<lambda>t. \<exists>c d. starts cb (t cb) c d) (ab_tests env)"
    unfolding ab_tests_def list.pred_inject ab_test_defs
    by (intro conjI exI list.pred_inject(1))
       ((rule intros other | (rule flow, simp add: flow_eval))+)
  then show ?thesis using assms(3) by (auto simp: list_all_iff)
qed

lemma startsD:
  "starts cb m c d \<Longrightarrow> sound_files f \<Longrightarrow> BUB_AB_DATA_SIZE \<le> heap w \<Longrightarrow>
   \<exists>g. m (w\<lparr>files := f\<rparr>) = (Inr (), w\<lparr>files := g\<rparr>)"
  unfolding starts_def by (drule spec [of _ "w\<lparr>files := f\<rparr>"]) auto

text \<open>C30: on every host that works as documented and has 64 bytes of heap left, each of the seventeen
  tests of the A/B flow runs to its end without a fault and without a failed expectation, and gives
  back all the memory it took: what the authors sampled is what the modelled code does.\<close>

theorem ab_unit_tests_pass:
  assumes "env_doc env" "sound_files (files w)" "BUB_AB_DATA_SIZE \<le> heap w"
  shows "\<forall>t\<in>set (ab_tests env). \<exists>f. TEST_F env t w = (Inr (), w\<lparr>files := f\<rparr>)"
proof
  fix t assume t: "t \<in> set (ab_tests env)"
  obtain cb f where s: "SetUp env w = (Inr (Some cb), w\<lparr>files := f\<rparr>)" "chrome_doc cb" "sound_files f"
    using SetUp_run [OF assms(1,2)] assms(3) by (auto simp: BUB_AB_DATA_SIZE_def)
  obtain c d where "starts cb (t cb) c d"
    using ab_tests_start [OF s(2) _ t] assms(1) by (auto simp: env_doc_def)
  from startsD [OF this s(3) assms(3)] show "\<exists>f. TEST_F env t w = (Inr (), w\<lparr>files := f\<rparr>)"
    using s(1) by (auto simp: TEST_F_def)
qed

theorem ab_unit_tests_pass_witness:
  "failures (snd (TEST_F plain_env (TwoTryingRecovery plain_env) plain_world)) = 0"
proof -
  have "TwoTryingRecovery plain_env \<in> set (ab_tests plain_env)"
    by (simp add: ab_tests_def)
  then obtain f where
    "TEST_F plain_env (TwoTryingRecovery plain_env) plain_world = (Inr (), plain_world\<lparr>files := f\<rparr>)"
    using ab_unit_tests_pass [OF plain_env_ok(1-3)] by blast
  then show ?thesis by (simp add: plain_world_def)
qed

section \<open>The test of the conversion faults\<close>

lemma converted_run:
  assumes "2 * n \<le> heap w"
    "utf8_to_ucs2 text (of_nat n) (replicate n 0) (of_nat (2 * n)) = Inr (0, units)" "length units = n"
    "bub_strlen raw = Inr len" "bub_memcmp raw (u16_bytes units) (len + 1) = Inr r"
  shows "converted_utf8_ucs2 text raw n w = (Inr r, w)"
proof -
  have "length (u16_bytes us) = 2 * length us" for us by (induction us) (simp_all add: u16_bytes_def)
  then show ?thesis
    using assms by (simp add: converted_utf8_ucs2_def bub_calloc_posix_run u16_list_zeros bub_free_posix_def)
qed

lemmas utf8_eval = utf8_to_ucs2_def utf8_loop.simps utf8_step_def utf8_at_def ucs2_store_def

text \<open>The test \<open>Utf8toUcs2\<close> never gets past its third case: it announces six bytes of the literal
  "AB", which has three with its NUL, and \<open>utf8_to_ucs2\<close> reads behind it. The first two cases pass.\<close>

lemma utf8_test_overreads:
  assumes "12 \<le> heap w"
  shows "Utf8toUcs2 w = (Inl Oob_Read, w\<lparr>heap := heap w - 12\<rparr>)"
proof -
  have zeros: "replicate 3 0 = [0, 0, 0 :: u16]" "replicate 4 0 = [0, 0, 0, 0 :: u16]"
      "replicate 6 0 = [0, 0, 0, 0, 0, 0 :: u16]"
    by (simp_all add: numeral_eq_Suc)
  have bytes: "u16_bytes [0xE6, 0, 0] = [0xE6, 0, 0, 0, 0, 0]" "u16_bytes [0x20AC, 0, 0, 0] = [0xAC, 0x20, 0, 0, 0, 0, 0, 0]"
    by (simp_all add: u16_bytes_def le_bytes_2)
  have u: "utf8_to_ucs2 [0xC3, 0xA6, 0] 3 [0, 0, 0] 6 = Inr (0, [0xE6, 0, 0])"
      "utf8_to_ucs2 [0xE2, 0x82, 0xAC, 0] 4 [0, 0, 0, 0] 8 = Inr (0, [0x20AC, 0, 0, 0])"
    by (simp_all add: utf8_eval)
  have "bub_strlen [0xE6, 0, 0] = Inr 1" "bub_memcmp [0xE6, 0, 0] (u16_bytes [0xE6, 0, 0]) (1 + 1) = Inr 0"
    by (simp_all add: bytes bub_memcmp_def)
  from converted_run [OF _ _ _ this, of 3] have 1: "converted_utf8_ucs2 [0xC3, 0xA6, 0] [0xE6, 0, 0] 3 w = (Inr 0, w)"
    using assms u(1) by (simp add: zeros)
  have "bub_strlen [0xAC, 0x20, 0] = Inr 2"
      "bub_memcmp [0xAC, 0x20, 0] (u16_bytes [0x20AC, 0, 0, 0]) (2 + 1) = Inr 0"
    by (simp_all add: bytes bub_memcmp_def)
  from converted_run [OF _ _ _ this, of 4]
  have 2: "converted_utf8_ucs2 [0xE2, 0x82, 0xAC, 0] [0xAC, 0x20, 0] 4 w = (Inr 0, w)"
    using assms u(2) by (simp add: zeros)
  have "utf8_to_ucs2 (cstr ''AB'') 6 [0, 0, 0, 0, 0, 0] 12 = Inl Oob_Read" by (simp add: utf8_eval cstr_def)
  then have "converted_utf8_ucs2 (cstr ''AB'') [0x41, 0, 0x42, 0, 0] 6 w = (Inl Oob_Read, w\<lparr>heap := heap w - 12\<rparr>)"
    using assms u16_list_zeros [of 6] by (simp add: converted_utf8_ucs2_def bub_calloc_posix_run zeros)
  with 1 2 show ?thesis by (simp add: Utf8toUcs2_def)
qed

lemma utf8_test_overreads_witness:
  "fst (Utf8toUcs2 plain_world) = Inl Oob_Read"
  using utf8_test_overreads [of plain_world] by (simp add: plain_world_def)

end
