(* ===== verification/Make_Misc_Unittest.thy ===== *)
theory Make_Misc_Unittest
  imports Ab_Test
begin

text \<open>
  \<open>make_misc_image_unittest.cc\<close>: the tests of the argument checks of \<open>make_misc_image\<close>, and that they
  pass with a libchrome whose command line, tokenizer and number conversion work as documented.
\<close>

section \<open>The tests\<close>

definition ascii :: "string \<Rightarrow> str" where
  "ascii s = butlast (cstr s)"

text \<open>
  \<open>init\<close> is \<open>CommandLine::Init\<close> on the first \<open>argc\<close> arguments, \<open>md\<close> the indeterminate local array.
\<close>

definition test_args :: "(str list \<Rightarrow> cmdline) \<Rightarrow> BubSlotData list \<Rightarrow> int \<Rightarrow> string \<Rightarrow> (gworld, unit) io" where
  "test_args init md expected_ret dat =
     expect (fst (parse_command_line_args
       (init [ascii ''make_misc_image'', ascii dat, ascii ''--output=misc.img'']) md) = expected_ret)"

definition ActiveAndBackup :: "(str list \<Rightarrow> cmdline) \<Rightarrow> BubSlotData list \<Rightarrow> chrome \<Rightarrow> (gworld, unit) io" where
  "ActiveAndBackup init md cb = in_order [
     test_args init md 1 ''--ab_metadata=15,0,1,9,0,1'']"

definition TwoUpdating :: "(str list \<Rightarrow> cmdline) \<Rightarrow> BubSlotData list \<Rightarrow> chrome \<Rightarrow> (gworld, unit) io" where
  "TwoUpdating init md cb = in_order [
     test_args init md 1 ''--ab_metadata=15,7,0,15,7,0'']"

definition ActiveAndInvalid :: "(str list \<Rightarrow> cmdline) \<Rightarrow> BubSlotData list \<Rightarrow> chrome \<Rightarrow> (gworld, unit) io" where
  "ActiveAndInvalid init md cb = in_order [
     test_args init md 1 ''--ab_metadata=15,0,1,0,0,0'']"

definition TwoInvalid :: "(str list \<Rightarrow> cmdline) \<Rightarrow> BubSlotData list \<Rightarrow> chrome \<Rightarrow> (gworld, unit) io" where
  "TwoInvalid init md cb = in_order [
     test_args init md 1 ''--ab_metadata=0,0,0,0,0,0'']"

definition BadPriority :: "(str list \<Rightarrow> cmdline) \<Rightarrow> BubSlotData list \<Rightarrow> chrome \<Rightarrow> (gworld, unit) io" where
  "BadPriority init md cb = in_order [
     test_args init md 0 ''--ab_metadata=20,0,1,14,0,1'',
     test_args init md 0 ''--ab_metadata=20,0,1,14,0,1'',
     test_args init md 0 ''--ab_metadata=15,0,1,20,0,1'',
     test_args init md 0 ''--ab_metadata=20,0,1,20,0,1'']"

definition BadTriesRemaining :: "(str list \<Rightarrow> cmdline) \<Rightarrow> BubSlotData list \<Rightarrow> chrome \<Rightarrow> (gworld, unit) io" where
  "BadTriesRemaining init md cb = in_order [
     test_args init md 0 ''--ab_metadata=20,0,1,20,0,1'',
     test_args init md 0 ''--ab_metadata=15,8,1,14,0,1'',
     test_args init md 0 ''--ab_metadata=15,0,1,14,8,1'',
     test_args init md 0 ''--ab_metadata=15,8,1,14,8,1'']"

definition BadSuccessfulBoot :: "(str list \<Rightarrow> cmdline) \<Rightarrow> BubSlotData list \<Rightarrow> chrome \<Rightarrow> (gworld, unit) io" where
  "BadSuccessfulBoot init md cb = in_order [
     test_args init md 0 ''--ab_metadata=15,0,2,14,0,1'',
     test_args init md 0 ''--ab_metadata=15,0,1,14,0,2'',
     test_args init md 0 ''--ab_metadata=15,0,2,14,0,2'']"

definition OutOfRangePositiveAttribute :: "(str list \<Rightarrow> cmdline) \<Rightarrow> BubSlotData list \<Rightarrow> chrome \<Rightarrow> (gworld, unit) io" where
  "OutOfRangePositiveAttribute init md cb = in_order [
     test_args init md 0 ''--ab_metadata=100,0,1,14,0,1'',
     test_args init md 0 ''--ab_metadata=15,100,1,14,0,1'',
     test_args init md 0 ''--ab_metadata=15,0,100,14,0,1'',
     test_args init md 0 ''--ab_metadata=15,0,1,100,0,1'',
     test_args init md 0 ''--ab_metadata=15,0,1,14,100,1'',
     test_args init md 0 ''--ab_metadata=15,0,1,14,0,100'']"

definition OutOfRangeNegativeAttribute :: "(str list \<Rightarrow> cmdline) \<Rightarrow> BubSlotData list \<Rightarrow> chrome \<Rightarrow> (gworld, unit) io" where
  "OutOfRangeNegativeAttribute init md cb = in_order [
     test_args init md 0 ''--ab_metadata=-1,0,1,14,0,1'',
     test_args init md 0 ''--ab_metadata=15,-1,1,14,0,1'',
     test_args init md 0 ''--ab_metadata=15,0,-1,14,0,1'',
     test_args init md 0 ''--ab_metadata=15,0,1,-1,0,1'',
     test_args init md 0 ''--ab_metadata=15,0,1,14,-1,1'',
     test_args init md 0 ''--ab_metadata=15,0,1,14,0,-1'']"

definition NonNumericAtrribute :: "(str list \<Rightarrow> cmdline) \<Rightarrow> BubSlotData list \<Rightarrow> chrome \<Rightarrow> (gworld, unit) io" where
  "NonNumericAtrribute init md cb = in_order [
     test_args init md 0 ''--ab_metadata=1A,0,1,14,0,1'',
     test_args init md 0 ''--ab_metadata=15,A1,1,14,0,1'',
     test_args init md 0 ''--ab_metadata=15,0,AA,14,0,1'',
     test_args init md 0 ''--ab_metadata=15,0,1,a1a,0,1'',
     test_args init md 0 ''--ab_metadata=15,0,1,14,3.14,1'',
     test_args init md 0 ''--ab_metadata=15,0,1,14,0,.14'']"

definition MissingAttributes :: "(str list \<Rightarrow> cmdline) \<Rightarrow> BubSlotData list \<Rightarrow> chrome \<Rightarrow> (gworld, unit) io" where
  "MissingAttributes init md cb = in_order [
     test_args init md 0 ''--ab_metadata=15,,1,14,0,1'',
     test_args init md 0 ''--ab_metadata=15,0,1,14,0'']"

text \<open>\<open>argc\<close> is 2 in both calls, so the third element of the second array is not seen.\<close>

definition MissingOutput :: "(str list \<Rightarrow> cmdline) \<Rightarrow> BubSlotData list \<Rightarrow> chrome \<Rightarrow> (gworld, unit) io" where
  "MissingOutput init md cb = in_order [
     expect (fst (parse_command_line_args
       (init (take 2 [ascii ''make_misc_image'', ascii ''--ab_metadata=15,0,1,14,0,1''])) md) = 0),
     expect (fst (parse_command_line_args
       (init (take 2 [ascii ''make_misc_image'', ascii ''--ab_metadata=15,0,1,14,0,1'',
          ascii ''--out=misc.img''])) md) = 0)]"

definition misc_tests :: "(str list \<Rightarrow> cmdline) \<Rightarrow> BubSlotData list \<Rightarrow> (chrome \<Rightarrow> (gworld, unit) io) list" where
  "misc_tests init md = [
     ActiveAndBackup init md,
     TwoUpdating init md,
     ActiveAndInvalid init md,
     TwoInvalid init md,
     BadPriority init md,
     BadTriesRemaining init md,
     BadSuccessfulBoot init md,
     OutOfRangePositiveAttribute init md,
     OutOfRangeNegativeAttribute init md,
     NonNumericAtrribute init md,
     MissingAttributes init md,
     MissingOutput init md]"

lemmas misc_test_defs = ActiveAndBackup_def
  TwoUpdating_def
  ActiveAndInvalid_def
  TwoInvalid_def
  BadPriority_def
  BadTriesRemaining_def
  BadSuccessfulBoot_def
  OutOfRangePositiveAttribute_def
  OutOfRangeNegativeAttribute_def
  NonNumericAtrribute_def
  MissingAttributes_def
  MissingOutput_def

section \<open>libchrome as documented\<close>

definition switch_text :: "string \<times> str \<Rightarrow> str" where
  "switch_text s = ascii (''--'' @ fst s @ ''='') @ snd s"

text \<open>The value of the last switch with the name, the empty string if there is none.\<close>

definition switch_value :: "string \<Rightarrow> (string \<times> str) list \<Rightarrow> str" where
  "switch_value name sws = (case map_of (rev sws) name of None \<Rightarrow> [] | Some v \<Rightarrow> v)"

text \<open>The maximal runs of bytes other than the comma; empty ones are skipped.\<close>

fun comma_fields :: "str \<Rightarrow> str list" where
  "comma_fields [] = []"
| "comma_fields (c # s) =
     (if c = 0x2C then comma_fields s
      else if s = [] \<or> hd s = 0x2C then [c] # comma_fields s
      else (case comma_fields s of [] \<Rightarrow> [[c]] | t # ts \<Rightarrow> (c # t) # ts))"

definition digit :: "byte \<Rightarrow> bool" where
  "digit c \<longleftrightarrow> 0x30 \<le> c \<and> c \<le> 0x39"

definition decimal :: "str \<Rightarrow> nat" where
  "decimal s = foldl (\<lambda>n c. 10 * n + unat (c - 0x30)) 0 s"

definition numeral_text :: "str \<Rightarrow> bool" where
  "numeral_text s \<longleftrightarrow> s \<noteq> [] \<and> list_all digit s \<and> decimal s < 2 ^ 31"

definition cmdline_doc :: "(str list \<Rightarrow> cmdline) \<Rightarrow> bool" where
  "cmdline_doc init \<longleftrightarrow>
     (\<forall>prog sws name. list_all (\<lambda>(n, v). n \<noteq> [] \<and> CHR ''='' \<notin> set n) sws \<longrightarrow>
        get_switch_value_ascii (init (prog # map switch_text sws)) (cstr name) = switch_value name sws \<and>
        get_switch_value_path (init (prog # map switch_text sws)) (cstr name) = switch_value name sws) \<and>
     (\<forall>argv s. tokens (init argv) s = comma_fields s) \<and>
     (\<forall>argv s. numeral_text s \<longrightarrow> string_to_int (init argv) s = Some (int (decimal s))) \<and>
     (\<forall>argv s. numeral_text s \<longrightarrow> string_to_int (init argv) (0x2D # s) = Some (- int (decimal s))) \<and>
     (\<forall>argv s. list_ex (\<lambda>c. \<not> digit c \<and> c \<noteq> 0x2B \<and> c \<noteq> 0x2D) s \<longrightarrow> string_to_int (init argv) s = None)"

section \<open>The tests pass\<close>

definition conv_doc :: "(str \<Rightarrow> int option) \<Rightarrow> bool" where
  "conv_doc conv \<longleftrightarrow>
     (\<forall>s. numeral_text s \<longrightarrow> conv s = Some (int (decimal s))) \<and>
     (\<forall>s. numeral_text s \<longrightarrow> conv (0x2D # s) = Some (- int (decimal s))) \<and>
     (\<forall>s. list_ex (\<lambda>c. \<not> digit c \<and> c \<noteq> 0x2B \<and> c \<noteq> 0x2D) s \<longrightarrow> conv s = None)"

lemma ascii_append: "ascii (s @ t) = ascii s @ ascii t"
  by (simp add: ascii_def cstr_def butlast_append)

lemma switch_text_arg:
  assumes "take 14 dat = ''--ab_metadata=''"
  shows "ascii dat = switch_text (''ab_metadata'', ascii (drop 14 dat))"
proof -
  have "ascii dat = ascii (take 14 dat) @ ascii (drop 14 dat)"
    by (simp flip: ascii_append)
  then show ?thesis by (simp add: switch_text_def assms)
qed

lemma switch_text_out: "ascii ''--output=misc.img'' = switch_text (''output'', ascii ''misc.img'')"
  by (simp add: switch_text_def ascii_def cstr_def)

lemma switches_doc:
  assumes "cmdline_doc init" "list_all (\<lambda>(n, v). n \<noteq> [] \<and> CHR ''='' \<notin> set n) sws"
  shows "get_switch_value_ascii (init (prog # map switch_text sws)) (cstr name) = switch_value name sws"
    "get_switch_value_path (init (prog # map switch_text sws)) (cstr name) = switch_value name sws"
  using assms unfolding cmdline_doc_def by blast+

lemma parse_doc:
  assumes "cmdline_doc init" "list_all (\<lambda>(n, v). n \<noteq> [] \<and> CHR ''='' \<notin> set n) sws"
  obtains conv where "conv_doc conv"
    "fst (parse_command_line_args (init (prog # map switch_text sws)) md) =
     (case fst (set_slots_from_tokens conv (comma_fields (switch_value ''ab_metadata'' sws)) md) of
        Inl _ \<Rightarrow> 0 | Inr _ \<Rightarrow> if switch_value ''output'' sws = [] then 0 else 1)"
proof
  let ?cl = "init (prog # map switch_text sws)"
  have "tokens ?cl s = comma_fields s" for s using assms(1) by (simp add: cmdline_doc_def)
  then show "fst (parse_command_line_args ?cl md) =
     (case fst (set_slots_from_tokens (string_to_int ?cl) (comma_fields (switch_value ''ab_metadata'' sws)) md) of
        Inl _ \<Rightarrow> 0 | Inr _ \<Rightarrow> if switch_value ''output'' sws = [] then 0 else 1)"
    by (auto simp: parse_command_line_args_def Let_def switches_doc [OF assms] split: prod.splits sum.splits)
  show "conv_doc (string_to_int ?cl)"
    using assms(1) unfolding cmdline_doc_def conv_doc_def by blast
qed

text \<open>One expectation: what remains to be shown is an evaluation of the checks on the tokens.\<close>

lemma test_args_run:
  assumes "cmdline_doc init" "take 14 dat = ''--ab_metadata=''"
    and "\<And>conv. conv_doc conv \<Longrightarrow>
      (case fst (set_slots_from_tokens conv (comma_fields (ascii (drop 14 dat))) md) of Inl _ \<Rightarrow> 0 | Inr _ \<Rightarrow> 1) = r"
  shows "test_args init md r dat w = (Inr (), w)"
proof -
  define sws where "sws = [(''ab_metadata'', ascii (drop 14 dat)), (''output'', ascii ''misc.img'')]"
  have sv: "switch_value ''ab_metadata'' sws = ascii (drop 14 dat)"
    "switch_value ''output'' sws = ascii ''misc.img''" "ascii ''misc.img'' \<noteq> []"
    by (simp_all add: sws_def switch_value_def) (simp add: ascii_def cstr_def)
  have args: "[ascii dat, ascii ''--output=misc.img''] = map switch_text sws"
    by (simp only: sws_def switch_text_arg [OF assms(2)] switch_text_out list.map)
  have wf: "list_all (\<lambda>(n, v). n \<noteq> [] \<and> CHR ''='' \<notin> set n) sws" by (simp add: sws_def)
  show ?thesis
  proof (rule parse_doc [OF assms(1) wf, of "ascii ''make_misc_image''" md])
    fix conv
    assume "conv_doc conv" and p: "fst (parse_command_line_args (init (ascii ''make_misc_image'' # map switch_text sws)) md) =
      (case fst (set_slots_from_tokens conv (comma_fields (switch_value ''ab_metadata'' sws)) md) of
        Inl _ \<Rightarrow> 0 | Inr _ \<Rightarrow> if switch_value ''output'' sws = [] then 0 else 1)"
    have "fst (parse_command_line_args (init (ascii ''make_misc_image'' # map switch_text sws)) md) = r"
      unfolding p sv using assms(3) [OF \<open>conv_doc conv\<close>] sv(3) by simp
    then show ?thesis by (simp only: test_args_def args expect_True HOL.simp_thms)
  qed
qed

lemma conv_docD:
  assumes "conv_doc conv"
  shows "numeral_text s \<Longrightarrow> conv s = Some (int (decimal s))"
    "numeral_text s \<Longrightarrow> conv (0x2D # s) = Some (- int (decimal s))"
    "list_ex (\<lambda>c. \<not> digit c \<and> c \<noteq> 0x2B \<and> c \<noteq> 0x2D) s \<Longrightarrow> conv s = None"
  using assms by (simp_all add: conv_doc_def)

lemmas args_eval = ascii_def cstr_def numeral_text_def decimal_def digit_def slot_from_tokens_def

lemma MissingOutput_run:
  assumes "cmdline_doc init"
  shows "MissingOutput init md cb w = (Inr (), w)"
proof -
  define sws where "sws = [(''ab_metadata'', ascii ''15,0,1,14,0,1'')]"
  have args: "ascii ''--ab_metadata=15,0,1,14,0,1'' = switch_text (''ab_metadata'', ascii ''15,0,1,14,0,1'')"
    by (simp add: switch_text_def ascii_def cstr_def)
  have sv: "switch_value ''output'' sws = []" "list_all (\<lambda>(n, v). n \<noteq> [] \<and> CHR ''='' \<notin> set n) sws"
    by (simp_all add: sws_def switch_value_def)
  have "fst (parse_command_line_args (init (ascii ''make_misc_image'' # map switch_text sws)) md) = 0"
    by (rule parse_doc [OF assms sv(2), of "ascii ''make_misc_image''" md]) (simp add: sv(1) split: sum.splits)
  then have "fst (parse_command_line_args (init [ascii ''make_misc_image'', ascii ''--ab_metadata=15,0,1,14,0,1'']) md) = 0"
    by (simp only: args sws_def list.map)
  then show ?thesis by (simp add: MissingOutput_def numeral_2_eq_2)
qed

lemma in_order_idle: "list_all (\<lambda>m. m w = (Inr (), w)) ms \<Longrightarrow> in_order ms w = (Inr (), w)"
  by (induction ms) simp_all

lemma misc_tests_run:
  assumes "cmdline_doc init"
  shows "list_all (\<lambda>t. t cb w = (Inr (), w)) (misc_tests init [m0, m1])"
  unfolding misc_tests_def list.pred_inject
  by (intro conjI list.pred_inject(1) MissingOutput_run [OF assms];
      (unfold misc_test_defs; rule in_order_idle; unfold list.pred_inject; intro conjI list.pred_inject(1);
       rule test_args_run [OF assms]; simp add: args_eval conv_docD))

text \<open>A command line that behaves so, for the witness.\<close>

definition split_switch :: "str \<Rightarrow> str \<times> str" where
  "split_switch a = (takeWhile (\<lambda>c. c \<noteq> 0x3D) (drop 2 a), tl (dropWhile (\<lambda>c. c \<noteq> 0x3D) a))"

definition plain_value :: "str list \<Rightarrow> str \<Rightarrow> str" where
  "plain_value argv n =
     (case map_of (rev (map split_switch (tl argv))) (butlast n) of None \<Rightarrow> [] | Some v \<Rightarrow> v)"

definition plain_conv :: "str \<Rightarrow> int option" where
  "plain_conv s =
     (if numeral_text s then Some (int (decimal s))
      else if s \<noteq> [] \<and> hd s = 0x2D \<and> numeral_text (tl s) then Some (- int (decimal (tl s))) else None)"

definition plain_init :: "str list \<Rightarrow> cmdline" where
  "plain_init argv = \<lparr>get_switch_value_ascii = plain_value argv, get_switch_value_path = plain_value argv,
     tokens = comma_fields, string_to_int = plain_conv\<rparr>"

lemma char_byte_eq: "(of_nat (of_char c) :: byte) = of_nat (of_char d) \<longleftrightarrow> c = d"
  by (simp add: word_of_nat_eq_iff take_bit_nat_def)

lemma ascii_map: "ascii s = map (\<lambda>c. of_nat (of_char c)) s"
  by (simp add: ascii_def cstr_def)

lemma ascii_eq_iff [simp]: "ascii s = ascii t \<longleftrightarrow> s = t"
proof -
  have "inj (\<lambda>c :: char. of_nat (of_char c) :: byte)" by (rule injI) (simp only: char_byte_eq)
  then show ?thesis by (simp only: ascii_map inj_map_eq_map)
qed

lemma split_switch_text:
  assumes "CHR ''='' \<notin> set n"
  shows "split_switch (switch_text (n, v)) = (ascii n, v)"
proof -
  have n: "c \<noteq> 0x3D" if c: "c \<in> set (ascii n)" for c
  proof -
    obtain x where x: "x \<in> set n" "c = of_nat (of_char x)" using c by (auto simp: ascii_map)
    then have "x \<noteq> CHR ''=''" using assms by blast
    with x(2) show ?thesis using char_byte_eq [of x "CHR ''=''"] by simp
  qed
  have a: "switch_text (n, v) = 0x2D # 0x2D # ascii n @ 0x3D # v"
    by (simp add: switch_text_def ascii_map)
  show ?thesis using n by (simp add: split_switch_def a takeWhile_append dropWhile_append)
qed

lemma map_of_ascii: "map_of (map (\<lambda>(n, v). (ascii n, v)) xs) (ascii name) = map_of xs name"
  by (induction xs) auto

lemma cmdline_doc_plain: "cmdline_doc plain_init"
  unfolding cmdline_doc_def
proof (intro conjI allI impI)
  fix prog name and sws :: "(string \<times> str) list"
  assume "list_all (\<lambda>(n, v). n \<noteq> [] \<and> CHR ''='' \<notin> set n) sws"
  then have m: "map split_switch (map switch_text sws) = map (\<lambda>(n, v). (ascii n, v)) sws"
    by (auto simp: list_all_iff split_switch_text)
  have "plain_value (prog # map switch_text sws) (cstr name) = switch_value name sws"
    unfolding plain_value_def list.sel m rev_map ascii_def [symmetric] map_of_ascii switch_value_def ..
  then show "get_switch_value_ascii (plain_init (prog # map switch_text sws)) (cstr name) = switch_value name sws"
    "get_switch_value_path (plain_init (prog # map switch_text sws)) (cstr name) = switch_value name sws"
    by (simp_all add: plain_init_def)
next
  fix argv s assume "list_ex (\<lambda>c. \<not> digit c \<and> c \<noteq> 0x2B \<and> c \<noteq> 0x2D) s"
  then have "\<not> numeral_text s" "\<not> (s \<noteq> [] \<and> hd s = 0x2D \<and> numeral_text (tl s))"
    by (cases s; auto simp: numeral_text_def list_all_iff list_ex_iff)+
  then show "string_to_int (plain_init argv) s = None" by (simp add: plain_init_def plain_conv_def)
next
  have "\<not> digit 0x2D" by (simp add: digit_def)
  then show "string_to_int (plain_init argv) (0x2D # s) = Some (- int (decimal s))" if "numeral_text s" for argv s
    using that by (simp add: plain_init_def plain_conv_def numeral_text_def [of "0x2D # s"])
qed (simp_all add: plain_init_def plain_conv_def)

text \<open>With a libchrome that works as documented the twelve tests of the argument checks (38
  expectations over accepted, out-of-range, negative, non-numeric and missing values) run to their
  end without a failed expectation.\<close>

lemma misc_unit_tests_pass:
  assumes "cmdline_doc init" "env_doc env" "sound_files (files w)" "22 \<le> heap w"
  shows "\<forall>t\<in>set (misc_tests init [m0, m1]). \<exists>f. TEST_F env t w = (Inr (), w\<lparr>files := f\<rparr>)"
proof
  fix t assume t: "t \<in> set (misc_tests init [m0, m1])"
  obtain cb f where s: "SetUp env w = (Inr (Some cb), w\<lparr>files := f\<rparr>)"
    using SetUp_run [OF assms(2-4)] by blast
  have "t cb (w\<lparr>files := f\<rparr>) = (Inr (), w\<lparr>files := f\<rparr>)"
    using misc_tests_run [OF assms(1)] t by (auto simp: list_all_iff)
  with s have "TEST_F env t w = (Inr (), w\<lparr>files := f\<rparr>)" by (simp add: TEST_F_def)
  then show "\<exists>f. TEST_F env t w = (Inr (), w\<lparr>files := f\<rparr>)" by blast
qed


lemma misc_unit_tests_pass_witness:
  "failures (snd (TEST_F plain_env (NonNumericAtrribute plain_init [zero_slot, zero_slot]) plain_world)) = 0"
proof -
  have "NonNumericAtrribute plain_init [zero_slot, zero_slot] \<in> set (misc_tests plain_init [zero_slot, zero_slot])"
    by (simp add: misc_tests_def)
  then obtain f where "TEST_F plain_env (NonNumericAtrribute plain_init [zero_slot, zero_slot]) plain_world =
      (Inr (), plain_world\<lparr>files := f\<rparr>)"
    using misc_unit_tests_pass [OF cmdline_doc_plain plain_env_ok(1,2,4)] by blast
  then show ?thesis by (simp add: plain_world_def)
qed

end
