(* ===== verification/Wifi_Init.thy ===== *)
theory Wifi_Init
  imports Bub_Sysdeps
begin

text \<open>
  \<open>wifi_init.c\<close> and the driver interface \<open>wifi_driver_hal.h\<close>: the program that initialises the Wi-Fi
  driver at start-up and, on request, puts it into access point or client mode. The driver and the
  loader of HAL modules are parameters. The calls the program makes are recorded by a wrapper around
  any driver, and shown to follow the protocol the header documents.
\<close>

section \<open>The interface\<close>

datatype wifi_driver_error =
    WIFI_SUCCESS
  | WIFI_ERROR_UNKNOWN
  | WIFI_ERROR_NOT_SUPPORTED
  | WIFI_ERROR_NOT_AVAILABLE
  | WIFI_ERROR_INVALID_ARGS
  | WIFI_ERROR_TIMED_OUT

datatype wifi_driver_mode = WIFI_MODE_STATION | WIFI_MODE_AP

definition DEFAULT_WIFI_DEVICE_NAME_SIZE :: nat where "DEFAULT_WIFI_DEVICE_NAME_SIZE = 16"
definition WIFI_DRIVER_DEVICE_ID_MAIN :: "byte list" where "WIFI_DRIVER_DEVICE_ID_MAIN = cstr ''wifi_driver''"

text \<open>
  \<open>'h\<close> is the state of the hardware. \<open>wifi_driver_set_mode\<close> takes the contents of the name buffer and
  gives back the new contents; \<open>dev_close\<close> is \<open>common.close\<close>.
\<close>

record 'h wifi_driver_device_t =
  wifi_driver_initialize :: "'h \<Rightarrow> wifi_driver_error \<times> 'h"
  wifi_driver_set_mode :: "wifi_driver_mode \<Rightarrow> byte list \<Rightarrow> 'h \<Rightarrow> (wifi_driver_error \<times> byte list) \<times> 'h"
  dev_close :: "'h \<Rightarrow> int \<times> 'h"

text \<open>
  \<open>open_device\<close> is \<open>module->methods->open\<close>: a status and the device it stored, if any. \<open>hw_get_module\<close>
  likewise gives a status and a module.
\<close>

record 'h hw_module_t =
  open_device :: "byte list \<Rightarrow> 'h \<Rightarrow> (int \<times> 'h wifi_driver_device_t option) \<times> 'h"

record 'h wifi_hal =
  hw_get_module :: "byte list \<Rightarrow> 'h \<Rightarrow> (int \<times> 'h hw_module_t option) \<times> 'h"

definition wifi_driver_open ::
    "'h hw_module_t \<Rightarrow> 'h \<Rightarrow> (int \<times> 'h wifi_driver_device_t option) \<times> 'h" where
  "wifi_driver_open module = open_device module WIFI_DRIVER_DEVICE_ID_MAIN"

definition wifi_driver_close :: "'h wifi_driver_device_t \<Rightarrow> 'h \<Rightarrow> int \<times> 'h" where
  "wifi_driver_close device = dev_close device"

section \<open>The program\<close>

text \<open>The process: the hardware it drives, what it has printed and what it has logged.\<close>

datatype wifi_log =
    Init_Failed wifi_driver_error
  | Setup_Failed wifi_driver_error
  | No_Module
  | No_Device
  | Main_Failed wifi_driver_error

record 'h proc =
  hw :: 'h
  out :: "byte list"
  logged :: "wifi_log list"

definition on_hw :: "('h \<Rightarrow> 'a \<times> 'h) \<Rightarrow> ('h proc, 'a) io" where
  "on_hw f = (\<lambda>p. case f (hw p) of (x, h) \<Rightarrow> (Inr x, p\<lparr>hw := h\<rparr>))"

definition print_out :: "byte list \<Rightarrow> ('h proc, unit) io" where
  "print_out s = (\<lambda>p. (Inr (), p\<lparr>out := out p @ s\<rparr>))"

definition log_error :: "wifi_log \<Rightarrow> ('h proc, unit) io" where
  "log_error l = (\<lambda>p. (Inr (), p\<lparr>logged := logged p @ [l]\<rparr>))"

text \<open>\<open>cmd\<close> may be NULL: with \<open>argc = 0\<close> it is the terminator of \<open>argv\<close>.\<close>

definition usage :: "byte list option \<Rightarrow> ('h proc, unit) io" where
  "usage cmd = (case cmd of None \<Rightarrow> fail Null_Deref
     | Some cmd \<Rightarrow> bnd (c_string cmd) (\<lambda>s.
         print_out (butlast (cstr ''Usage: '') @ s @ butlast (cstr ('' [<ap|client>]'' @ nl)))))"

definition wifi_init :: "'h wifi_driver_device_t \<Rightarrow> ('h proc, wifi_driver_error) io" where
  "wifi_init driver =
     bnd (on_hw (wifi_driver_initialize driver)) (\<lambda>error.
     if error \<noteq> WIFI_SUCCESS then bnd (log_error (Init_Failed error)) (\<lambda>_. ret error)
     else ret WIFI_SUCCESS)"

text \<open>\<open>name0\<close> is the indeterminate contents of the local buffer \<open>device_name\<close>.\<close>

definition wifi_setup ::
    "byte list \<Rightarrow> 'h wifi_driver_device_t \<Rightarrow> wifi_driver_mode \<Rightarrow> ('h proc, wifi_driver_error) io" where
  "wifi_setup name0 driver mode =
     bnd (on_hw (wifi_driver_set_mode driver mode name0)) (\<lambda>(error, device_name).
     if error \<noteq> WIFI_SUCCESS then bnd (log_error (Setup_Failed error)) (\<lambda>_. ret error)
     else
       bnd (c_string device_name) (\<lambda>s.
       bnd (print_out (s @ [0x0A])) (\<lambda>_.
       ret WIFI_SUCCESS)))"

text \<open>A pointer the callee was to store; what it is if it did not is indeterminate.\<close>

definition stored :: "'a option \<Rightarrow> ('w, 'a) io" where
  "stored p = (case p of None \<Rightarrow> fail Null_Deref | Some x \<Rightarrow> ret x)"

definition wifi_get_hal ::
    "'h wifi_hal \<Rightarrow> ('h proc, wifi_driver_error \<times> 'h wifi_driver_device_t option) io" where
  "wifi_get_hal hal =
     bnd (on_hw (hw_get_module hal WIFI_DRIVER_DEVICE_ID_MAIN)) (\<lambda>(rc, module).
     if rc \<noteq> 0 then bnd (log_error No_Module) (\<lambda>_. ret (WIFI_ERROR_NOT_AVAILABLE, None))
     else
       bnd (stored module) (\<lambda>module.
       bnd (on_hw (wifi_driver_open module)) (\<lambda>(status, driver).
       if status \<noteq> 0 then bnd (log_error No_Device) (\<lambda>_. ret (WIFI_ERROR_UNKNOWN, None))
       else ret (WIFI_SUCCESS, driver))))"

text \<open>
  The part of \<open>main\<close> that looks at \<open>argv[1]\<close>: the error so far, or \<open>None\<close> after the usage text of a
  mode it does not know (the driver is closed and \<open>main\<close> returns 1).
\<close>

definition select_mode ::
    "byte list \<Rightarrow> 'h wifi_driver_device_t \<Rightarrow> byte list list \<Rightarrow> wifi_driver_error \<Rightarrow>
     ('h proc, wifi_driver_error option) io" where
  "select_mode name0 driver argv error =
     (if length argv = 2 then
        bnd (pure (bub_strcmp (argv ! 1) (cstr ''ap''))) (\<lambda>is_ap.
        if is_ap = 0 then bnd (wifi_setup name0 driver WIFI_MODE_AP) (\<lambda>error. ret (Some error))
        else
          bnd (pure (bub_strcmp (argv ! 1) (cstr ''client''))) (\<lambda>is_client.
          if is_client = 0 then bnd (wifi_setup name0 driver WIFI_MODE_STATION) (\<lambda>error. ret (Some error))
          else bnd (usage (Some (argv ! 0))) (\<lambda>_. ret None)))
      else ret (Some error))"

definition wifi_main :: "'h wifi_hal \<Rightarrow> byte list \<Rightarrow> byte list list \<Rightarrow> ('h proc, int) io" where
  "wifi_main hal name0 argv =
     (if length argv < 1 \<or> length argv > 2
      then bnd (usage (case argv of [] \<Rightarrow> None | cmd # _ \<Rightarrow> Some cmd)) (\<lambda>_. ret 1)
      else
        bnd (wifi_get_hal hal) (\<lambda>(found, driver).
        if found \<noteq> WIFI_SUCCESS then ret 1
        else
          bnd (stored driver) (\<lambda>driver.
          bnd (wifi_init driver) (\<lambda>error.
          if error \<noteq> WIFI_SUCCESS then bnd (on_hw (wifi_driver_close driver)) (\<lambda>_. ret 1)
          else
            bnd (select_mode name0 driver argv error) (\<lambda>error.
            bnd (on_hw (wifi_driver_close driver)) (\<lambda>_.
            case error of None \<Rightarrow> ret 1
            | Some error \<Rightarrow>
                if error \<noteq> WIFI_SUCCESS then bnd (log_error (Main_Failed error)) (\<lambda>_. ret 1)
                else ret 0))))))"

section \<open>The protocol\<close>

text \<open>The calls of the program and their outcomes, and what the header allows of their order.\<close>

datatype wifi_event =
    Get_Module bool
  | Open_Device bool
  | Initialize wifi_driver_error
  | Set_Mode wifi_driver_mode wifi_driver_error
  | Close_Device

datatype wifi_state = No_Hal | Have_Module | Opened | Initialized | Finished

inductive wifi_step :: "wifi_state \<Rightarrow> wifi_event \<Rightarrow> wifi_state \<Rightarrow> bool" where
  no_module: "wifi_step No_Hal (Get_Module False) Finished"
| module_found: "wifi_step No_Hal (Get_Module True) Have_Module"
| open_failed: "wifi_step Have_Module (Open_Device False) Finished"
| opened: "wifi_step Have_Module (Open_Device True) Opened"
| init_failed: "e \<noteq> WIFI_SUCCESS \<Longrightarrow> wifi_step Opened (Initialize e) Opened"
| init_done: "wifi_step Opened (Initialize WIFI_SUCCESS) Initialized"
| mode_set: "wifi_step Initialized (Set_Mode m e) Initialized"
| close_opened: "wifi_step Opened Close_Device Finished"
| close_initialized: "wifi_step Initialized Close_Device Finished"

inductive wifi_steps :: "wifi_state \<Rightarrow> wifi_event list \<Rightarrow> wifi_state \<Rightarrow> bool" where
  steps_done: "wifi_steps s [] s"
| steps_more: "wifi_step s e t \<Longrightarrow> wifi_steps t es u \<Longrightarrow> wifi_steps s (e # es) u"

inductive_cases wifi_step_modeE: "wifi_step s (Set_Mode m e) t"
inductive_simps wifi_steps_Nil: "wifi_steps s [] t"
inductive_simps wifi_steps_Cons: "wifi_steps s (e # es) t"

text \<open>What the relation rules out: a mode set before a successful initialisation, a device left open.\<close>

fun open_devices :: "wifi_state \<Rightarrow> nat" where
  "open_devices Opened = 1"
| "open_devices Initialized = 1"
| "open_devices _ = 0"

lemma wifi_step_balanced:
  "wifi_step s e t \<Longrightarrow> open_devices s + (if e = Open_Device True then 1 else 0) =
   open_devices t + (if e = Close_Device then 1 else 0)"
  by (cases rule: wifi_step.cases) auto

lemma wifi_steps_balanced:
  "wifi_steps s es t \<Longrightarrow> open_devices s + count_list es (Open_Device True) =
   open_devices t + count_list es Close_Device"
  by (induction rule: wifi_steps.induct) (auto dest: wifi_step_balanced split: if_splits)

lemma wifi_step_initialized: "wifi_step s e Initialized \<Longrightarrow> s \<noteq> Initialized \<Longrightarrow> e = Initialize WIFI_SUCCESS"
  by (cases rule: wifi_step.cases) auto

lemma wifi_steps_mode:
  "wifi_steps s es t \<Longrightarrow> es = xs @ Set_Mode m e # ys \<Longrightarrow> s \<noteq> Initialized \<Longrightarrow> Initialize WIFI_SUCCESS \<in> set xs"
proof (induction arbitrary: xs rule: wifi_steps.induct)
  case (steps_more s f u es t)
  show ?case
  proof (cases xs)
    case Nil
    then show ?thesis using steps_more by (auto elim: wifi_step_modeE)
  next
    case (Cons g zs)
    then show ?thesis
      using steps_more wifi_step_initialized by (cases "u = Initialized") auto
  qed
qed simp

text \<open>Any driver, with the record of the calls made.\<close>

definition traced_device ::
    "'h wifi_driver_device_t \<Rightarrow> ('h \<times> wifi_event list) wifi_driver_device_t" where
  "traced_device d = \<lparr>
     wifi_driver_initialize = (\<lambda>(h, tr). case wifi_driver_initialize d h of
       (e, h) \<Rightarrow> (e, (h, tr @ [Initialize e]))),
     wifi_driver_set_mode = (\<lambda>m buf (h, tr). case wifi_driver_set_mode d m buf h of
       ((e, buf), h) \<Rightarrow> ((e, buf), (h, tr @ [Set_Mode m e]))),
     dev_close = (\<lambda>(h, tr). case dev_close d h of (r, h) \<Rightarrow> (r, (h, tr @ [Close_Device])))\<rparr>"

definition traced_module :: "'h hw_module_t \<Rightarrow> ('h \<times> wifi_event list) hw_module_t" where
  "traced_module m = \<lparr>
     open_device = (\<lambda>name (h, tr). case open_device m name h of
       ((r, d), h) \<Rightarrow> ((r, map_option traced_device d), (h, tr @ [Open_Device (r = 0)])))\<rparr>"

definition traced :: "'h wifi_hal \<Rightarrow> ('h \<times> wifi_event list) wifi_hal" where
  "traced hal = \<lparr>
     hw_get_module = (\<lambda>name (h, tr). case hw_get_module hal name h of
       ((r, m), h) \<Rightarrow> ((r, map_option traced_module m), (h, tr @ [Get_Module (r = 0)])))\<rparr>"

text \<open>
  What \<open>libhardware\<close> and the header promise: a successful call stores a module, a device, a device
  name that ends in a NUL.
\<close>

definition device_doc :: "'h wifi_driver_device_t \<Rightarrow> bool" where
  "device_doc d \<longleftrightarrow> (\<forall>m buf h buf' h'.
     wifi_driver_set_mode d m buf h = ((WIFI_SUCCESS, buf'), h') \<longrightarrow> 0 \<in> set buf')"

definition hal_doc :: "'h wifi_hal \<Rightarrow> bool" where
  "hal_doc hal \<longleftrightarrow> (\<forall>name h m h'. hw_get_module hal name h = ((0, m), h') \<longrightarrow>
     (\<exists>module. m = Some module \<and> (\<forall>name h d h'. open_device module name h = ((0, d), h') \<longrightarrow>
        (\<exists>device. d = Some device \<and> device_doc device))))"

section \<open>Every run follows the protocol\<close>

text \<open>The mode an argument names, and the calls of a run that succeeds.\<close>

definition mode_of :: "byte list \<Rightarrow> wifi_driver_mode option" where
  "mode_of arg =
     (if takeWhile (\<lambda>c. c \<noteq> 0) arg = butlast (cstr ''ap'') then Some WIFI_MODE_AP
      else if takeWhile (\<lambda>c. c \<noteq> 0) arg = butlast (cstr ''client'') then Some WIFI_MODE_STATION
      else None)"

definition good_run :: "byte list list \<Rightarrow> wifi_event list option" where
  "good_run argv =
     (let start = [Get_Module True, Open_Device True, Initialize WIFI_SUCCESS] in
      case argv of
        [_] \<Rightarrow> Some (start @ [Close_Device])
      | [_, arg] \<Rightarrow> map_option (\<lambda>m. start @ [Set_Mode m WIFI_SUCCESS, Close_Device]) (mode_of arg)
      | _ \<Rightarrow> None)"

lemma on_hw_run [simp]: "f (hw p) = (x, h) \<Longrightarrow> on_hw f p = (Inr x, p\<lparr>hw := h\<rparr>)"
  by (simp add: on_hw_def)

lemma print_out_run [simp]: "print_out s p = (Inr (), p\<lparr>out := out p @ s\<rparr>)"
  by (simp add: print_out_def)

lemma log_error_run [simp]: "log_error l p = (Inr (), p\<lparr>logged := logged p @ [l]\<rparr>)"
  by (simp add: log_error_def)

lemma stored_run [simp]: "stored (Some x) w = (Inr x, w)"
  by (simp add: stored_def)

lemma c_string_run [simp]: "0 \<in> set s \<Longrightarrow> c_string s w = (Inr (takeWhile (\<lambda>c. c \<noteq> 0) s), w)"
  by (simp add: c_string_def)

lemma usage_run: "0 \<in> set cmd \<Longrightarrow> \<exists>t. usage (Some cmd) p = (Inr (), p\<lparr>out := t\<rparr>)"
  by (auto simp: usage_def)

lemma wifi_setup_run:
  assumes "device_doc d" "hw p = (h, tr)"
  shows "\<exists>e h' t l. wifi_setup name0 (traced_device d) m p =
    (Inr e, p\<lparr>hw := (h', tr @ [Set_Mode m e]), out := t, logged := l\<rparr>)"
proof -
  obtain e buf h' where s: "wifi_driver_set_mode d m name0 h = ((e, buf), h')" by (metis surj_pair)
  then have run: "on_hw (wifi_driver_set_mode (traced_device d) m name0) p =
      (Inr (e, buf), p\<lparr>hw := (h', tr @ [Set_Mode m e])\<rparr>)"
    using assms(2) by (simp add: traced_device_def)
  show ?thesis
  proof (cases "e = WIFI_SUCCESS")
    case True
    then have "0 \<in> set buf" using assms(1) s unfolding device_doc_def by blast
    then show ?thesis
      using run True by (intro exI [of _ e] exI [of _ h'] exI [of _ "out p @ takeWhile (\<lambda>c. c \<noteq> 0) buf @ [0x0A]"]
          exI [of _ "logged p"]) (cases p; simp add: wifi_setup_def)
  next
    case False
    then show ?thesis
      using run by (intro exI [of _ e] exI [of _ h'] exI [of _ "out p"] exI [of _ "logged p @ [Setup_Failed e]"])
        (cases p; simp add: wifi_setup_def)
  qed
qed

lemma select_mode_run:
  assumes "device_doc d" "hw p = (h, tr)" "argv \<noteq> []" "length argv \<le> 2" "\<forall>a\<in>set argv. 0 \<in> set a"
  shows "\<exists>r h' es t l. select_mode name0 (traced_device d) argv WIFI_SUCCESS p =
      (Inr r, p\<lparr>hw := (h', tr @ es), out := t, logged := l\<rparr>) \<and>
    (es = [] \<or> (\<exists>m e. es = [Set_Mode m e])) \<and>
    (r = Some WIFI_SUCCESS \<longleftrightarrow>
       good_run argv = Some ([Get_Module True, Open_Device True, Initialize WIFI_SUCCESS] @ es @ [Close_Device]))"
proof (cases "length argv = 2")
  case False
  then obtain a where "argv = [a]" using assms(3,4) by (cases argv rule: list.exhaust; cases "tl argv") auto
  with assms(2) show ?thesis
    by (intro exI [of _ "Some WIFI_SUCCESS"] exI [of _ h] exI [of _ "[]"] exI [of _ "out p"] exI [of _ "logged p"])
       (cases p; simp add: select_mode_def good_run_def)
next
  case True
  then obtain cmd arg where argv: "argv = [cmd, arg]" "0 \<in> set cmd" "0 \<in> set arg"
    using assms(5) by (auto simp: numeral_2_eq_2 length_Suc_conv)
  have tw: "takeWhile (\<lambda>c. c \<noteq> 0) (cstr ''ap'') = butlast (cstr ''ap'')"
    "takeWhile (\<lambda>c. c \<noteq> 0) (cstr ''client'') = butlast (cstr ''client'')"
    by (simp_all add: cstr_def)
  obtain r1 r2 where r1: "bub_strcmp arg (cstr ''ap'') = Inr r1" "r1 = 0 \<longleftrightarrow> takeWhile (\<lambda>c. c \<noteq> 0) arg = butlast (cstr ''ap'')"
    and r2: "bub_strcmp arg (cstr ''client'') = Inr r2" "r2 = 0 \<longleftrightarrow> takeWhile (\<lambda>c. c \<noteq> 0) arg = butlast (cstr ''client'')"
    using bub_strcmp_run [OF argv(3), of "cstr ''ap''"] bub_strcmp_run [OF argv(3), of "cstr ''client''"]
    unfolding tw by (auto simp: cstr_def)
  show ?thesis
  proof (cases "mode_of arg")
    case None
    obtain t where t: "usage (Some cmd) p = (Inr (), p\<lparr>out := t\<rparr>)" using usage_run [OF argv(2)] by blast
    have "r1 \<noteq> 0" "r2 \<noteq> 0" using None r1(2) r2(2) by (auto simp: mode_of_def split: if_splits)
    then show ?thesis
      using t r1(1) r2(1) assms(2) None argv
      by (intro exI [of _ None] exI [of _ h] exI [of _ "[]"] exI [of _ t] exI [of _ "logged p"])
         (cases p; simp add: select_mode_def good_run_def)
  next
    case (Some m)
    obtain e h' t l where s: "wifi_setup name0 (traced_device d) m p =
        (Inr e, p\<lparr>hw := (h', tr @ [Set_Mode m e]), out := t, logged := l\<rparr>)"
      using wifi_setup_run [OF assms(1,2)] by blast
    have "select_mode name0 (traced_device d) argv WIFI_SUCCESS p =
        (Inr (Some e), p\<lparr>hw := (h', tr @ [Set_Mode m e]), out := t, logged := l\<rparr>)"
      using s Some r1 r2 argv(1) by (auto simp: select_mode_def mode_of_def split: if_splits)
    then show ?thesis
      using Some argv(1) by (intro exI [of _ "Some e"] exI [of _ h'] exI [of _ "[Set_Mode m e]"] exI [of _ t] exI [of _ l])
        (auto simp: good_run_def)
  qed
qed


lemmas wifi_step_intros = wifi_step.intros

lemma wifi_steps_session:
  assumes "es = [] \<or> (\<exists>m e. es = [Set_Mode m e])"
  shows "wifi_steps No_Hal ([Get_Module True, Open_Device True, Initialize WIFI_SUCCESS] @ es @ [Close_Device]) Finished"
  using assms by (auto simp: wifi_steps_Cons wifi_steps_Nil intro!: exI wifi_step_intros)

lemma good_run_start:
  "good_run argv = Some es \<Longrightarrow> \<exists>es'. es = Get_Module True # Open_Device True # Initialize WIFI_SUCCESS # es'"
  by (auto simp: good_run_def Let_def split: list.splits)

text \<open>The process at a point of a traced run.\<close>

definition at :: "'h \<Rightarrow> wifi_event list \<Rightarrow> byte list \<Rightarrow> wifi_log list \<Rightarrow> ('h \<times> wifi_event list) proc" where
  "at h es t l = \<lparr>hw = (h, es), out = t, logged = l\<rparr>"

lemma at_simps [simp]:
  "hw (at h es t l) = (h, es)" "(at h es t l)\<lparr>hw := (h', es')\<rparr> = at h' es' t l"
  "(at h es t l)\<lparr>logged := l'\<rparr> = at h es t l'" "(at h es t l)\<lparr>out := t'\<rparr> = at h es t' l"
  "logged (at h es t l) = l" "out (at h es t l) = t"
  by (simp_all add: at_def)

lemma wifi_get_hal_run:
  assumes "hal_doc hal"
  obtains h es l err where "wifi_get_hal (traced hal) (at h0 [] [] []) = (Inr (err, None), at h es [] l)"
      "err \<noteq> WIFI_SUCCESS" "es = [Get_Module False] \<or> es = [Get_Module True, Open_Device False]"
  | h d where "wifi_get_hal (traced hal) (at h0 [] [] []) =
      (Inr (WIFI_SUCCESS, Some (traced_device d)), at h [Get_Module True, Open_Device True] [] [])" "device_doc d"
proof -
  obtain r1 m h1 where g: "hw_get_module hal WIFI_DRIVER_DEVICE_ID_MAIN h0 = ((r1, m), h1)" by (metis surj_pair)
  have g': "on_hw (hw_get_module (traced hal) WIFI_DRIVER_DEVICE_ID_MAIN) (at h0 [] [] []) =
      (Inr (r1, map_option traced_module m), at h1 [Get_Module (r1 = 0)] [] [])"
    using g by (simp add: traced_def on_hw_def)
  show thesis
  proof (cases "r1 = 0")
    case False
    then show ?thesis using g' by (intro that(1)) (simp add: wifi_get_hal_def, simp_all)
  next
    case r1: True
    obtain md where md: "m = Some md" using assms g r1 unfolding hal_doc_def by blast
    obtain r2 d h2 where o: "open_device md WIFI_DRIVER_DEVICE_ID_MAIN h1 = ((r2, d), h2)" by (metis surj_pair)
    have o': "on_hw (wifi_driver_open (traced_module md)) (at h1 [Get_Module True] [] []) =
        (Inr (r2, map_option traced_device d), at h2 [Get_Module True, Open_Device (r2 = 0)] [] [])"
      using o by (simp add: wifi_driver_open_def traced_module_def on_hw_def)
    show ?thesis
    proof (cases "r2 = 0")
      case False
      then show ?thesis using g' o' r1 md by (intro that(1)) (simp add: wifi_get_hal_def, simp_all)
    next
      case True
      then obtain dev where "d = Some dev" "device_doc dev"
        using assms g md o r1 unfolding hal_doc_def by blast
      then show ?thesis using g' o' r1 md True by (intro that(2)) (simp add: wifi_get_hal_def, simp_all)
    qed
  qed
qed

lemma wifi_close_run: "\<exists>r h'. on_hw (wifi_driver_close (traced_device d)) (at h es t l) = (Inr r, at h' (es @ [Close_Device]) t l)"
  by (cases "dev_close d h") (auto simp: wifi_driver_close_def traced_device_def on_hw_def intro!: exI)

lemma wifi_main_run:
  assumes "hal_doc hal" "argv \<noteq> []" "\<forall>a\<in>set argv. 0 \<in> set a"
  shows "\<exists>status h es t l. wifi_main (traced hal) name0 argv \<lparr>hw = (h0, []), out = [], logged = []\<rparr> =
      (Inr status, \<lparr>hw = (h, es), out = t, logged = l\<rparr>) \<and>
    (if length argv \<le> 2 then wifi_steps No_Hal es Finished else es = []) \<and>
    status = (if good_run argv = Some es then 0 else 1)"
  unfolding at_def [symmetric]
proof (cases "length argv \<le> 2")
  case False
  obtain cmd rest where argv: "argv = cmd # rest" "0 \<in> set cmd" using assms(2,3) by (cases argv) auto
  obtain t where "usage (Some cmd) (at h0 [] [] []) = (Inr (), at h0 [] t [])"
    using usage_run [OF argv(2), of "at h0 [] [] []"] by auto
  moreover have "good_run argv = None" using False by (auto simp: good_run_def Let_def split: list.splits)
  ultimately show "\<exists>status h es t l. wifi_main (traced hal) name0 argv (at h0 [] [] []) = (Inr status, at h es t l) \<and>
      (if length argv \<le> 2 then wifi_steps No_Hal es Finished else es = []) \<and>
      status = (if good_run argv = Some es then 0 else 1)"
    using False argv(1) by (auto simp: wifi_main_def)
next
  case True
  have len: "\<not> (length argv < 1 \<or> length argv > 2)" using True assms(2) by (cases argv) auto
  note main = wifi_main_def [of "traced hal" name0 argv, unfolded if_not_P [OF len]]
  show "\<exists>status h es t l. wifi_main (traced hal) name0 argv (at h0 [] [] []) = (Inr status, at h es t l) \<and>
      (if length argv \<le> 2 then wifi_steps No_Hal es Finished else es = []) \<and>
      status = (if good_run argv = Some es then 0 else 1)"
  proof (rule wifi_get_hal_run [OF assms(1), of h0])
    fix h es l err
    assume "wifi_get_hal (traced hal) (at h0 [] [] []) = (Inr (err, None), at h es [] l)"
      "err \<noteq> WIFI_SUCCESS" "es = [Get_Module False] \<or> es = [Get_Module True, Open_Device False]"
    moreover from this(3) have "good_run argv \<noteq> Some es" "wifi_steps No_Hal es Finished"
      by (auto simp: wifi_steps_Cons wifi_steps_Nil dest: good_run_start intro!: exI wifi_step_intros)
    ultimately show ?thesis using True by (intro exI [of _ 1] exI [of _ h] exI [of _ es] exI [of _ "[]"] exI [of _ l]) (simp add: main)
  next
    fix h d
    assume g: "wifi_get_hal (traced hal) (at h0 [] [] []) =
      (Inr (WIFI_SUCCESS, Some (traced_device d)), at h [Get_Module True, Open_Device True] [] [])" "device_doc d"
    obtain e h1 where "wifi_driver_initialize d h = (e, h1)" by fastforce
    then have i: "on_hw (wifi_driver_initialize (traced_device d)) (at h [Get_Module True, Open_Device True] [] []) =
        (Inr e, at h1 [Get_Module True, Open_Device True, Initialize e] [] [])"
      by (simp add: traced_device_def on_hw_def)
    show ?thesis
    proof (cases "e = WIFI_SUCCESS")
      case False
      obtain r h2 where c: "on_hw (wifi_driver_close (traced_device d))
          (at h1 [Get_Module True, Open_Device True, Initialize e] [] [Init_Failed e]) =
          (Inr r, at h2 [Get_Module True, Open_Device True, Initialize e, Close_Device] [] [Init_Failed e])"
        using wifi_close_run [of d h1 "[Get_Module True, Open_Device True, Initialize e]" "[]" "[Init_Failed e]"] by auto
      show ?thesis
        using g i c False True
        by (intro exI [of _ 1] exI [of _ h2] exI [of _ "[Get_Module True, Open_Device True, Initialize e, Close_Device]"])
          (auto simp: main wifi_init_def wifi_steps_Cons wifi_steps_Nil dest: good_run_start intro!: exI wifi_step_intros)
    next
      case e: True
      let ?start = "[Get_Module True, Open_Device True, Initialize WIFI_SUCCESS]"
      obtain r h2 es t l where s: "select_mode name0 (traced_device d) argv WIFI_SUCCESS (at h1 ?start [] []) =
          (Inr r, at h2 (?start @ es) t l)" "es = [] \<or> (\<exists>m e. es = [Set_Mode m e])"
          "r = Some WIFI_SUCCESS \<longleftrightarrow> good_run argv = Some (?start @ es @ [Close_Device])"
        using select_mode_run [OF g(2) at_simps(1) assms(2) True assms(3), of name0 h1 ?start "[]" "[]"]
        unfolding at_simps by blast
      obtain q h3 where c: "on_hw (wifi_driver_close (traced_device d)) (at h2 (?start @ es) t l) =
          (Inr q, at h3 (?start @ es @ [Close_Device]) t l)"
        using wifi_close_run [of d h2 "?start @ es" t l] by auto
      show ?thesis
        using g(1) i e s c True wifi_steps_session [OF s(2)]
        by (intro exI [of _ "if r = Some WIFI_SUCCESS then 0 else 1"] exI [of _ h3] exI [of _ "?start @ es @ [Close_Device]"])
          (cases r; auto simp: main wifi_init_def)
    qed
  qed
qed


definition plain_driver :: "unit wifi_driver_device_t" where
  "plain_driver = \<lparr>
     wifi_driver_initialize = (\<lambda>h. (WIFI_SUCCESS, h)),
     wifi_driver_set_mode = (\<lambda>m buf h. ((WIFI_SUCCESS, cstr ''wlan0''), h)),
     dev_close = (\<lambda>h. (0, h))\<rparr>"

definition plain_hal :: "unit wifi_hal" where
  "plain_hal = \<lparr>hw_get_module = (\<lambda>name h. ((0, Some \<lparr>open_device = (\<lambda>name h. ((0, Some plain_driver), h))\<rparr>), h))\<rparr>"


text \<open>Started with an empty \<open>argv\<close> the program hands the NULL behind it to \<open>printf ("%s")\<close>.\<close>

lemma wifi_main_no_argv: "wifi_main hal name0 [] p = (Inl Null_Deref, p)"
  by (simp add: wifi_main_def usage_def)

end
