(* ===== verification/Sensor_Shim.thy ===== *)
theory Sensor_Shim
  imports Bub_Prelude
begin

text \<open>
  \<open>sensor.cpp\<close> and \<open>looper.cpp\<close>: the NDK's sensor and looper functions on top of the framework classes
  \<open>SensorManager\<close>, \<open>SensorEventQueue\<close> and \<open>Looper\<close>. The classes are not part of the repository: their
  methods, \<open>poll\<close> and the strong references of \<open>RefBase\<close> are parameters.
\<close>

section \<open>The framework\<close>

text \<open>
  Managers, queues, loopers, callbacks and the client's data are handles; a \<open>float\<close> is its bit
  pattern. \<open>poll_out\<close> is what a poll stores in \<open>outFd\<close>, \<open>outEvents\<close> and \<open>outData\<close>. The second argument
  of \<open>incStrong\<close> and \<open>decStrong\<close> only labels the reference for debugging and is left out.
\<close>

type_synonym poll_out = "int \<times> int \<times> nat"

record Sensor =
  getName :: "byte list"
  getVendor :: "byte list"
  getType :: int
  getResolution :: u32
  getMinDelay :: int
  getFifoMaxEventCount :: int
  getFifoReservedEventCount :: int
  getStringType :: "byte list"
  getReportingMode :: int
  isWakeUpSensor :: bool

record ('w, 'e) android =
  getInstanceForPackage :: "byte list \<Rightarrow> 'w \<Rightarrow> nat \<times> 'w"
  getSensorList :: "nat \<Rightarrow> 'w \<Rightarrow> (int \<times> Sensor list) \<times> 'w"
  getDefaultSensor :: "nat \<Rightarrow> int \<Rightarrow> 'w \<Rightarrow> Sensor option \<times> 'w"
  createEventQueue :: "nat \<Rightarrow> 'w \<Rightarrow> nat option \<times> 'w"
  getFd :: "nat \<Rightarrow> 'w \<Rightarrow> int \<times> 'w"
  get_looper :: "nat \<Rightarrow> 'w \<Rightarrow> nat \<times> 'w"
  set_looper :: "nat \<Rightarrow> nat \<Rightarrow> 'w \<Rightarrow> unit \<times> 'w"
  enableSensor :: "nat \<Rightarrow> Sensor \<Rightarrow> 'w \<Rightarrow> int \<times> 'w"
  disableSensor :: "nat \<Rightarrow> Sensor \<Rightarrow> 'w \<Rightarrow> int \<times> 'w"
  setEventRate :: "nat \<Rightarrow> Sensor \<Rightarrow> u64 \<Rightarrow> 'w \<Rightarrow> int \<times> 'w"
  read_events :: "nat \<Rightarrow> nat \<Rightarrow> 'w \<Rightarrow> (int \<times> 'e list) \<times> 'w"
  sendAck :: "nat \<Rightarrow> 'e list \<Rightarrow> int \<Rightarrow> 'w \<Rightarrow> unit \<times> 'w"
  poll_fd :: "int \<Rightarrow> u16 \<Rightarrow> int \<Rightarrow> 'w \<Rightarrow> (int \<times> u16) \<times> 'w"
  errno :: "'w \<Rightarrow> int \<times> 'w"
  incStrong :: "nat \<Rightarrow> 'w \<Rightarrow> unit \<times> 'w"
  decStrong :: "nat \<Rightarrow> 'w \<Rightarrow> unit \<times> 'w"
  getForThread :: "'w \<Rightarrow> nat option \<times> 'w"
  prepare :: "int \<Rightarrow> 'w \<Rightarrow> nat option \<times> 'w"
  pollOnce :: "nat \<Rightarrow> int \<Rightarrow> 'w \<Rightarrow> (int \<times> poll_out) \<times> 'w"
  pollAll :: "nat \<Rightarrow> int \<Rightarrow> 'w \<Rightarrow> (int \<times> poll_out) \<times> 'w"
  wake :: "nat \<Rightarrow> 'w \<Rightarrow> unit \<times> 'w"
  addFd :: "nat \<Rightarrow> int \<Rightarrow> int \<Rightarrow> int \<Rightarrow> nat \<Rightarrow> nat \<Rightarrow> 'w \<Rightarrow> int \<times> 'w"
  removeFd :: "nat \<Rightarrow> int \<Rightarrow> 'w \<Rightarrow> int \<times> 'w"
  flushCommands :: "'w \<Rightarrow> unit \<times> 'w"

text \<open>
  A local \<open>sp<T>\<close> holds a strong reference until its scope ends. A function that returns an \<open>sp\<close> hands
  one over to its caller; NULL holds none.
\<close>

definition sp_release :: "('w, 'e) android \<Rightarrow> nat option \<Rightarrow> ('w, unit) io" where
  "sp_release a p = (case p of None \<Rightarrow> ret () | Some x \<Rightarrow> call (decStrong a x))"

section \<open>looper.cpp\<close>

definition ALOOPER_POLL_ERROR :: int where "ALOOPER_POLL_ERROR = -4"
definition ALOOPER_EVENT_INPUT :: int where "ALOOPER_EVENT_INPUT = 1"

definition ALooper_forThread :: "('w, 'e) android \<Rightarrow> ('w, nat option) io" where
  "ALooper_forThread a =
     bnd (call (getForThread a)) (\<lambda>looper. bnd (sp_release a looper) (\<lambda>_. ret looper))"

definition ALooper_prepare :: "('w, 'e) android \<Rightarrow> int \<Rightarrow> ('w, nat option) io" where
  "ALooper_prepare a opts =
     bnd (call (prepare a opts)) (\<lambda>looper. bnd (sp_release a looper) (\<lambda>_. ret looper))"

definition ALooper_acquire :: "('w, 'e) android \<Rightarrow> nat \<Rightarrow> ('w, unit) io" where
  "ALooper_acquire a looper = call (incStrong a looper)"

definition ALooper_release :: "('w, 'e) android \<Rightarrow> nat \<Rightarrow> ('w, unit) io" where
  "ALooper_release a looper = call (decStrong a looper)"

definition ALooper_pollOnce :: "('w, 'e) android \<Rightarrow> int \<Rightarrow> ('w, int \<times> poll_out option) io" where
  "ALooper_pollOnce a timeoutMillis =
     bnd (call (getForThread a)) (\<lambda>looper.
     case looper of
       None \<Rightarrow> ret (ALOOPER_POLL_ERROR, None)
     | Some l \<Rightarrow>
         bnd (call (flushCommands a)) (\<lambda>_.
         bnd (call (pollOnce a l timeoutMillis)) (\<lambda>(r, out).
         bnd (sp_release a looper) (\<lambda>_. ret (r, Some out)))))"

definition ALooper_pollAll :: "('w, 'e) android \<Rightarrow> int \<Rightarrow> ('w, int \<times> poll_out option) io" where
  "ALooper_pollAll a timeoutMillis =
     bnd (call (getForThread a)) (\<lambda>looper.
     case looper of
       None \<Rightarrow> ret (ALOOPER_POLL_ERROR, None)
     | Some l \<Rightarrow>
         bnd (call (flushCommands a)) (\<lambda>_.
         bnd (call (pollAll a l timeoutMillis)) (\<lambda>(r, out).
         bnd (sp_release a looper) (\<lambda>_. ret (r, Some out)))))"

definition ALooper_wake :: "('w, 'e) android \<Rightarrow> nat \<Rightarrow> ('w, unit) io" where
  "ALooper_wake a looper = call (wake a looper)"

definition ALooper_addFd ::
    "('w, 'e) android \<Rightarrow> nat \<Rightarrow> int \<Rightarrow> int \<Rightarrow> int \<Rightarrow> nat \<Rightarrow> nat \<Rightarrow> ('w, int) io" where
  "ALooper_addFd a looper fd ident events callback data =
     call (addFd a looper fd ident events callback data)"

definition ALooper_removeFd :: "('w, 'e) android \<Rightarrow> nat \<Rightarrow> int \<Rightarrow> ('w, int) io" where
  "ALooper_removeFd a looper fd = call (removeFd a looper fd)"

section \<open>sensor.cpp\<close>

definition ASensor_getName :: "Sensor \<Rightarrow> byte list" where "ASensor_getName s = getName s"
definition ASensor_getVendor :: "Sensor \<Rightarrow> byte list" where "ASensor_getVendor s = getVendor s"
definition ASensor_getType :: "Sensor \<Rightarrow> int" where "ASensor_getType s = getType s"
definition ASensor_getResolution :: "Sensor \<Rightarrow> u32" where "ASensor_getResolution s = getResolution s"
definition ASensor_getMinDelay :: "Sensor \<Rightarrow> int" where "ASensor_getMinDelay s = getMinDelay s"
definition ASensor_getFifoMaxEventCount :: "Sensor \<Rightarrow> int" where
  "ASensor_getFifoMaxEventCount s = getFifoMaxEventCount s"
definition ASensor_getFifoReservedEventCount :: "Sensor \<Rightarrow> int" where
  "ASensor_getFifoReservedEventCount s = getFifoReservedEventCount s"
definition ASensor_getStringType :: "Sensor \<Rightarrow> byte list" where "ASensor_getStringType s = getStringType s"
definition ASensor_getReportingMode :: "Sensor \<Rightarrow> int" where "ASensor_getReportingMode s = getReportingMode s"
definition ASensor_isWakeUpSensor :: "Sensor \<Rightarrow> bool" where "ASensor_isWakeUpSensor s = isWakeUpSensor s"

text \<open>\<open>String16 ()\<close> is the empty string.\<close>

definition ASensorManager_getInstanceForPackage ::
    "('w, 'e) android \<Rightarrow> byte list option \<Rightarrow> ('w, nat) io" where
  "ASensorManager_getInstanceForPackage a packageName =
     (case packageName of
        Some p \<Rightarrow> call (getInstanceForPackage a p)
      | None \<Rightarrow> call (getInstanceForPackage a []))"

definition ASensorManager_getInstance :: "('w, 'e) android \<Rightarrow> ('w, nat) io" where
  "ASensorManager_getInstance a = ASensorManager_getInstanceForPackage a None"

text \<open>The count, and what is stored through \<open>list\<close> unless it is NULL.\<close>

definition ASensorManager_getSensorList ::
    "('w, 'e) android \<Rightarrow> nat \<Rightarrow> bool \<Rightarrow> ('w, int \<times> Sensor list option) io" where
  "ASensorManager_getSensorList a manager list_given =
     bnd (call (getSensorList a manager)) (\<lambda>(c, l).
     ret (c, if list_given then Some l else None))"

definition ASensorManager_getDefaultSensor ::
    "('w, 'e) android \<Rightarrow> nat \<Rightarrow> int \<Rightarrow> ('w, Sensor option) io" where
  "ASensorManager_getDefaultSensor a manager type = call (getDefaultSensor a manager type)"

text \<open>The loop over the first \<open>n\<close> entries of the list; an entry behind its end is an access outside.\<close>

fun default_sensor_loop :: "int \<Rightarrow> bool \<Rightarrow> nat \<Rightarrow> Sensor list \<Rightarrow> fault + Sensor option" where
  "default_sensor_loop type wakeUp 0 l = Inr None"
| "default_sensor_loop type wakeUp (Suc n) [] = Inl Oob_Read"
| "default_sensor_loop type wakeUp (Suc n) (s # l) =
     (if ASensor_getType s = type \<and> ASensor_isWakeUpSensor s = wakeUp then Inr (Some s)
      else default_sensor_loop type wakeUp n l)"

text \<open>\<open>size_t size\<close>: a negative count becomes a huge one.\<close>

definition ASensorManager_getDefaultSensorEx ::
    "('w, 'e) android \<Rightarrow> nat \<Rightarrow> int \<Rightarrow> bool \<Rightarrow> ('w, Sensor option) io" where
  "ASensorManager_getDefaultSensorEx a manager type wakeUp =
     bnd (call (getSensorList a manager)) (\<lambda>(c, l).
     pure (default_sensor_loop type wakeUp (unat (of_int c :: u64)) l))"

definition ASensorManager_createEventQueue ::
    "('w, 'e) android \<Rightarrow> nat \<Rightarrow> nat \<Rightarrow> int \<Rightarrow> nat \<Rightarrow> nat \<Rightarrow> ('w, nat option) io" where
  "ASensorManager_createEventQueue a manager looper ident callback data =
     bnd (call (createEventQueue a manager)) (\<lambda>queue.
     bnd (case queue of
            None \<Rightarrow> ret ()
          | Some q \<Rightarrow>
              bnd (call (getFd a q)) (\<lambda>fd.
              bnd (ALooper_addFd a looper fd ident ALOOPER_EVENT_INPUT callback data) (\<lambda>_.
              bnd (call (set_looper a q looper)) (\<lambda>_.
              call (incStrong a q))))) (\<lambda>_.
     bnd (sp_release a queue) (\<lambda>_.
     ret queue)))"

definition ASensorManager_destroyEventQueue :: "('w, 'e) android \<Rightarrow> nat \<Rightarrow> nat \<Rightarrow> ('w, int) io" where
  "ASensorManager_destroyEventQueue a manager inQueue =
     bnd (call (incStrong a inQueue)) (\<lambda>_.
     bnd (call (get_looper a inQueue)) (\<lambda>looper.
     bnd (call (getFd a inQueue)) (\<lambda>fd.
     bnd (ALooper_removeFd a looper fd) (\<lambda>_.
     bnd (call (decStrong a inQueue)) (\<lambda>_.
     bnd (sp_release a (Some inQueue)) (\<lambda>_.
     ret 0))))))"

definition ASensorEventQueue_enableSensor :: "('w, 'e) android \<Rightarrow> nat \<Rightarrow> Sensor \<Rightarrow> ('w, int) io" where
  "ASensorEventQueue_enableSensor a queue s = call (enableSensor a queue s)"

definition ASensorEventQueue_disableSensor :: "('w, 'e) android \<Rightarrow> nat \<Rightarrow> Sensor \<Rightarrow> ('w, int) io" where
  "ASensorEventQueue_disableSensor a queue s = call (disableSensor a queue s)"

text \<open>\<open>us2ns\<close> multiplies an \<open>int64_t\<close> by 1000; \<open>usec\<close> is an \<open>int32_t\<close>.\<close>

definition us2ns :: "u64 \<Rightarrow> u64" where "us2ns v = v * 1000"

definition ASensorEventQueue_setEventRate ::
    "('w, 'e) android \<Rightarrow> nat \<Rightarrow> Sensor \<Rightarrow> u32 \<Rightarrow> ('w, int) io" where
  "ASensorEventQueue_setEventRate a queue s usec =
     call (setEventRate a queue s (us2ns (scast usec)))"

definition POLLIN :: u16 where "POLLIN = 1"

definition ASensorEventQueue_hasEvents :: "('w, 'e) android \<Rightarrow> nat \<Rightarrow> ('w, int) io" where
  "ASensorEventQueue_hasEvents a queue =
     bnd (call (getFd a queue)) (\<lambda>fd.
     bnd (call (poll_fd a fd POLLIN 0)) (\<lambda>(nfd, revents).
     if nfd < 0 then bnd (call (errno a)) (\<lambda>e. ret (- e))
     else if revents \<noteq> POLLIN then ret (-1)
     else ret (if nfd = 0 then 0 else 1)))"

text \<open>The result comes with the contents of the caller's \<open>events\<close>.\<close>

definition ASensorEventQueue_getEvents ::
    "('w, 'e) android \<Rightarrow> nat \<Rightarrow> nat \<Rightarrow> ('w, int \<times> 'e list) io" where
  "ASensorEventQueue_getEvents a queue count =
     bnd (call (read_events a queue count)) (\<lambda>(actual, events).
     bnd (if actual > 0 then call (sendAck a queue events actual) else ret ()) (\<lambda>_.
     ret (actual, events)))"

section \<open>What the functions guarantee\<close>

lemma call_run' [simp]: "call f w = (Inr (fst (f w)), snd (f w))"
  by (simp add: call_def split: prod.splits)

text \<open>
  What the documentation of \<open>poll (2)\<close> says of one descriptor and a zero timeout: a negative result
  leaves a positive \<open>errno\<close>, the result 0 (nothing happened) leaves \<open>revents\<close> empty.
\<close>

definition poll_doc :: "('w, 'e) android \<Rightarrow> bool" where
  "poll_doc a \<longleftrightarrow> (\<forall>fd ev w nfd revents w'. poll_fd a fd ev 0 w = ((nfd, revents), w') \<longrightarrow>
     (nfd < 0 \<longrightarrow> fst (errno a w') > 0) \<and> (nfd = 0 \<longrightarrow> revents = 0))"

text \<open>
  What the framework documents of event queues: \<open>strong\<close> counts the strong references of a queue,
  \<open>watched\<close> holds the descriptors a looper polls.
\<close>

record queue_view =
  strong :: "nat \<Rightarrow> int"
  watched :: "nat \<Rightarrow> int set"
  looper_of :: "nat \<Rightarrow> nat"

definition queues_doc :: "('w, 'e) android \<Rightarrow> ('w \<Rightarrow> queue_view) \<Rightarrow> (nat \<Rightarrow> int) \<Rightarrow> bool" where
  "queues_doc a view fd_of \<longleftrightarrow>
     (\<forall>m w q w'. createEventQueue a m w = (Some q, w') \<longrightarrow> view w' = (view w)\<lparr>strong := (strong (view w))(q := 1)\<rparr>) \<and>
     (\<forall>q w. view (snd (incStrong a q w)) = (view w)\<lparr>strong := (strong (view w))(q := strong (view w) q + 1)\<rparr>) \<and>
     (\<forall>q w. view (snd (decStrong a q w)) = (view w)\<lparr>strong := (strong (view w))(q := strong (view w) q - 1)\<rparr>) \<and>
     (\<forall>q w. fst (getFd a q w) = fd_of q \<and> view (snd (getFd a q w)) = view w) \<and>
     (\<forall>q w. fst (get_looper a q w) = looper_of (view w) q \<and> view (snd (get_looper a q w)) = view w) \<and>
     (\<forall>q l w. view (snd (set_looper a q l w)) = (view w)\<lparr>looper_of := (looper_of (view w))(q := l)\<rparr>) \<and>
     (\<forall>l fd i e c d w. view (snd (addFd a l fd i e c d w)) =
        (view w)\<lparr>watched := (watched (view w))(l := insert fd (watched (view w) l))\<rparr>) \<and>
     (\<forall>l fd w. view (snd (removeFd a l fd w)) =
        (view w)\<lparr>watched := (watched (view w))(l := watched (view w) l - {fd})\<rparr>)"

text \<open>A framework that works so, with idle queues and a single sensor.\<close>

definition plain_sensor :: Sensor where
  "plain_sensor = \<lparr>getName = [65], getVendor = [66], getType = 1, getResolution = 0, getMinDelay = 0,
     getFifoMaxEventCount = 0, getFifoReservedEventCount = 0, getStringType = [67], getReportingMode = 0,
     isWakeUpSensor = True\<rparr>"

definition plain_android :: "(queue_view, unit) android" where
  "plain_android = \<lparr>
     getInstanceForPackage = (\<lambda>p w. (0, w)),
     getSensorList = (\<lambda>m w. ((1, [plain_sensor]), w)),
     getDefaultSensor = (\<lambda>m t w. (None, w)),
     createEventQueue = (\<lambda>m w. (Some 7, w\<lparr>strong := (strong w)(7 := 1)\<rparr>)),
     getFd = (\<lambda>q w. (int q, w)),
     get_looper = (\<lambda>q w. (looper_of w q, w)),
     set_looper = (\<lambda>q l w. ((), w\<lparr>looper_of := (looper_of w)(q := l)\<rparr>)),
     enableSensor = (\<lambda>q s w. (0, w)),
     disableSensor = (\<lambda>q s w. (0, w)),
     setEventRate = (\<lambda>q s r w. (0, w)),
     read_events = (\<lambda>q n w. ((0, []), w)),
     sendAck = (\<lambda>q e n w. ((), w)),
     poll_fd = (\<lambda>fd e t w. ((0, 0), w)),
     errno = (\<lambda>w. (4, w)),
     incStrong = (\<lambda>q w. ((), w\<lparr>strong := (strong w)(q := strong w q + 1)\<rparr>)),
     decStrong = (\<lambda>q w. ((), w\<lparr>strong := (strong w)(q := strong w q - 1)\<rparr>)),
     getForThread = (\<lambda>w. (None, w)),
     prepare = (\<lambda>n w. (None, w)),
     pollOnce = (\<lambda>l t w. ((0, (0, 0, 0)), w)),
     pollAll = (\<lambda>l t w. ((0, (0, 0, 0)), w)),
     wake = (\<lambda>l w. ((), w)),
     addFd = (\<lambda>l fd i e c d w. (1, w\<lparr>watched := (watched w)(l := insert fd (watched w l))\<rparr>)),
     removeFd = (\<lambda>l fd w. (1, w\<lparr>watched := (watched w)(l := watched w l - {fd})\<rparr>)),
     flushCommands = (\<lambda>w. ((), w))\<rparr>"

definition empty_view :: queue_view where
  "empty_view = \<lparr>strong = \<lambda>_. 0, watched = \<lambda>_. {}, looper_of = \<lambda>_. 0\<rparr>"

text \<open>\<open>ASensorEventQueue_hasEvents\<close> never answers 0: for a queue without events, for which the
  function's last line means to return 0, the test of \<open>revents\<close> before it has already returned the
  error -1. The answer is 1 exactly when input, and nothing else, is reported.\<close>

lemma hasEvents_never_zero:
  assumes "poll_doc a" "getFd a queue w = (fd, w1)" "poll_fd a fd POLLIN 0 w1 = ((nfd, revents), w2)"
  shows "\<exists>r w'. ASensorEventQueue_hasEvents a queue w = (Inr r, w') \<and> r \<noteq> 0 \<and>
    (nfd = 0 \<longrightarrow> r = -1) \<and> (r = 1 \<longleftrightarrow> 0 < nfd \<and> revents = POLLIN)"
proof -
  have doc: "nfd < 0 \<longrightarrow> fst (errno a w2) > 0" "nfd = 0 \<longrightarrow> revents = 0"
    using assms(1,3) unfolding poll_doc_def by blast+
  have ne: "POLLIN \<noteq> 0" by (simp add: POLLIN_def)
  show ?thesis
    using doc ne assms(2,3) by (auto simp: ASensorEventQueue_hasEvents_def)
qed

lemma hasEvents_never_zero_witness:
  "fst (ASensorEventQueue_hasEvents plain_android 7 empty_view) = Inr (-1)"
proof -
  have "poll_doc plain_android" by (simp add: poll_doc_def plain_android_def)
  moreover have "getFd plain_android 7 empty_view = (7, empty_view)"
    "poll_fd plain_android 7 POLLIN 0 empty_view = ((0, 0), empty_view)"
    by (simp_all add: plain_android_def)
  ultimately show ?thesis
    using hasEvents_never_zero [of plain_android 7 empty_view 7 empty_view 0 0 empty_view] by auto
qed

lemma default_sensor_loop_find:
  "n = length l \<Longrightarrow> default_sensor_loop type wakeUp n l =
   Inr (find (\<lambda>s. ASensor_getType s = type \<and> ASensor_isWakeUpSensor s = wakeUp) l)"
  by (induction type wakeUp n l rule: default_sensor_loop.induct) auto

text \<open>On a list of sensors whose announced length is its length the search for a default sensor
  returns the first sensor of the list with the type and the wake-up flag asked for, or NULL if there
  is none.\<close>

lemma getDefaultSensorEx_first:
  assumes "getSensorList a manager w = ((int (length l), l), w')" "length l < 2 ^ 31"
  shows "ASensorManager_getDefaultSensorEx a manager type wakeUp w =
    (Inr (find (\<lambda>s. ASensor_getType s = type \<and> ASensor_isWakeUpSensor s = wakeUp) l), w')"
proof -
  have "unat (of_int (int (length l)) :: u64) = length l"
    using assms(2) by (simp add: unsigned_of_nat take_bit_nat_eq_self)
  then show ?thesis
    using assms(1) by (simp add: ASensorManager_getDefaultSensorEx_def default_sensor_loop_find)
qed

lemma getDefaultSensorEx_first_witness:
  "ASensorManager_getDefaultSensorEx plain_android 0 1 True empty_view = (Inr (Some plain_sensor), empty_view) \<and>
   ASensorManager_getDefaultSensorEx plain_android 0 1 False empty_view = (Inr None, empty_view)"
proof -
  have "getSensorList plain_android 0 empty_view = ((int (length [plain_sensor]), [plain_sensor]), empty_view)"
    by (simp add: plain_android_def)
  from getDefaultSensorEx_first [OF this, of 1 True] getDefaultSensorEx_first [OF this, of 1 False]
  show ?thesis by (simp add: ASensor_getType_def ASensor_isWakeUpSensor_def plain_sensor_def)
qed

text \<open>No delivery period that fits the \<open>int32_t\<close> parameter overflows when it is turned from micro-
  into nanoseconds: the queue gets exactly a thousand times the signed value.\<close>

lemma us2ns_exact: "sint (us2ns (scast (usec :: u32))) = 1000 * sint usec"
proof -
  have b: "- (2 ^ 31) \<le> sint usec" "sint usec < 2 ^ 31"
    using sint_greater_eq [of usec] sint_less [of usec] by simp_all
  have eq: "us2ns (scast usec) = word_of_int (1000 * sint usec)"
    by (simp add: us2ns_def)
  show ?thesis using b by (simp only: eq signed_of_int) (simp add: signed_take_bit_int_eq_self)
qed



end
