(* ===== verification/Seccomp_Filter.thy ===== *)
theory Seccomp_Filter
  imports Bub_Prelude
begin

text \<open>
  The filter programs of \<open>seccomp_bpf.c\<close>: their instructions as the macros of \<open>linux/filter.h\<close> build
  them, and what the documentation of the kernel says they decide. The interpreter of the filters is
  part of the kernel, not of the repository; the definitions of the second and third section are the
  vocabulary of the hypotheses about it, for the three kinds of instructions the tests use.
\<close>

section \<open>Instructions\<close>

record sock_filter =
  insn_code :: u16
  insn_jt :: byte
  insn_jf :: byte
  insn_k :: u32

definition BPF_STMT :: "u16 \<Rightarrow> u32 \<Rightarrow> sock_filter" where
  "BPF_STMT c v = \<lparr>insn_code = c, insn_jt = 0, insn_jf = 0, insn_k = v\<rparr>"

definition BPF_JUMP :: "u16 \<Rightarrow> u32 \<Rightarrow> byte \<Rightarrow> byte \<Rightarrow> sock_filter" where
  "BPF_JUMP c v t f = \<lparr>insn_code = c, insn_jt = t, insn_jf = f, insn_k = v\<rparr>"

text \<open>\<open>BPF_LD|BPF_W|BPF_ABS\<close>, \<open>BPF_JMP|BPF_JEQ|BPF_K\<close> and \<open>BPF_RET|BPF_K\<close>.\<close>

definition BPF_LD_W_ABS :: u16 where "BPF_LD_W_ABS = 0x20"
definition BPF_JMP_JEQ_K :: u16 where "BPF_JMP_JEQ_K = 0x15"
definition BPF_RET_K :: u16 where "BPF_RET_K = 0x06"

definition BPF_MAXINSNS :: nat where "BPF_MAXINSNS = 4096"

definition SECCOMP_RET_KILL :: u32 where "SECCOMP_RET_KILL = 0x00000000"
definition SECCOMP_RET_TRAP :: u32 where "SECCOMP_RET_TRAP = 0x00030000"
definition SECCOMP_RET_ERRNO :: u32 where "SECCOMP_RET_ERRNO = 0x00050000"
definition SECCOMP_RET_TRACE :: u32 where "SECCOMP_RET_TRACE = 0x7ff00000"
definition SECCOMP_RET_ALLOW :: u32 where "SECCOMP_RET_ALLOW = 0x7fff0000"
definition SECCOMP_RET_ACTION :: u32 where "SECCOMP_RET_ACTION = 0x7fff0000"
definition SECCOMP_RET_DATA :: u32 where "SECCOMP_RET_DATA = 0x0000ffff"

text \<open>
  \<open>struct seccomp_data\<close> in memory: \<open>nr\<close> at 0, \<open>arch\<close> at 4, the instruction pointer at 8, and from 16 on
  six arguments of 8 bytes; on a little-endian machine their lower halves come first.
\<close>

definition seccomp_nr :: u32 where "seccomp_nr = 0"
definition syscall_arg :: "nat \<Rightarrow> u32" where "syscall_arg n = 16 + 8 * of_nat n"

text \<open>\<open>struct sock_fprog\<close>: a length and the array of instructions, which may be NULL.\<close>

record sock_fprog =
  fprog_len :: u16
  fprog_filter :: "sock_filter list option"

definition fprog_of :: "sock_filter list \<Rightarrow> sock_fprog" where
  "fprog_of insns = \<lparr>fprog_len = of_nat (length insns), fprog_filter = Some insns\<rparr>"

section \<open>What a filter returns\<close>

text \<open>
  The data of a system call: its number and the six argument registers. A load of another field of
  \<open>seccomp_data\<close> is left unspecified (\<open>None\<close>), like an instruction of another kind.
\<close>

definition load_data :: "u32 \<Rightarrow> u64 list \<Rightarrow> u32 \<Rightarrow> u32 option" where
  "load_data nr regs off =
     (if off = seccomp_nr then Some nr
      else map_option (\<lambda>n. ucast (regs ! n)) (List.find (\<lambda>n. off = syscall_arg n) [0..<6]))"

fun bpf_run :: "u32 \<Rightarrow> u64 list \<Rightarrow> u32 \<Rightarrow> sock_filter list \<Rightarrow> u32 option" where
  "bpf_run nr regs A [] = None"
| "bpf_run nr regs A (i # is) =
     (if insn_code i = BPF_LD_W_ABS then
        (case load_data nr regs (insn_k i) of None \<Rightarrow> None | Some v \<Rightarrow> bpf_run nr regs v is)
      else if insn_code i = BPF_JMP_JEQ_K
      then bpf_run nr regs A (drop (unat (if A = insn_k i then insn_jt i else insn_jf i)) is)
      else if insn_code i = BPF_RET_K then Some (insn_k i)
      else None)"

text \<open>
  The checks at the installation: a program of 1 to 4096 instructions whose loads are aligned and
  inside \<open>seccomp_data\<close>, whose jumps stay inside the program and whose last instruction returns.
\<close>

definition insn_ok :: "nat \<Rightarrow> sock_filter \<Rightarrow> bool" where
  "insn_ok rest i \<longleftrightarrow>
     (if insn_code i = BPF_LD_W_ABS then insn_k i AND 3 = 0 \<and> insn_k i < 64
      else if insn_code i = BPF_JMP_JEQ_K then unat (insn_jt i) < rest \<and> unat (insn_jf i) < rest
      else insn_code i = BPF_RET_K)"

fun insns_ok :: "sock_filter list \<Rightarrow> bool" where
  "insns_ok [] \<longleftrightarrow> False"
| "insns_ok [i] \<longleftrightarrow> insn_code i = BPF_RET_K"
| "insns_ok (i # is) \<longleftrightarrow> insn_ok (length is) i \<and> insns_ok is"

definition bpf_known :: "sock_filter list \<Rightarrow> bool" where
  "bpf_known is \<longleftrightarrow> list_all (\<lambda>i. insn_code i \<in> {BPF_LD_W_ABS, BPF_JMP_JEQ_K, BPF_RET_K}) is"

section \<open>What several filters decide\<close>

text \<open>
  All filters of a process are run, the newest first. The result with the smallest action decides
  (\<open>KILL\<close> before \<open>TRAP\<close>, \<open>ERRNO\<close>, \<open>TRACE\<close> and \<open>ALLOW\<close>), of several the one of the newest filter.
\<close>

fun decide :: "u32 \<Rightarrow> u64 list \<Rightarrow> sock_filter list list \<Rightarrow> u32 option" where
  "decide nr regs [] = Some SECCOMP_RET_ALLOW"
| "decide nr regs (f # fs) =
     (case (bpf_run nr regs 0 f, decide nr regs fs) of
        (Some r, Some s) \<Rightarrow> Some (if s AND SECCOMP_RET_ACTION < r AND SECCOMP_RET_ACTION then s else r)
      | _ \<Rightarrow> None)"

end
