(* ===== verification/Seccomp_Harness.thy ===== *)
theory Seccomp_Harness
  imports Bub_Prelude
begin

text \<open>
  \<open>test_harness.h\<close>, the unit test framework of the seccomp tests: the registration of the tests by
  constructor functions in a linked list, the verdict on a finished test, and the loop over the tests.
  The static test objects are numbers; a pointer to one is a number or NULL.
\<close>

section \<open>Registration\<close>

definition CONSTRUCTOR_ORDER_FORWARD :: int where "CONSTRUCTOR_ORDER_FORWARD = 1"
definition CONSTRUCTOR_ORDER_BACKWARD :: int where "CONSTRUCTOR_ORDER_BACKWARD = -1"

text \<open>The global variables, and the links of the test objects.\<close>

record registry =
  test_list :: "nat option"
  test_count :: u32
  fixture_count :: u32
  constructor_order :: int
  next_of :: "nat \<Rightarrow> nat option"
  prev_of :: "nat \<Rightarrow> nat option"

definition registry0 :: registry where
  "registry0 = \<lparr>test_list = None, test_count = 0, fixture_count = 0, constructor_order = 0,
     next_of = (\<lambda>_. None), prev_of = (\<lambda>_. None)\<rparr>"

definition register_test :: "nat \<Rightarrow> registry \<Rightarrow> fault + registry" where
  "register_test t r =
     (let r = r\<lparr>test_count := test_count r + 1\<rparr> in
      case test_list r of
        None \<Rightarrow> Inr (r\<lparr>test_list := Some t, next_of := (next_of r)(t := None), prev_of := (prev_of r)(t := Some t)\<rparr>)
      | Some h \<Rightarrow>
          if constructor_order r = CONSTRUCTOR_ORDER_FORWARD then
            let r = r\<lparr>next_of := (next_of r)(t := None), prev_of := (prev_of r)(t := prev_of r h)\<rparr> in
            (case prev_of r t of
               None \<Rightarrow> Inl Null_Deref
             | Some p \<Rightarrow>
                 let r = r\<lparr>next_of := (next_of r)(p := Some t)\<rparr> in
                 Inr (r\<lparr>prev_of := (prev_of r)(h := Some t)\<rparr>))
          else
            let r = r\<lparr>next_of := (next_of r)(t := Some h)\<rparr>;
                r = r\<lparr>prev_of := (prev_of r)(h := Some t)\<rparr>;
                r = r\<lparr>prev_of := (prev_of r)(t := Some t)\<rparr> in
            Inr (r\<lparr>test_list := Some t\<rparr>))"

text \<open>
  The constructor functions: one per test, one per \<open>FIXTURE\<close>, and the two that detect the order. The
  one of the header comes before the tests in the text of the program, the one of
  \<open>TEST_HARNESS_MAIN\<close> after them.
\<close>

datatype constructor = Order_First | Register_Fixture | Register_Test nat | Order_Last

fun run_constructor :: "constructor \<Rightarrow> registry \<Rightarrow> fault + registry" where
  "run_constructor Order_First r =
     Inr (if constructor_order r = 0 then r\<lparr>constructor_order := CONSTRUCTOR_ORDER_FORWARD\<rparr> else r)"
| "run_constructor Order_Last r =
     Inr (if constructor_order r = 0 then r\<lparr>constructor_order := CONSTRUCTOR_ORDER_BACKWARD\<rparr> else r)"
| "run_constructor Register_Fixture r = Inr (r\<lparr>fixture_count := fixture_count r + 1\<rparr>)"
| "run_constructor (Register_Test t) r = register_test t r"

fun run_constructors :: "constructor list \<Rightarrow> registry \<Rightarrow> fault + registry" where
  "run_constructors [] r = Inr r"
| "run_constructors (c # cs) r = sbind (run_constructor c r) (run_constructors cs)"

section \<open>A test\<close>

text \<open>What \<open>waitpid\<close> reports of the child: its exit status, the signal that ended it, or neither.\<close>

datatype wait_status = Exited int | Signaled int | Other_Status

definition SIGABRT :: int where "SIGABRT = 6"

text \<open>
  \<open>__run_test\<close>, the parent's part: \<open>None\<close> is a failed \<open>fork\<close>. The exit status of the child is what it
  passed to \<open>_exit\<close>, its own flag \<open>passed\<close>.
\<close>

definition run_verdict :: "int \<Rightarrow> wait_status option \<Rightarrow> int" where
  "run_verdict termsig child =
     (case child of
        None \<Rightarrow> 0
      | Some (Exited status) \<Rightarrow> (if termsig = -1 then status else 0)
      | Some (Signaled s) \<Rightarrow> (if s = SIGABRT then 0 else if s = termsig then 1 else 0)
      | Some Other_Status \<Rightarrow> 1)"

section \<open>The run\<close>

text \<open>
  \<open>test_harness_run\<close>: \<open>run t\<close> is \<open>__run_test\<close> on the test object \<open>t\<close>, with its effect on the world. The
  result is the two counters and the exit status. The list is followed as long as there is a next
  test: a cycle would never end.
\<close>

partial_function (option) harness_loop ::
    "(nat \<Rightarrow> nat option) \<Rightarrow> (nat \<Rightarrow> 'w \<Rightarrow> int \<times> 'w) \<Rightarrow> nat option \<Rightarrow> u32 \<Rightarrow> u32 \<Rightarrow> int \<Rightarrow> 'w \<Rightarrow>
     ((u32 \<times> u32 \<times> int) \<times> 'w) option" where
  "harness_loop nx run t count pass_count status w =
     (case t of
        None \<Rightarrow> Some ((count, pass_count, status), w)
      | Some a \<Rightarrow>
          (case run a w of (passed, w) \<Rightarrow>
             if passed \<noteq> 0 then harness_loop nx run (nx a) (count + 1) (pass_count + 1) status w
             else harness_loop nx run (nx a) (count + 1) pass_count 1 w))"

definition test_harness_run ::
    "(nat \<Rightarrow> 'w \<Rightarrow> int \<times> 'w) \<Rightarrow> registry \<Rightarrow> 'w \<Rightarrow> ((u32 \<times> u32 \<times> int) \<times> 'w) option" where
  "test_harness_run run r = harness_loop (next_of r) run (test_list r) 0 0 0"

section \<open>The list\<close>

text \<open>The objects reached from a pointer.\<close>

fun path :: "(nat \<Rightarrow> nat option) \<Rightarrow> nat option \<Rightarrow> nat list \<Rightarrow> bool" where
  "path nx p [] \<longleftrightarrow> p = None"
| "path nx p (a # as) \<longleftrightarrow> p = Some a \<and> path nx (nx a) as"

lemma path_upd [simp]: "u \<notin> set as \<Longrightarrow> path (nx(u := q)) p as = path nx p as"
  by (induction as arbitrary: p) auto

lemma path_head: "path nx p ts \<Longrightarrow> ts \<noteq> [] \<Longrightarrow> p = Some (hd ts)"
  by (cases ts) auto

lemma path_snoc:
  "path nx p (as @ [a]) \<Longrightarrow> distinct (as @ [a]) \<Longrightarrow> b \<notin> set (as @ [a]) \<Longrightarrow> nx b = None \<Longrightarrow>
   path (nx(a := Some b)) p (as @ [a, b])"
  by (induction as arbitrary: p) auto

text \<open>The registered tests in the order of the list; the head's \<open>prev\<close> is the last of them.\<close>

definition registered :: "registry \<Rightarrow> nat list \<Rightarrow> bool" where
  "registered r ts \<longleftrightarrow> distinct ts \<and> path (next_of r) (test_list r) ts \<and> test_count r = of_nat (length ts) \<and>
     (ts \<noteq> [] \<longrightarrow> constructor_order r = CONSTRUCTOR_ORDER_FORWARD \<longrightarrow> prev_of r (hd ts) = Some (last ts))"

lemma register_test_forward:
  assumes "registered r ts" "t \<notin> set ts" "constructor_order r = CONSTRUCTOR_ORDER_FORWARD"
  shows "\<exists>r'. register_test t r = Inr r' \<and> registered r' (ts @ [t]) \<and> constructor_order r' = constructor_order r \<and>
    fixture_count r' = fixture_count r"
proof (cases ts rule: rev_cases)
  case Nil
  then show ?thesis using assms by (simp add: register_test_def registered_def)
next
  case (snoc us a)
  obtain h where h: "test_list r = Some h" "h = hd ts" using assms(1) path_head snoc by (auto simp: registered_def)
  have p: "prev_of r h = Some a" "t \<noteq> h" "a \<noteq> t" "h \<in> set ts"
    using assms snoc h by (auto simp: registered_def hd_append split: if_splits)
  have "path ((next_of r)(t := None)) (test_list r) (us @ [a])"
    using assms(1,2) snoc by (simp add: registered_def)
  then have "path ((next_of r)(t := None, a := Some t)) (test_list r) (us @ [a, t])"
    using assms(1,2) snoc by (intro path_snoc) (auto simp: registered_def)
  then show ?thesis
    using assms snoc h p by (auto simp: register_test_def registered_def Let_def fun_upd_twist hd_append)
qed

lemma register_test_backward:
  assumes "registered r ts" "t \<notin> set ts" "constructor_order r \<noteq> CONSTRUCTOR_ORDER_FORWARD"
  shows "\<exists>r'. register_test t r = Inr r' \<and> registered r' (t # ts) \<and> constructor_order r' = constructor_order r \<and>
    fixture_count r' = fixture_count r"
  using assms by (cases ts) (auto simp: register_test_def registered_def Let_def)

lemma run_tests_forward:
  "registered r us \<Longrightarrow> constructor_order r = CONSTRUCTOR_ORDER_FORWARD \<Longrightarrow> distinct (us @ ts) \<Longrightarrow>
   \<exists>r'. run_constructors (map Register_Test ts) r = Inr r' \<and> registered r' (us @ ts) \<and>
     constructor_order r' = CONSTRUCTOR_ORDER_FORWARD \<and> fixture_count r' = fixture_count r"
proof (induction ts arbitrary: r us)
  case (Cons t ts)
  obtain r1 where r1: "register_test t r = Inr r1" "registered r1 (us @ [t])"
    "constructor_order r1 = CONSTRUCTOR_ORDER_FORWARD" "fixture_count r1 = fixture_count r"
    using register_test_forward [OF Cons.prems(1) _ Cons.prems(2)] Cons.prems(2,3) by auto
  from Cons.IH [OF r1(2,3)] Cons.prems(3) r1(1,4) show ?case by auto
qed auto

lemma run_tests_backward:
  "registered r us \<Longrightarrow> constructor_order r = CONSTRUCTOR_ORDER_BACKWARD \<Longrightarrow> distinct (rev ts @ us) \<Longrightarrow>
   \<exists>r'. run_constructors (map Register_Test ts) r = Inr r' \<and> registered r' (rev ts @ us) \<and>
     constructor_order r' = CONSTRUCTOR_ORDER_BACKWARD \<and> fixture_count r' = fixture_count r"
proof (induction ts arbitrary: r us)
  case (Cons t ts)
  have "constructor_order r \<noteq> CONSTRUCTOR_ORDER_FORWARD"
    using Cons.prems(2) by (simp add: CONSTRUCTOR_ORDER_FORWARD_def CONSTRUCTOR_ORDER_BACKWARD_def)
  then obtain r1 where r1: "register_test t r = Inr r1" "registered r1 (t # us)"
    "constructor_order r1 = CONSTRUCTOR_ORDER_BACKWARD" "fixture_count r1 = fixture_count r"
    using register_test_backward [OF Cons.prems(1), of t] Cons.prems(2,3) by auto
  from Cons.IH [OF r1(2,3)] Cons.prems(3) r1(1,4) show ?case by auto
qed auto

lemma run_constructors_append:
  "run_constructors (xs @ ys) r = sbind (run_constructors xs r) (run_constructors ys)"
  by (induction xs arbitrary: r) (auto simp: sbind_def split: sum.splits)

text \<open>The constructors of a program with the tests \<open>ts\<close>, in the order of its text.\<close>

definition program_constructors :: "nat list \<Rightarrow> constructor list" where
  "program_constructors ts = Order_First # map Register_Test ts @ [Order_Last]"

lemma constructors_run:
  assumes "distinct ts" "cs = program_constructors ts \<or> cs = rev (program_constructors ts)"
  shows "\<exists>r. run_constructors cs registry0 = Inr r \<and> registered r ts \<and> fixture_count r = 0"
  using assms(2)
proof
  assume cs: "cs = program_constructors ts"
  let ?r = "registry0\<lparr>constructor_order := CONSTRUCTOR_ORDER_FORWARD\<rparr>"
  have "registered ?r []" by (simp add: registered_def registry0_def)
  from run_tests_forward [OF this, of ts] assms(1)
  obtain r where "run_constructors (map Register_Test ts) ?r = Inr r" "registered r ts" "fixture_count r = 0"
    "constructor_order r = CONSTRUCTOR_ORDER_FORWARD"
    by (auto simp: registry0_def)
  then show ?thesis
    unfolding cs program_constructors_def
    by (simp add: run_constructors_append) (simp add: registry0_def CONSTRUCTOR_ORDER_FORWARD_def)
next
  assume cs: "cs = rev (program_constructors ts)"
  let ?r = "registry0\<lparr>constructor_order := CONSTRUCTOR_ORDER_BACKWARD\<rparr>"
  have "registered ?r []" by (simp add: registered_def registry0_def)
  from run_tests_backward [OF this, of "rev ts"] assms(1)
  obtain r where "run_constructors (map Register_Test (rev ts)) ?r = Inr r" "registered r ts" "fixture_count r = 0"
    "constructor_order r = CONSTRUCTOR_ORDER_BACKWARD"
    by (auto simp: registry0_def)
  then show ?thesis
    unfolding cs program_constructors_def
    by (simp add: run_constructors_append rev_map) (simp add: registry0_def CONSTRUCTOR_ORDER_BACKWARD_def)
qed

section \<open>The loop\<close>

text \<open>The tests one after the other: their verdicts and the world after them.\<close>

fun run_all :: "(nat \<Rightarrow> 'w \<Rightarrow> int \<times> 'w) \<Rightarrow> nat list \<Rightarrow> 'w \<Rightarrow> int list \<times> 'w" where
  "run_all run [] w = ([], w)"
| "run_all run (t # ts) w = (let (v, w) = run t w; (vs, w) = run_all run ts w in (v # vs, w))"

lemma harness_loop_run:
  "path nx p ts \<Longrightarrow> run_all run ts w = (vs, w') \<Longrightarrow>
   harness_loop nx run p c n s w =
     Some ((c + of_nat (length ts), n + of_nat (length (filter (\<lambda>v. v \<noteq> 0) vs)), if 0 \<in> set vs then 1 else s), w')"
proof (induction ts arbitrary: p c n s w vs)
  case Nil
  then show ?case by (simp add: harness_loop.simps)
next
  case (Cons t ts)
  obtain v w1 us where r: "run t w = (v, w1)" "run_all run ts w1 = (us, w')" "vs = v # us"
    using Cons.prems(2) by (auto split: prod.splits)
  show ?case
    using Cons.prems(1) Cons.IH [OF _ r(2)] r by (subst harness_loop.simps) (auto simp: algebra_simps)
qed

text \<open>C25: the framework runs every test once, in the order of the program text, on a tool chain that runs
  constructors first to last and on one that runs them last to first alike. The loop over the linked
  list the constructors have built ends; it counts the tests and the passed ones, and the exit status
  is 0 exactly when all have passed.\<close>

theorem harness_runs_in_order:
  assumes "distinct ts" "cs = program_constructors ts \<or> cs = rev (program_constructors ts)"
    and "run_all run ts w = (vs, w')"
  shows "\<exists>r. run_constructors cs registry0 = Inr r \<and>
    test_harness_run run r w = Some ((of_nat (length ts), of_nat (length (filter (\<lambda>v. v \<noteq> 0) vs)),
      if \<forall>v\<in>set vs. v \<noteq> 0 then 0 else 1), w')"
proof -
  obtain r where r: "run_constructors cs registry0 = Inr r" "registered r ts"
    using constructors_run [OF assms(1,2)] by blast
  have "path (next_of r) (test_list r) ts" using r(2) by (simp add: registered_def)
  from harness_loop_run [OF this assms(3)] r(1) show ?thesis
    by (auto simp: test_harness_run_def)
qed

theorem harness_runs_in_order_witness:
  "\<exists>r. run_constructors (rev (program_constructors [5, 3, 8])) registry0 = Inr r \<and>
    test_harness_run (\<lambda>t tr. (if t = 3 then 0 else 1, tr @ [t])) r [] = Some ((3, 2, 1), [5, 3, 8])"
  using harness_runs_in_order [of "[5, 3, 8]" "rev (program_constructors [5, 3, 8])"
      "\<lambda>t tr. (if t = 3 then 0 else 1, tr @ [t])" "[]" "[1, 0, 1]" "[5, 3, 8]"]
  by simp

end
