(* ===== verification/Seccomp_Process.thy ===== *)
theory Seccomp_Process
  imports Seccomp_Filter Seccomp_Harness
begin

text \<open>
  The process of a seccomp test: what it keeps, the macros of \<open>test_harness.h\<close> it is written with and
  the calls it makes. The kernel and the C library are parameters; the last sections say what their
  documentation promises of them, and how a test is run against the promise instead of the kernel.
\<close>

section \<open>The kernel and the C library\<close>

datatype sysno =
    NR_read | NR_getpid | NR_getppid | NR_geteuid | NR_gettid | NR_prctl | NR_seccomp | NR_exit | NR_exit_group

text \<open>How a process ends, and what a system call does: return a value, fail, end the process, or run the
  handler of a signal first.\<close>

datatype ending = Exit_Status int | Term_Signal int

record siginfo =
  si_signo :: int
  si_call_addr :: u64
  si_syscall :: u32
  si_arch :: u32

datatype sysret = Ret int | Err int | Died ending | Handled siginfo int

text \<open>An argument is a number or the address of a filter program in the memory of the process.\<close>

datatype sysarg = Arg u64 | Fprog sock_fprog

datatype disposition = SIG_DFL | SIG_IGN | TRAP_handler

text \<open>
  \<open>arg_regs\<close> are the six argument registers at a system call: where the call passes fewer arguments
  the rest holds whatever was there. \<open>libc_sigaction\<close> stands for \<open>signal\<close> and \<open>sigaction\<close> alike.
\<close>

record 'k linux =
  NR :: "sysno \<Rightarrow> u32"
  arg_regs :: "sysarg list \<Rightarrow> 'k \<Rightarrow> u64 list"
  syscall :: "sysno \<Rightarrow> sysarg list \<Rightarrow> 'k \<Rightarrow> sysret \<times> 'k"
  libc_malloc :: "'k \<Rightarrow> bool \<times> 'k"
  libc_free :: "'k \<Rightarrow> 'k"
  libc_getpid :: "'k \<Rightarrow> int \<times> 'k"
  libc_sigaction :: "int \<Rightarrow> disposition \<Rightarrow> 'k \<Rightarrow> int \<times> 'k"
  libc_unblock :: "int \<Rightarrow> 'k \<Rightarrow> int \<times> 'k"
  libc_fprintf :: "'k \<Rightarrow> ending option \<times> 'k"
  libc_abort :: "'k \<Rightarrow> ending \<times> 'k"
  fork_child :: "'k \<Rightarrow> 'k option"

section \<open>The process\<close>

text \<open>
  The test's metadata that matter to its run, \<open>errno\<close>, the two variables \<open>TRAP_action\<close> writes, and the
  state of the kernel.
\<close>

record 'k tproc =
  passed :: int
  trigger :: int
  errno :: int
  TRAP_info :: siginfo
  TRAP_nr :: int
  kern :: 'k

type_synonym ('k, 'a) tprog = "('k tproc, ending, 'a) prog"
type_synonym 'k test = "('k, unit) tprog"

definition errno_of :: "('k, int) tprog" where
  "errno_of = (\<lambda>p. (Inr (errno p), p))"

definition passed_of :: "('k, int) tprog" where
  "passed_of = (\<lambda>p. (Inr (passed p), p))"

definition set_errno :: "int \<Rightarrow> 'k test" where
  "set_errno e = (\<lambda>p. (Inr (), p\<lparr>errno := e\<rparr>))"

text \<open>\<open>TRAP_action\<close>.\<close>

definition TRAP_action :: "siginfo \<Rightarrow> 'k tproc \<Rightarrow> 'k tproc" where
  "TRAP_action info p = p\<lparr>TRAP_info := info, TRAP_nr := si_signo info\<rparr>"

text \<open>
  A system call through the C library: a failure is the result -1 with the reason in \<open>errno\<close>. A handler
  that runs before the call returns is \<open>TRAP_action\<close>, the only one the tests install.
\<close>

definition sys :: "'k linux \<Rightarrow> sysno \<Rightarrow> sysarg list \<Rightarrow> ('k, int) tprog" where
  "sys lx n args = (\<lambda>p. case syscall lx n args (kern p) of (r, s) \<Rightarrow>
     (case r of
        Ret v \<Rightarrow> (Inr v, p\<lparr>kern := s\<rparr>)
      | Err e \<Rightarrow> (Inr (-1), p\<lparr>errno := e, kern := s\<rparr>)
      | Died d \<Rightarrow> (Inl d, p\<lparr>kern := s\<rparr>)
      | Handled info v \<Rightarrow> (Inr v, TRAP_action info p\<lparr>kern := s\<rparr>)))"

text \<open>A call of the C library that always returns.\<close>

definition libc :: "('k \<Rightarrow> 'a \<times> 'k) \<Rightarrow> ('k, 'a) tprog" where
  "libc f = (\<lambda>p. case f (kern p) of (x, s) \<Rightarrow> (Inr x, p\<lparr>kern := s\<rparr>))"

section \<open>The macros of the framework\<close>

text \<open>\<open>TH_LOG\<close>: a line on the standard error.\<close>

definition TH_LOG :: "'k linux \<Rightarrow> 'k test" where
  "TH_LOG lx = (\<lambda>p. case libc_fprintf lx (kern p) of
     (None, s) \<Rightarrow> (Inr (), p\<lparr>kern := s\<rparr>) | (Some d, s) \<Rightarrow> (Inl d, p\<lparr>kern := s\<rparr>))"

definition abort_call :: "'k linux \<Rightarrow> 'k test" where
  "abort_call lx = (\<lambda>p. case libc_abort lx (kern p) of (d, s) \<Rightarrow> (Inl d, p\<lparr>kern := s\<rparr>))"

text \<open>
  \<open>__EXPECT\<close> with the block behind it. A comparison that does not hold is logged and noted, and arms
  \<open>trigger\<close>; then the block runs, and an \<open>ASSERT\<close> aborts while an \<open>EXPECT\<close> disarms it.
\<close>

definition expect :: "'k linux \<Rightarrow> bool \<Rightarrow> bool \<Rightarrow> 'k test \<Rightarrow> 'k test" where
  "expect lx assert ok block =
     bnd (if ok then ret ()
          else bnd (TH_LOG lx) (\<lambda>_. \<lambda>p. (Inr (), p\<lparr>passed := 0, trigger := 1\<rparr>))) (\<lambda>_.
     bnd (\<lambda>p. (Inr (trigger p), p)) (\<lambda>armed.
     if armed = 0 then ret ()
     else bnd block (\<lambda>_. if assert then abort_call lx else (\<lambda>p. (Inr (), p\<lparr>trigger := 0\<rparr>)))))"

definition EXPECT :: "'k linux \<Rightarrow> bool \<Rightarrow> 'k test" where
  "EXPECT lx ok = expect lx False ok (ret ())"

definition ASSERT :: "'k linux \<Rightarrow> bool \<Rightarrow> 'k test" where
  "ASSERT lx ok = expect lx True ok (ret ())"

text \<open>The same with a block \<open>{ TH_LOG (...); }\<close>.\<close>

definition EXPECT_LOG :: "'k linux \<Rightarrow> bool \<Rightarrow> 'k test" where
  "EXPECT_LOG lx ok = expect lx False ok (TH_LOG lx)"

definition ASSERT_LOG :: "'k linux \<Rightarrow> bool \<Rightarrow> 'k test" where
  "ASSERT_LOG lx ok = expect lx True ok (TH_LOG lx)"

text \<open>
  \<open>__TEST_F_IMPL\<close>: the fixture is set up, a failed setup ends the test, and the fixture is torn down
  after the test.
\<close>

definition with_fixture :: "('k, 'f) tprog \<Rightarrow> ('f \<Rightarrow> 'k test) \<Rightarrow> ('f \<Rightarrow> 'k test) \<Rightarrow> 'k test" where
  "with_fixture setup teardown body =
     bnd setup (\<lambda>self.
     bnd passed_of (\<lambda>ok.
     if ok = 0 then ret () else bnd (body self) (\<lambda>_. teardown self)))"

text \<open>
  \<open>__run_test\<close>: the child runs the test and passes its flag to \<open>_exit\<close>, which is a system call like any
  other. A child that survives even that never ends.
\<close>

definition child :: "'k linux \<Rightarrow> 'k test \<Rightarrow> ('k, int) tprog" where
  "child lx body =
     bnd (\<lambda>p. (Inr (), p\<lparr>passed := 1, trigger := 0\<rparr>)) (\<lambda>_.
     bnd body (\<lambda>_.
     bnd passed_of (\<lambda>code.
     sys lx NR_exit_group [Arg (of_int code)])))"

definition status_of :: "ending + 'a \<Rightarrow> wait_status" where
  "status_of r = (case r of Inl (Exit_Status c) \<Rightarrow> Exited (c mod 256) | Inl (Term_Signal s) \<Rightarrow> Signaled s
     | Inr _ \<Rightarrow> Other_Status)"

definition start :: "'k \<Rightarrow> 'k tproc" where
  "start s = \<lparr>passed = 0, trigger = 0, errno = 0,
     TRAP_info = \<lparr>si_signo = 0, si_call_addr = 0, si_syscall = 0, si_arch = 0\<rparr>, TRAP_nr = 0, kern = s\<rparr>"

definition run_test :: "'k linux \<Rightarrow> int \<Rightarrow> 'k test \<Rightarrow> 'k \<Rightarrow> int" where
  "run_test lx termsig body s =
     run_verdict termsig (map_option (\<lambda>s. status_of (fst (child lx body (start s)))) (fork_child lx s))"

section \<open>Numbers\<close>

definition EINVAL :: int where "EINVAL = 22"
definition EFAULT :: int where "EFAULT = 14"
definition EACCES :: int where "EACCES = 13"
definition ENOMEM :: int where "ENOMEM = 12"
definition ENOSYS :: int where "ENOSYS = 38"
definition E2BIG :: int where "E2BIG = 7"
definition SIGKILL :: int where "SIGKILL = 9"
definition SIGSYS :: int where "SIGSYS = 31"
definition PR_GET_SECCOMP :: u64 where "PR_GET_SECCOMP = 21"
definition PR_SET_SECCOMP :: u64 where "PR_SET_SECCOMP = 22"
definition PR_SET_NO_NEW_PRIVS :: u64 where "PR_SET_NO_NEW_PRIVS = 38"
definition PR_GET_NO_NEW_PRIVS :: u64 where "PR_GET_NO_NEW_PRIVS = 39"
definition SECCOMP_MODE_STRICT :: u64 where "SECCOMP_MODE_STRICT = 1"
definition SECCOMP_MODE_FILTER :: u64 where "SECCOMP_MODE_FILTER = 2"
definition SECCOMP_SET_MODE_STRICT :: u64 where "SECCOMP_SET_MODE_STRICT = 0"
definition SECCOMP_SET_MODE_FILTER :: u64 where "SECCOMP_SET_MODE_FILTER = 1"
definition SECCOMP_FLAG_FILTER_TSYNC :: u64 where "SECCOMP_FLAG_FILTER_TSYNC = 1"

lemmas linux_numbers = EINVAL_def EFAULT_def EACCES_def ENOMEM_def ENOSYS_def E2BIG_def SIGKILL_def SIGSYS_def
  PR_GET_SECCOMP_def PR_SET_SECCOMP_def PR_SET_NO_NEW_PRIVS_def PR_GET_NO_NEW_PRIVS_def SECCOMP_MODE_STRICT_def
  SECCOMP_MODE_FILTER_def SECCOMP_SET_MODE_STRICT_def SECCOMP_SET_MODE_FILTER_def SECCOMP_FLAG_FILTER_TSYNC_def

end
