(* ===== verification/Seccomp_Doc.thy ===== *)
theory Seccomp_Doc
  imports Seccomp_Process
begin

text \<open>
  What the documentation of Linux (\<open>prctl(2)\<close>, \<open>seccomp(2)\<close>, \<open>Documentation/prctl/seccomp_filter.txt\<close>)
  says about the system calls of the tests, as a hypothesis about an arbitrary kernel, and rules to run
  a test against it.
\<close>

section \<open>The documented behaviour\<close>

text \<open>What a process is in the view of the documentation. \<open>trap_addr\<close>, \<open>trap_arch\<close> and \<open>trap_value\<close> belong to
  the platform: what a handler of \<open>SIGSYS\<close> is told, and what the trapped call returns after it.\<close>

record sk =
  nnp :: bool
  strict :: bool
  filters :: "sock_filter list list"
  admin :: bool
  sigsys :: disposition
  the_pid :: int
  the_ppid :: int
  the_euid :: int
  trap_addr :: u64
  trap_arch :: u32
  trap_value :: int

text \<open>
  The installation of a filter: \<open>None\<close> where the model leaves the outcome open. A process needs
  \<open>no_new_privs\<close> or a privilege for it, and the filters of a process, with a penalty of four
  instructions each, may have 32768 instructions.
\<close>

definition doc_install :: "sysarg \<Rightarrow> sk \<Rightarrow> (sysret \<times> sk) option" where
  "doc_install arg s =
     (case arg of
        Arg a \<Rightarrow> if a = 0 then Some (Err EFAULT, s) else None
      | Fprog f \<Rightarrow>
          let n = unat (fprog_len f) in
          if n = 0 \<or> BPF_MAXINSNS < n then Some (Err EINVAL, s)
          else if \<not> nnp s \<and> \<not> admin s then Some (Err EACCES, s)
          else (case fprog_filter f of
              None \<Rightarrow> Some (Err EFAULT, s)
            | Some is \<Rightarrow>
                if length is < n \<or> \<not> bpf_known (take n is) then None
                else if \<not> insns_ok (take n is) then Some (Err EINVAL, s)
                else if 32768 < n + (\<Sum>f\<leftarrow>filters s. length f + 4) then Some (Err ENOMEM, s)
                else Some (Ret 0, s\<lparr>filters := take n is # filters s\<rparr>)))"

definition doc_strict :: "sk \<Rightarrow> (sysret \<times> sk) option" where
  "doc_strict s = (if filters s \<noteq> [] then Some (Err EINVAL, s) else Some (Ret 0, s\<lparr>strict := True\<rparr>))"

text \<open>\<open>prctl\<close>, with the number of arguments the tests give it.\<close>

definition doc_prctl :: "sysarg list \<Rightarrow> sk \<Rightarrow> (sysret \<times> sk) option" where
  "doc_prctl args s =
     (if args = [Arg PR_SET_NO_NEW_PRIVS, Arg 1, Arg 0, Arg 0, Arg 0] then Some (Ret 0, s\<lparr>nnp := True\<rparr>)
      else if args = [Arg PR_GET_NO_NEW_PRIVS, Arg 0, Arg 0, Arg 0, Arg 0]
      then Some (Ret (if nnp s then 1 else 0), s)
      else if take 1 args = [Arg PR_GET_SECCOMP] then Some (Ret (if filters s = [] then 0 else 2), s)
      else if take 2 args = [Arg PR_SET_SECCOMP, Arg SECCOMP_MODE_STRICT] then doc_strict s
      else if take 2 args = [Arg PR_SET_SECCOMP, Arg SECCOMP_MODE_FILTER] \<and> 2 < length args
      then doc_install (args ! 2) s
      else None)"

text \<open>\<open>seccomp\<close>; a single thread has nobody to synchronise its filters with.\<close>

definition doc_seccomp :: "sysarg list \<Rightarrow> sk \<Rightarrow> (sysret \<times> sk) option" where
  "doc_seccomp args s =
     (case args of
        [Arg op, Arg flags, arg] \<Rightarrow>
          if op = SECCOMP_SET_MODE_STRICT
          then (if flags \<noteq> 0 \<or> arg \<noteq> Arg 0 then Some (Err EINVAL, s) else doc_strict s)
          else if op = SECCOMP_SET_MODE_FILTER
          then (if flags \<noteq> 0 \<and> flags \<noteq> SECCOMP_FLAG_FILTER_TSYNC then Some (Err EINVAL, s) else doc_install arg s)
          else Some (Err EINVAL, s)
      | _ \<Rightarrow> None)"

definition doc_plain :: "sysno \<Rightarrow> sysarg list \<Rightarrow> sk \<Rightarrow> (sysret \<times> sk) option" where
  "doc_plain n args s =
     (case n of
        NR_getpid \<Rightarrow> Some (Ret (the_pid s), s)
      | NR_getppid \<Rightarrow> Some (Ret (the_ppid s), s)
      | NR_geteuid \<Rightarrow> Some (Ret (the_euid s), s)
      | NR_exit \<Rightarrow> (case args of [Arg c] \<Rightarrow> Some (Died (Exit_Status (uint c)), s) | _ \<Rightarrow> None)
      | NR_exit_group \<Rightarrow> (case args of [Arg c] \<Rightarrow> Some (Died (Exit_Status (uint c)), s) | _ \<Rightarrow> None)
      | NR_prctl \<Rightarrow> doc_prctl args s
      | NR_seccomp \<Rightarrow> doc_seccomp args s
      | _ \<Rightarrow> None)"

text \<open>
  A system call: strict mode knows four calls and kills for any other; otherwise the filters decide.
  \<open>nr\<close> are the numbers of the calls, \<open>regs\<close> the argument registers. Without a tracer a traced call
  fails, and an error number is at most 4095.
\<close>

definition doc_call :: "(sysno \<Rightarrow> u32) \<Rightarrow> sysno \<Rightarrow> sysarg list \<Rightarrow> u64 list \<Rightarrow> sk \<Rightarrow> (sysret \<times> sk) option" where
  "doc_call nr n args regs s =
     (if strict s then (if n \<in> {NR_read, NR_exit} then doc_plain n args s else Some (Died (Term_Signal SIGKILL), s))
      else
        case decide (nr n) regs (filters s) of
          None \<Rightarrow> None
        | Some r \<Rightarrow>
            let action = r AND SECCOMP_RET_ACTION; dat = min (uint (r AND SECCOMP_RET_DATA)) 4095 in
            if action = SECCOMP_RET_ALLOW then doc_plain n args s
            else if action = SECCOMP_RET_ERRNO then Some (if dat = 0 then Ret 0 else Err dat, s)
            else if action = SECCOMP_RET_TRACE then Some (Err ENOSYS, s)
            else if action = SECCOMP_RET_TRAP \<and> sigsys s = TRAP_handler
            then Some (Handled \<lparr>si_signo = SIGSYS, si_call_addr = trap_addr s, si_syscall = nr n,
              si_arch = trap_arch s\<rparr> (trap_value s), s)
            else Some (Died (Term_Signal SIGSYS), s))"

text \<open>
  The registers hold the numbers that were passed; what an argument that was not passed leaves in its
  register is not the magic number of the tests.
\<close>

definition regs_ok :: "sysarg list \<Rightarrow> u64 list \<Rightarrow> bool" where
  "regs_ok args regs \<longleftrightarrow> length regs = 6 \<and>
     (\<forall>i<6. (\<forall>v. i < length args \<longrightarrow> args ! i = Arg v \<longrightarrow> regs ! i = v) \<and>
       (length args \<le> i \<longrightarrow> ucast (regs ! i) \<noteq> (0x0C0FFEE :: u32)))"

definition seccomp_doc :: "'k linux \<Rightarrow> ('k \<Rightarrow> sk) \<Rightarrow> bool" where
  "seccomp_doc lx absk \<longleftrightarrow>
     inj (NR lx) \<and>
     (\<forall>args s. regs_ok args (arg_regs lx args s)) \<and>
     (\<forall>n args s r t. doc_call (NR lx) n args (arg_regs lx args s) (absk s) = Some (r, t) \<longrightarrow>
        fst (syscall lx n args s) = r \<and> absk (snd (syscall lx n args s)) = t) \<and>
     (\<forall>s. fst (libc_malloc lx s) \<and> absk (snd (libc_malloc lx s)) = absk s) \<and>
     (\<forall>s. absk (libc_free lx s) = absk s) \<and>
     (\<forall>s. fst (libc_getpid lx s) = the_pid (absk s) \<and> absk (snd (libc_getpid lx s)) = absk s) \<and>
     (\<forall>d s. fst (libc_sigaction lx SIGSYS d s) = 0 \<and>
        absk (snd (libc_sigaction lx SIGSYS d s)) = (absk s)\<lparr>sigsys := d\<rparr>) \<and>
     (\<forall>g s. fst (libc_unblock lx g s) = 0 \<and> absk (snd (libc_unblock lx g s)) = absk s)"

text \<open>
  A process as the harness starts its tests in: without a filter, with the default action for \<open>SIGSYS\<close>,
  and with the privilege to install filters exactly when its user is root, which the tests rely on. Its
  children are like it.
\<close>

definition fresh :: "sk \<Rightarrow> bool" where
  "fresh s \<longleftrightarrow> \<not> nnp s \<and> \<not> strict s \<and> filters s = [] \<and> (admin s \<longleftrightarrow> the_euid s = 0) \<and> sigsys s = SIG_DFL \<and>
     trap_addr s \<noteq> 0 \<and> trap_arch s \<noteq> 0"

definition forks_fresh :: "'k linux \<Rightarrow> ('k \<Rightarrow> sk) \<Rightarrow> 'k \<Rightarrow> bool" where
  "forks_fresh lx absk s \<longleftrightarrow> (\<exists>c. fork_child lx s = Some c \<and> fresh (absk c))"

section \<open>Running a test against the documentation\<close>

text \<open>A process in that view, and what holds of every run of a statement from it.\<close>

definition view :: "('k \<Rightarrow> sk) \<Rightarrow> 'k tproc \<Rightarrow> sk tproc" where
  "view absk p = \<lparr>passed = passed p, trigger = trigger p, errno = errno p, TRAP_info = TRAP_info p,
     TRAP_nr = TRAP_nr p, kern = absk (kern p)\<rparr>"

definition runs :: "('k \<Rightarrow> sk) \<Rightarrow> ('k, 'a) tprog \<Rightarrow> (ending + 'a \<Rightarrow> sk tproc \<Rightarrow> bool) \<Rightarrow> sk tproc \<Rightarrow> bool" where
  "runs absk m Q a \<longleftrightarrow> (\<forall>p. view absk p = a \<longrightarrow> Q (fst (m p)) (view absk (snd (m p))))"

named_theorems runs_rules

lemma runsI: "(\<And>p. view absk p = a \<Longrightarrow> Q (fst (m p)) (view absk (snd (m p)))) \<Longrightarrow> runs absk m Q a"
  by (simp add: runs_def)

lemma runs_mono: "runs absk m Q a \<Longrightarrow> (\<And>r b. Q r b \<Longrightarrow> P r b) \<Longrightarrow> runs absk m P a"
  by (simp add: runs_def)

lemma runs_ret: "Q (Inr x) a \<Longrightarrow> runs absk (ret x) Q a"
  by (simp add: runs_def)

lemma runs_bnd:
  assumes "runs absk m (\<lambda>r b. case r of Inl e \<Rightarrow> Q (Inl e) b | Inr x \<Rightarrow> runs absk (f x) Q b) a"
  shows "runs absk (bnd m f) Q a"
proof -
  have "Q (fst (bnd m f p)) (view absk (snd (bnd m f p)))" if "view absk p = a" for p
    using assms [unfolded runs_def, rule_format, OF that]
    by (cases "m p"; cases "fst (m p)") (auto simp: runs_def bnd_def)
  then show ?thesis by (simp add: runs_def)
qed

text \<open>What the process sees of the outcome of a system call.\<close>

definition sys_value :: "sysret \<Rightarrow> ending + int" where
  "sys_value r = (case r of Ret v \<Rightarrow> Inr v | Err e \<Rightarrow> Inr (-1) | Died d \<Rightarrow> Inl d | Handled info v \<Rightarrow> Inr v)"

definition sys_state :: "sysret \<Rightarrow> sk \<Rightarrow> sk tproc \<Rightarrow> sk tproc" where
  "sys_state r t a = (case r of Ret v \<Rightarrow> a\<lparr>kern := t\<rparr> | Err e \<Rightarrow> a\<lparr>errno := e, kern := t\<rparr> | Died d \<Rightarrow> a\<lparr>kern := t\<rparr>
     | Handled info v \<Rightarrow> TRAP_action info a\<lparr>kern := t\<rparr>)"

lemma runs_sys:
  assumes doc: "seccomp_doc lx absk"
    and Q: "\<And>regs. regs_ok args regs \<Longrightarrow>
      (case doc_call (NR lx) n args regs (kern a) of None \<Rightarrow> False | Some (r, t) \<Rightarrow> Q (sys_value r) (sys_state r t a))"
  shows "runs absk (sys lx n args) Q a"
proof -
  have "Q (fst (sys lx n args p)) (view absk (snd (sys lx n args p)))" if p: "view absk p = a" for p
  proof -
    let ?regs = "arg_regs lx args (kern p)"
    have k: "kern a = absk (kern p)" using p by (auto simp: view_def)
    have "regs_ok args ?regs" using doc by (simp add: seccomp_doc_def)
    from Q [OF this] obtain r t where c: "doc_call (NR lx) n args ?regs (absk (kern p)) = Some (r, t)"
      and q: "Q (sys_value r) (sys_state r t a)"
      unfolding k by (auto split: option.splits)
    have "fst (syscall lx n args (kern p)) = r" "absk (snd (syscall lx n args (kern p))) = t"
      using doc c by (simp_all add: seccomp_doc_def)
    then show ?thesis
      using q p by (cases "syscall lx n args (kern p)"; cases r)
        (auto simp: sys_def sys_value_def sys_state_def view_def TRAP_action_def)
  qed
  then show ?thesis by (simp add: runs_def)
qed

lemma runs_bnd_sys [runs_rules]:
  assumes "seccomp_doc lx absk"
    and "\<And>regs. regs_ok args regs \<Longrightarrow>
      (case doc_call (NR lx) n args regs (kern a) of None \<Rightarrow> False
       | Some (r, t) \<Rightarrow> (case sys_value r of Inl e \<Rightarrow> Q (Inl e) (sys_state r t a)
           | Inr x \<Rightarrow> runs absk (f x) Q (sys_state r t a)))"
  shows "runs absk (bnd (sys lx n args) f) Q a"
  using assms by (intro runs_bnd runs_sys)

lemma runs_bnd_libc:
  assumes "\<And>s. absk s = kern a \<Longrightarrow> absk (snd (g s)) = t \<and> runs absk (f (fst (g s))) Q (a\<lparr>kern := t\<rparr>)"
  shows "runs absk (bnd (libc g) f) Q a"
proof (rule runs_bnd, rule runsI)
  fix p assume p: "view absk p = a"
  then have "absk (kern p) = kern a" by (auto simp: view_def)
  from assms [OF this] p
  show "case fst (libc g p) of Inl e \<Rightarrow> Q (Inl e) (view absk (snd (libc g p)))
      | Inr x \<Rightarrow> runs absk (f x) Q (view absk (snd (libc g p)))"
    by (cases "g (kern p)") (auto simp: libc_def view_def)
qed

lemma expect_ok: "trigger p = 0 \<Longrightarrow> expect lx b True block p = (Inr (), p)"
  by (simp add: expect_def)

lemma runs_bnd_expect:
  assumes "ok" "trigger a = 0" "runs absk (f ()) Q a"
  shows "runs absk (bnd (expect lx b ok block) f) Q a"
proof (rule runs_bnd, rule runsI)
  fix p assume p: "view absk p = a"
  then have "trigger p = 0" using assms(2) by (auto simp: view_def)
  with assms(1,3) p show "case fst (expect lx b ok block p) of Inl e \<Rightarrow> Q (Inl e) (view absk (snd (expect lx b ok block p)))
      | Inr x \<Rightarrow> runs absk (f x) Q (view absk (snd (expect lx b ok block p)))"
    by (simp add: expect_ok)
qed

lemma runs_bnd_checks [runs_rules]:
  assumes "ok" "trigger a = 0" "runs absk (f ()) Q a"
  shows "runs absk (bnd (EXPECT lx ok) f) Q a" "runs absk (bnd (ASSERT lx ok) f) Q a"
    "runs absk (bnd (EXPECT_LOG lx ok) f) Q a" "runs absk (bnd (ASSERT_LOG lx ok) f) Q a"
  using assms by (simp_all add: EXPECT_def ASSERT_def EXPECT_LOG_def ASSERT_LOG_def runs_bnd_expect)

lemma runs_bnd_errno [runs_rules]:
  assumes "runs absk (f (errno a)) Q a"
  shows "runs absk (bnd errno_of f) Q a"
proof -
  have "errno p = errno a" if "view absk p = a" for p using that by (auto simp: view_def)
  then show ?thesis using assms by (simp add: runs_def bnd_def errno_of_def)
qed

lemma runs_bnd_set_errno [runs_rules]:
  assumes "runs absk (f ()) Q (a\<lparr>errno := e\<rparr>)"
  shows "runs absk (bnd (set_errno e) f) Q a"
proof -
  have "view absk (p\<lparr>errno := e\<rparr>) = a\<lparr>errno := e\<rparr>" if "view absk p = a" for p
    using that by (auto simp: view_def)
  then show ?thesis using assms by (simp add: runs_def bnd_def set_errno_def)
qed

end
