(* ===== verification/Seccomp_Tests.thy ===== *)
theory Seccomp_Tests
  imports Seccomp_Doc
begin

text \<open>
  The tests of \<open>seccomp_bpf.c\<close> that run in one process, in the order of the file, as programs over the
  process of \<open>Seccomp_Process\<close>. Local variables that hold an address of the process are the contents
  they point to.
\<close>

section \<open>Common statements\<close>

definition prctl :: "'k linux \<Rightarrow> sysarg list \<Rightarrow> ('k, int) tprog" where
  "prctl lx args = sys lx NR_prctl args"

text \<open>\<open>ret = prctl (PR_SET_NO_NEW_PRIVS, 1, 0, 0, 0); ASSERT_EQ (0, ret)\<close>, and the installation of a filter
  with three or with five arguments.\<close>

definition set_nnp :: "'k linux \<Rightarrow> 'k test" where
  "set_nnp lx = bnd (prctl lx [Arg PR_SET_NO_NEW_PRIVS, Arg 1, Arg 0, Arg 0, Arg 0]) (\<lambda>rc. ASSERT lx (rc = 0))"

definition set_filter :: "'k linux \<Rightarrow> sock_fprog \<Rightarrow> ('k, int) tprog" where
  "set_filter lx f = prctl lx [Arg PR_SET_SECCOMP, Arg SECCOMP_MODE_FILTER, Fprog f]"

definition set_filter5 :: "'k linux \<Rightarrow> sock_fprog \<Rightarrow> ('k, int) tprog" where
  "set_filter5 lx f = prctl lx [Arg PR_SET_SECCOMP, Arg SECCOMP_MODE_FILTER, Fprog f, Arg 0, Arg 0]"

definition install :: "'k linux \<Rightarrow> sock_fprog \<Rightarrow> 'k test" where
  "install lx f = bnd (set_filter lx f) (\<lambda>rc. ASSERT lx (rc = 0))"

definition install5 :: "'k linux \<Rightarrow> sock_fprog \<Rightarrow> 'k test" where
  "install5 lx f = bnd (set_filter5 lx f) (\<lambda>rc. ASSERT lx (rc = 0))"

definition getppid :: "'k linux \<Rightarrow> ('k, int) tprog" where
  "getppid lx = sys lx NR_getppid []"

definition read_null :: "'k linux \<Rightarrow> ('k, int) tprog" where
  "read_null lx = sys lx NR_read [Arg 0, Arg 0, Arg 0]"

text \<open>\<open>BPF_STMT (BPF_RET|BPF_K, ..)\<close>, the load of the number and the comparison with the number of a call.\<close>

abbreviation RET_K :: "u32 \<Rightarrow> sock_filter" where "RET_K v \<equiv> BPF_STMT BPF_RET_K v"
abbreviation LD_nr :: sock_filter where "LD_nr \<equiv> BPF_STMT BPF_LD_W_ABS seccomp_nr"
abbreviation JEQ_K :: "u32 \<Rightarrow> byte \<Rightarrow> byte \<Rightarrow> sock_filter" where "JEQ_K v t f \<equiv> BPF_JUMP BPF_JMP_JEQ_K v t f"

definition allow :: sock_fprog where
  "allow = fprog_of [RET_K SECCOMP_RET_ALLOW]"

section \<open>Modes and limits\<close>

definition mode_strict_support :: "'k linux \<Rightarrow> 'k test" where
  "mode_strict_support lx =
     bnd (prctl lx [Arg PR_SET_SECCOMP, Arg SECCOMP_MODE_STRICT, Arg 0, Arg 0, Arg 0]) (\<lambda>rc.
     bnd (ASSERT_LOG lx (rc = 0)) (\<lambda>_.
     bnd (sys lx NR_exit [Arg 1]) (\<lambda>_. ret ())))"

definition mode_strict_cannot_call_prctl :: "'k linux \<Rightarrow> 'k test" where
  "mode_strict_cannot_call_prctl lx =
     bnd (prctl lx [Arg PR_SET_SECCOMP, Arg SECCOMP_MODE_STRICT, Arg 0, Arg 0, Arg 0]) (\<lambda>rc.
     bnd (ASSERT_LOG lx (rc = 0)) (\<lambda>_.
     bnd (sys lx NR_prctl [Arg PR_SET_SECCOMP, Arg SECCOMP_MODE_FILTER, Arg 0, Arg 0, Arg 0]) (\<lambda>_.
     EXPECT_LOG lx False)))"

definition no_new_privs_support :: "'k linux \<Rightarrow> 'k test" where
  "no_new_privs_support lx =
     bnd (prctl lx [Arg PR_SET_NO_NEW_PRIVS, Arg 1, Arg 0, Arg 0, Arg 0]) (\<lambda>rc. EXPECT_LOG lx (rc = 0))"

definition mode_filter_support :: "'k linux \<Rightarrow> 'k test" where
  "mode_filter_support lx =
     bnd (prctl lx [Arg PR_SET_NO_NEW_PRIVS, Arg 1, Arg 0, Arg 0, Arg 0]) (\<lambda>rc.
     bnd (ASSERT_LOG lx (rc = 0)) (\<lambda>_.
     bnd (prctl lx [Arg PR_SET_SECCOMP, Arg SECCOMP_MODE_FILTER, Arg 0, Arg 0, Arg 0]) (\<lambda>rc.
     bnd (EXPECT lx (rc = -1)) (\<lambda>_.
     bnd errno_of (\<lambda>e. EXPECT_LOG lx (e = EFAULT))))))"

definition mode_filter_without_nnp :: "'k linux \<Rightarrow> 'k test" where
  "mode_filter_without_nnp lx =
     bnd (prctl lx [Arg PR_GET_NO_NEW_PRIVS, Arg 0, Arg 0, Arg 0, Arg 0]) (\<lambda>rc.
     bnd (ASSERT_LOG lx (0 \<le> rc)) (\<lambda>_.
     bnd (set_errno 0) (\<lambda>_.
     bnd (set_filter5 lx allow) (\<lambda>rc.
     bnd (sys lx NR_geteuid []) (\<lambda>euid.
     if euid \<noteq> 0
     then bnd (EXPECT lx (rc = -1)) (\<lambda>_. bnd errno_of (\<lambda>e. EXPECT lx (e = EACCES)))
     else EXPECT lx (rc = 0))))))"

definition filter_size_limits :: "'k linux \<Rightarrow> 'k test" where
  "filter_size_limits lx =
     (let count = BPF_MAXINSNS + 1 in
      bnd (libc (libc_malloc lx)) (\<lambda>allocated.
      bnd (ASSERT lx allocated) (\<lambda>_.
      let prog = \<lparr>fprog_len = of_nat count, fprog_filter = Some (replicate count (RET_K SECCOMP_RET_ALLOW))\<rparr> in
      bnd (set_nnp lx) (\<lambda>_.
      bnd (set_filter5 lx prog) (\<lambda>rc.
      bnd (ASSERT_LOG lx (rc \<noteq> 0)) (\<lambda>_.
      let prog = prog\<lparr>fprog_len := fprog_len prog - 1\<rparr> in
      bnd (set_filter5 lx prog) (\<lambda>rc. ASSERT_LOG lx (rc = 0))))))))"

definition MAX_INSNS_PER_PATH :: nat where "MAX_INSNS_PER_PATH = 32768"

text \<open>The loop of \<open>filter_chain_limits\<close>, with \<open>n\<close> turns left: the last result of \<open>prctl\<close>.\<close>

primrec chain_loop :: "'k linux \<Rightarrow> sock_fprog \<Rightarrow> nat \<Rightarrow> int \<Rightarrow> ('k, int) tprog" where
  "chain_loop lx prog 0 rc = ret rc"
| "chain_loop lx prog (Suc n) rc =
     bnd (set_filter5 lx prog) (\<lambda>rc. if rc \<noteq> 0 then ret rc else chain_loop lx prog n rc)"

definition filter_chain_limits :: "'k linux \<Rightarrow> 'k test" where
  "filter_chain_limits lx =
     (let count = BPF_MAXINSNS in
      bnd (libc (libc_malloc lx)) (\<lambda>allocated.
      bnd (ASSERT lx allocated) (\<lambda>_.
      let filter = replicate count (RET_K SECCOMP_RET_ALLOW) in
      bnd (set_nnp lx) (\<lambda>_.
      bnd (set_filter5 lx \<lparr>fprog_len = 1, fprog_filter = Some filter\<rparr>) (\<lambda>rc.
      bnd (ASSERT lx (rc = 0)) (\<lambda>_.
      bnd (chain_loop lx \<lparr>fprog_len = of_nat count, fprog_filter = Some filter\<rparr> MAX_INSNS_PER_PATH rc) (\<lambda>rc.
      ASSERT_LOG lx (rc \<noteq> 0))))))))"

definition mode_filter_cannot_move_to_strict :: "'k linux \<Rightarrow> 'k test" where
  "mode_filter_cannot_move_to_strict lx =
     bnd (set_nnp lx) (\<lambda>_.
     bnd (install5 lx allow) (\<lambda>_.
     bnd (prctl lx [Arg PR_SET_SECCOMP, Arg SECCOMP_MODE_STRICT, Arg 0, Arg 0, Arg 0]) (\<lambda>rc.
     bnd (EXPECT lx (rc = -1)) (\<lambda>_.
     bnd errno_of (\<lambda>e. EXPECT lx (e = EINVAL))))))"

definition mode_filter_get_seccomp :: "'k linux \<Rightarrow> 'k test" where
  "mode_filter_get_seccomp lx =
     bnd (set_nnp lx) (\<lambda>_.
     bnd (prctl lx [Arg PR_GET_SECCOMP, Arg 0, Arg 0, Arg 0, Arg 0]) (\<lambda>rc.
     bnd (EXPECT lx (rc = 0)) (\<lambda>_.
     bnd (install5 lx allow) (\<lambda>_.
     bnd (prctl lx [Arg PR_GET_SECCOMP, Arg 0, Arg 0, Arg 0, Arg 0]) (\<lambda>rc.
     EXPECT lx (rc = 2))))))"

definition ALLOW_all :: "'k linux \<Rightarrow> 'k test" where
  "ALLOW_all lx = bnd (set_nnp lx) (\<lambda>_. install lx allow)"

definition empty_prog :: "'k linux \<Rightarrow> 'k test" where
  "empty_prog lx =
     bnd (set_nnp lx) (\<lambda>_.
     bnd (set_filter lx (fprog_of [])) (\<lambda>rc.
     bnd (EXPECT lx (rc = -1)) (\<lambda>_.
     bnd errno_of (\<lambda>e. EXPECT lx (e = EINVAL)))))"

section \<open>Actions\<close>

definition unknown_ret_is_kill_inside :: "'k linux \<Rightarrow> 'k test" where
  "unknown_ret_is_kill_inside lx =
     bnd (set_nnp lx) (\<lambda>_.
     bnd (install lx (fprog_of [RET_K 0x10000000])) (\<lambda>_.
     bnd (sys lx NR_getpid []) (\<lambda>pid. EXPECT_LOG lx (pid = 0))))"

definition unknown_ret_is_kill_above_allow :: "'k linux \<Rightarrow> 'k test" where
  "unknown_ret_is_kill_above_allow lx =
     bnd (set_nnp lx) (\<lambda>_.
     bnd (install lx (fprog_of [RET_K 0x90000000])) (\<lambda>_.
     bnd (sys lx NR_getpid []) (\<lambda>pid. EXPECT_LOG lx (pid = 0))))"

definition KILL_all :: "'k linux \<Rightarrow> 'k test" where
  "KILL_all lx = bnd (set_nnp lx) (\<lambda>_. install lx (fprog_of [RET_K SECCOMP_RET_KILL]))"

definition KILL_one :: "'k linux \<Rightarrow> 'k test" where
  "KILL_one lx =
     (let prog = fprog_of [LD_nr, JEQ_K (NR lx NR_getpid) 0 1, RET_K SECCOMP_RET_KILL, RET_K SECCOMP_RET_ALLOW] in
      bnd (getppid lx) (\<lambda>parent.
      bnd (set_nnp lx) (\<lambda>_.
      bnd (install lx prog) (\<lambda>_.
      bnd (sys lx NR_getppid []) (\<lambda>r.
      bnd (EXPECT lx (parent = r)) (\<lambda>_.
      bnd (sys lx NR_getpid []) (\<lambda>r. EXPECT lx (r = 0))))))))"

definition kill_if_arg :: "'k linux \<Rightarrow> nat \<Rightarrow> sock_fprog" where
  "kill_if_arg lx n = fprog_of [LD_nr, JEQ_K (NR lx NR_getpid) 1 0, RET_K SECCOMP_RET_ALLOW,
     BPF_STMT BPF_LD_W_ABS (syscall_arg n), JEQ_K 0x0C0FFEE 0 1, RET_K SECCOMP_RET_KILL, RET_K SECCOMP_RET_ALLOW]"

definition KILL_one_arg_one :: "'k linux \<Rightarrow> 'k test" where
  "KILL_one_arg_one lx =
     bnd (getppid lx) (\<lambda>parent.
     bnd (libc (libc_getpid lx)) (\<lambda>pid.
     bnd (set_nnp lx) (\<lambda>_.
     bnd (install lx (kill_if_arg lx 0)) (\<lambda>_.
     bnd (sys lx NR_getppid []) (\<lambda>r.
     bnd (EXPECT lx (parent = r)) (\<lambda>_.
     bnd (sys lx NR_getpid []) (\<lambda>r.
     bnd (EXPECT lx (pid = r)) (\<lambda>_.
     bnd (sys lx NR_getpid [Arg 0x0C0FFEE]) (\<lambda>r. EXPECT lx (r = 0))))))))))"

definition KILL_one_arg_six :: "'k linux \<Rightarrow> 'k test" where
  "KILL_one_arg_six lx =
     bnd (getppid lx) (\<lambda>parent.
     bnd (libc (libc_getpid lx)) (\<lambda>pid.
     bnd (set_nnp lx) (\<lambda>_.
     bnd (install lx (kill_if_arg lx 5)) (\<lambda>_.
     bnd (sys lx NR_getppid []) (\<lambda>r.
     bnd (EXPECT lx (parent = r)) (\<lambda>_.
     bnd (sys lx NR_getpid []) (\<lambda>r.
     bnd (EXPECT lx (pid = r)) (\<lambda>_.
     bnd (sys lx NR_getpid [Arg 1, Arg 2, Arg 3, Arg 4, Arg 5, Arg 0x0C0FFEE]) (\<lambda>r. EXPECT lx (r = 0))))))))))"

definition arg_out_of_range :: "'k linux \<Rightarrow> 'k test" where
  "arg_out_of_range lx =
     bnd (set_nnp lx) (\<lambda>_.
     bnd (set_filter lx (fprog_of [BPF_STMT BPF_LD_W_ABS (syscall_arg 6), RET_K SECCOMP_RET_ALLOW])) (\<lambda>rc.
     bnd (EXPECT lx (rc = -1)) (\<lambda>_.
     bnd errno_of (\<lambda>e. EXPECT lx (e = EINVAL)))))"

definition errno_for_read :: "'k linux \<Rightarrow> u32 \<Rightarrow> sock_fprog" where
  "errno_for_read lx e =
     fprog_of [LD_nr, JEQ_K (NR lx NR_read) 0 1, RET_K (SECCOMP_RET_ERRNO OR e), RET_K SECCOMP_RET_ALLOW]"

definition ERRNO_valid :: "'k linux \<Rightarrow> 'k test" where
  "ERRNO_valid lx =
     bnd (getppid lx) (\<lambda>parent.
     bnd (set_nnp lx) (\<lambda>_.
     bnd (install lx (errno_for_read lx (of_int E2BIG))) (\<lambda>_.
     bnd (sys lx NR_getppid []) (\<lambda>r.
     bnd (EXPECT lx (parent = r)) (\<lambda>_.
     bnd (read_null lx) (\<lambda>r.
     bnd (EXPECT lx (r = -1)) (\<lambda>_.
     bnd errno_of (\<lambda>e. EXPECT lx (e = E2BIG)))))))))"

definition ERRNO_zero :: "'k linux \<Rightarrow> 'k test" where
  "ERRNO_zero lx =
     bnd (getppid lx) (\<lambda>parent.
     bnd (set_nnp lx) (\<lambda>_.
     bnd (install lx (errno_for_read lx 0)) (\<lambda>_.
     bnd (sys lx NR_getppid []) (\<lambda>r.
     bnd (EXPECT lx (parent = r)) (\<lambda>_.
     bnd (read_null lx) (\<lambda>r. EXPECT lx (r = 0)))))))"

definition ERRNO_capped :: "'k linux \<Rightarrow> 'k test" where
  "ERRNO_capped lx =
     bnd (getppid lx) (\<lambda>parent.
     bnd (set_nnp lx) (\<lambda>_.
     bnd (install lx (errno_for_read lx 4096)) (\<lambda>_.
     bnd (sys lx NR_getppid []) (\<lambda>r.
     bnd (EXPECT lx (parent = r)) (\<lambda>_.
     bnd (read_null lx) (\<lambda>r.
     bnd (EXPECT lx (r = -1)) (\<lambda>_.
     bnd errno_of (\<lambda>e. EXPECT lx (e = 4095)))))))))"

section \<open>The fixture TRAP\<close>

text \<open>\<open>malloc\<close>, a check, a copy of the instructions and their number.\<close>

definition filter_alloc :: "'k linux \<Rightarrow> sock_filter list \<Rightarrow> ('k, sock_fprog) tprog" where
  "filter_alloc lx insns =
     bnd (libc (libc_malloc lx)) (\<lambda>allocated.
     bnd (ASSERT lx allocated) (\<lambda>_. ret (fprog_of insns)))"

text \<open>\<open>if (prog.filter) free (prog.filter)\<close>.\<close>

definition filter_free :: "'k linux \<Rightarrow> sock_fprog \<Rightarrow> 'k test" where
  "filter_free lx prog = (if fprog_filter prog \<noteq> None then libc (\<lambda>s. ((), libc_free lx s)) else ret ())"

definition TRAP_setup :: "'k linux \<Rightarrow> ('k, sock_fprog) tprog" where
  "TRAP_setup lx =
     filter_alloc lx [LD_nr, JEQ_K (NR lx NR_getpid) 0 1, RET_K SECCOMP_RET_TRAP, RET_K SECCOMP_RET_ALLOW]"

definition TRAP_teardown :: "'k linux \<Rightarrow> sock_fprog \<Rightarrow> 'k test" where
  "TRAP_teardown lx prog = filter_free lx prog"

definition TRAP_dfl :: "'k linux \<Rightarrow> sock_fprog \<Rightarrow> 'k test" where
  "TRAP_dfl lx prog =
     bnd (set_nnp lx) (\<lambda>_.
     bnd (install lx prog) (\<lambda>_.
     bnd (sys lx NR_getpid []) (\<lambda>_. ret ())))"

definition TRAP_ign :: "'k linux \<Rightarrow> sock_fprog \<Rightarrow> 'k test" where
  "TRAP_ign lx prog =
     bnd (set_nnp lx) (\<lambda>_.
     bnd (libc (libc_sigaction lx SIGSYS SIG_IGN)) (\<lambda>_.
     bnd (install lx prog) (\<lambda>_.
     bnd (sys lx NR_getpid []) (\<lambda>_. ret ()))))"

text \<open>\<open>TRAP_nr = 0\<close> and \<open>memset (&TRAP_info, 0, ..)\<close>, and the two variables.\<close>

definition clear_TRAP :: "'k test" where
  "clear_TRAP = (\<lambda>p. (Inr (), p\<lparr>TRAP_nr := 0, TRAP_info := \<lparr>si_signo = 0, si_call_addr = 0, si_syscall = 0, si_arch = 0\<rparr>\<rparr>))"

definition get_TRAP :: "('k, int \<times> siginfo) tprog" where
  "get_TRAP = (\<lambda>p. (Inr (TRAP_nr p, TRAP_info p), p))"

definition TRAP_handler_test :: "'k linux \<Rightarrow> sock_fprog \<Rightarrow> 'k test" where
  "TRAP_handler_test lx prog =
     bnd (libc (libc_sigaction lx SIGSYS TRAP_handler)) (\<lambda>rc.
     bnd (ASSERT_LOG lx (rc = 0)) (\<lambda>_.
     bnd (libc (libc_unblock lx SIGSYS)) (\<lambda>rc.
     bnd (ASSERT_LOG lx (rc = 0)) (\<lambda>_.
     bnd (set_nnp lx) (\<lambda>_.
     bnd (install lx prog) (\<lambda>_.
     bnd clear_TRAP (\<lambda>_.
     bnd (sys lx NR_getpid []) (\<lambda>_.
     bnd get_TRAP (\<lambda>(nr, info).
     bnd (EXPECT lx (nr = SIGSYS)) (\<lambda>_.
     bnd (EXPECT lx (si_syscall info = NR lx NR_getpid)) (\<lambda>_.
     bnd (EXPECT lx (si_arch info \<noteq> 0)) (\<lambda>_.
     EXPECT lx (si_call_addr info \<noteq> 0)))))))))))))"

section \<open>The fixture precedence\<close>

record precedence =
  allow_prog :: sock_fprog
  trace_prog :: sock_fprog
  error_prog :: sock_fprog
  trap_prog :: sock_fprog
  kill_prog :: sock_fprog

text \<open>The filters of the fixture but the first: an action for \<open>getpid\<close>, and every other call is allowed.\<close>

definition on_getpid :: "'k linux \<Rightarrow> u32 \<Rightarrow> sock_filter list" where
  "on_getpid lx action = [LD_nr, JEQ_K (NR lx NR_getpid) 1 0, RET_K SECCOMP_RET_ALLOW, RET_K action]"

definition precedence_setup :: "'k linux \<Rightarrow> ('k, precedence) tprog" where
  "precedence_setup lx =
     bnd (filter_alloc lx [RET_K SECCOMP_RET_ALLOW]) (\<lambda>a.
     bnd (filter_alloc lx (on_getpid lx SECCOMP_RET_TRACE)) (\<lambda>t.
     bnd (filter_alloc lx (on_getpid lx SECCOMP_RET_ERRNO)) (\<lambda>e.
     bnd (filter_alloc lx (on_getpid lx SECCOMP_RET_TRAP)) (\<lambda>tr.
     bnd (filter_alloc lx (on_getpid lx SECCOMP_RET_KILL)) (\<lambda>k.
     ret \<lparr>allow_prog = a, trace_prog = t, error_prog = e, trap_prog = tr, kill_prog = k\<rparr>)))))"

definition precedence_teardown :: "'k linux \<Rightarrow> precedence \<Rightarrow> 'k test" where
  "precedence_teardown lx f =
     bnd (filter_free lx (allow_prog f)) (\<lambda>_.
     bnd (filter_free lx (trace_prog f)) (\<lambda>_.
     bnd (filter_free lx (error_prog f)) (\<lambda>_.
     bnd (filter_free lx (trap_prog f)) (\<lambda>_.
     filter_free lx (kill_prog f)))))"

text \<open>What the tests of the fixture share: the installation of some of its filters in a given order,
  with the process of the parent before it, and the check that \<open>getppid\<close> still answers.\<close>

primrec install_all :: "'k linux \<Rightarrow> sock_fprog list \<Rightarrow> 'k test" where
  "install_all lx [] = ret ()"
| "install_all lx (f # fs) = bnd (install lx f) (\<lambda>_. install_all lx fs)"

definition install_in_order :: "'k linux \<Rightarrow> sock_fprog list \<Rightarrow> 'k test" where
  "install_in_order lx fs =
     bnd (getppid lx) (\<lambda>parent.
     bnd (set_nnp lx) (\<lambda>_.
     bnd (install_all lx fs) (\<lambda>_.
     bnd (sys lx NR_getppid []) (\<lambda>r. EXPECT lx (parent = r)))))"

definition precedence_allow_ok :: "'k linux \<Rightarrow> precedence \<Rightarrow> 'k test" where
  "precedence_allow_ok lx f =
     install_in_order lx [allow_prog f, trace_prog f, error_prog f, trap_prog f, kill_prog f]"

definition kill_is_highest :: "'k linux \<Rightarrow> precedence \<Rightarrow> 'k test" where
  "kill_is_highest lx f =
     bnd (install_in_order lx [allow_prog f, trace_prog f, error_prog f, trap_prog f, kill_prog f]) (\<lambda>_.
     bnd (sys lx NR_getpid []) (\<lambda>r. EXPECT lx (r = 0)))"

definition kill_is_highest_in_any_order :: "'k linux \<Rightarrow> precedence \<Rightarrow> 'k test" where
  "kill_is_highest_in_any_order lx f =
     bnd (install_in_order lx [allow_prog f, kill_prog f, error_prog f, trace_prog f, trap_prog f]) (\<lambda>_.
     bnd (sys lx NR_getpid []) (\<lambda>r. EXPECT lx (r = 0)))"

definition trap_is_second :: "'k linux \<Rightarrow> precedence \<Rightarrow> 'k test" where
  "trap_is_second lx f =
     bnd (install_in_order lx [allow_prog f, trace_prog f, error_prog f, trap_prog f]) (\<lambda>_.
     bnd (sys lx NR_getpid []) (\<lambda>r. EXPECT lx (r = 0)))"

definition trap_is_second_in_any_order :: "'k linux \<Rightarrow> precedence \<Rightarrow> 'k test" where
  "trap_is_second_in_any_order lx f =
     bnd (install_in_order lx [allow_prog f, trap_prog f, trace_prog f, error_prog f]) (\<lambda>_.
     bnd (sys lx NR_getpid []) (\<lambda>r. EXPECT lx (r = 0)))"

definition errno_is_third :: "'k linux \<Rightarrow> precedence \<Rightarrow> 'k test" where
  "errno_is_third lx f =
     bnd (install_in_order lx [allow_prog f, trace_prog f, error_prog f]) (\<lambda>_.
     bnd (sys lx NR_getpid []) (\<lambda>r. EXPECT lx (r = 0)))"

definition errno_is_third_in_any_order :: "'k linux \<Rightarrow> precedence \<Rightarrow> 'k test" where
  "errno_is_third_in_any_order lx f =
     bnd (install_in_order lx [error_prog f, trace_prog f, allow_prog f]) (\<lambda>_.
     bnd (sys lx NR_getpid []) (\<lambda>r. EXPECT lx (r = 0)))"

definition trace_is_fourth :: "'k linux \<Rightarrow> precedence \<Rightarrow> 'k test" where
  "trace_is_fourth lx f =
     bnd (install_in_order lx [allow_prog f, trace_prog f]) (\<lambda>_.
     bnd (sys lx NR_getpid []) (\<lambda>r. EXPECT lx (r = -1)))"

definition trace_is_fourth_in_any_order :: "'k linux \<Rightarrow> precedence \<Rightarrow> 'k test" where
  "trace_is_fourth_in_any_order lx f =
     bnd (install_in_order lx [trace_prog f, allow_prog f]) (\<lambda>_.
     bnd (sys lx NR_getpid []) (\<lambda>r. EXPECT lx (r = -1)))"

section \<open>The system call seccomp\<close>

definition seccomp :: "'k linux \<Rightarrow> u64 \<Rightarrow> u64 \<Rightarrow> sysarg \<Rightarrow> ('k, int) tprog" where
  "seccomp lx op flags arg = bnd (set_errno 0) (\<lambda>_. sys lx NR_seccomp [Arg op, Arg flags, arg])"

definition seccomp_syscall :: "'k linux \<Rightarrow> 'k test" where
  "seccomp_syscall lx =
     bnd (prctl lx [Arg PR_SET_NO_NEW_PRIVS, Arg 1, Arg 0, Arg 0, Arg 0]) (\<lambda>rc.
     bnd (ASSERT_LOG lx (rc = 0)) (\<lambda>_.
     bnd (seccomp lx 0xFFFFFFFF 0 (Fprog allow)) (\<lambda>_.
     bnd errno_of (\<lambda>e. bnd (ASSERT_LOG lx (e \<noteq> ENOSYS)) (\<lambda>_.
     bnd errno_of (\<lambda>e. bnd (EXPECT_LOG lx (e = EINVAL)) (\<lambda>_.
     bnd (seccomp lx SECCOMP_SET_MODE_STRICT 0xFFFFFFFF (Arg 0)) (\<lambda>_.
     bnd errno_of (\<lambda>e. bnd (EXPECT_LOG lx (e = EINVAL)) (\<lambda>_.
     bnd (seccomp lx SECCOMP_SET_MODE_STRICT 0 (Fprog allow)) (\<lambda>_.
     bnd errno_of (\<lambda>e. bnd (EXPECT_LOG lx (e = EINVAL)) (\<lambda>_.
     bnd (seccomp lx SECCOMP_SET_MODE_FILTER 0xFFFFFFFF (Fprog allow)) (\<lambda>_.
     bnd errno_of (\<lambda>e. bnd (EXPECT_LOG lx (e = EINVAL)) (\<lambda>_.
     bnd (seccomp lx SECCOMP_SET_MODE_FILTER 0 (Arg 0)) (\<lambda>_.
     bnd errno_of (\<lambda>e. bnd (EXPECT_LOG lx (e = EFAULT)) (\<lambda>_.
     bnd (seccomp lx SECCOMP_SET_MODE_FILTER 0 (Fprog allow)) (\<lambda>_.
     bnd errno_of (\<lambda>e. EXPECT_LOG lx (e = 0))))))))))))))))))))))"

definition seccomp_syscall_mode_lock :: "'k linux \<Rightarrow> 'k test" where
  "seccomp_syscall_mode_lock lx =
     bnd (prctl lx [Arg PR_SET_NO_NEW_PRIVS, Arg 1, Arg 0, Arg 0, Arg 0]) (\<lambda>rc.
     bnd (ASSERT_LOG lx (rc = 0)) (\<lambda>_.
     bnd (seccomp lx SECCOMP_SET_MODE_FILTER 0 (Fprog allow)) (\<lambda>rc.
     bnd errno_of (\<lambda>e. bnd (ASSERT_LOG lx (e \<noteq> ENOSYS)) (\<lambda>_.
     bnd (EXPECT_LOG lx (rc = 0)) (\<lambda>_.
     bnd (prctl lx [Arg PR_SET_SECCOMP, Arg SECCOMP_MODE_STRICT, Arg 0, Arg 0, Arg 0]) (\<lambda>_.
     bnd errno_of (\<lambda>e. bnd (EXPECT_LOG lx (e = EINVAL)) (\<lambda>_.
     bnd (seccomp lx SECCOMP_SET_MODE_STRICT 0 (Arg 0)) (\<lambda>_.
     bnd errno_of (\<lambda>e. EXPECT_LOG lx (e = EINVAL))))))))))))"

definition TSYNC_first :: "'k linux \<Rightarrow> 'k test" where
  "TSYNC_first lx =
     bnd (prctl lx [Arg PR_SET_NO_NEW_PRIVS, Arg 1, Arg 0, Arg 0, Arg 0]) (\<lambda>rc.
     bnd (ASSERT_LOG lx (rc = 0)) (\<lambda>_.
     bnd (seccomp lx SECCOMP_SET_MODE_FILTER SECCOMP_FLAG_FILTER_TSYNC (Fprog allow)) (\<lambda>rc.
     bnd errno_of (\<lambda>e. bnd (ASSERT_LOG lx (e \<noteq> ENOSYS)) (\<lambda>_.
     EXPECT_LOG lx (rc = 0))))))"

section \<open>The tests of one process\<close>

definition TRAP_case :: "'k linux \<Rightarrow> (sock_fprog \<Rightarrow> 'k test) \<Rightarrow> 'k test" where
  "TRAP_case lx = with_fixture (TRAP_setup lx) (TRAP_teardown lx)"

definition precedence_case :: "'k linux \<Rightarrow> (precedence \<Rightarrow> 'k test) \<Rightarrow> 'k test" where
  "precedence_case lx = with_fixture (precedence_setup lx) (precedence_teardown lx)"

text \<open>The tests with the signal that is to end them, -1 where they are to end by themselves.\<close>

definition single_process_tests :: "'k linux \<Rightarrow> (int \<times> 'k test) list" where
  "single_process_tests lx =
    [(-1, mode_strict_support lx),
     (SIGKILL, mode_strict_cannot_call_prctl lx),
     (-1, no_new_privs_support lx),
     (-1, mode_filter_support lx),
     (-1, mode_filter_without_nnp lx),
     (-1, filter_size_limits lx),
     (-1, filter_chain_limits lx),
     (-1, mode_filter_cannot_move_to_strict lx),
     (-1, mode_filter_get_seccomp lx),
     (-1, ALLOW_all lx),
     (-1, empty_prog lx),
     (SIGSYS, unknown_ret_is_kill_inside lx),
     (SIGSYS, unknown_ret_is_kill_above_allow lx),
     (SIGSYS, KILL_all lx),
     (SIGSYS, KILL_one lx),
     (SIGSYS, KILL_one_arg_one lx),
     (SIGSYS, KILL_one_arg_six lx),
     (-1, arg_out_of_range lx),
     (-1, ERRNO_valid lx),
     (-1, ERRNO_zero lx),
     (-1, ERRNO_capped lx),
     (SIGSYS, TRAP_case lx (TRAP_dfl lx)),
     (SIGSYS, TRAP_case lx (TRAP_ign lx)),
     (-1, TRAP_case lx (TRAP_handler_test lx)),
     (-1, precedence_case lx (precedence_allow_ok lx)),
     (SIGSYS, precedence_case lx (kill_is_highest lx)),
     (SIGSYS, precedence_case lx (kill_is_highest_in_any_order lx)),
     (SIGSYS, precedence_case lx (trap_is_second lx)),
     (SIGSYS, precedence_case lx (trap_is_second_in_any_order lx)),
     (-1, precedence_case lx (errno_is_third lx)),
     (-1, precedence_case lx (errno_is_third_in_any_order lx)),
     (-1, precedence_case lx (trace_is_fourth lx)),
     (-1, precedence_case lx (trace_is_fourth_in_any_order lx)),
     (-1, seccomp_syscall lx),
     (-1, seccomp_syscall_mode_lock lx),
     (-1, TSYNC_first lx)]"

end
