(* ===== verification/Seccomp_Tsync.thy ===== *)
theory Seccomp_Tsync
  imports Seccomp_Tests
begin

text \<open>
  The tests of the fixture \<open>TSYNC\<close>: a main thread and two sibling threads (\<open>tsync_sibling\<close>) that meet on
  a semaphore, a mutex and a condition variable, and whose filters the main thread synchronises. Every
  step of a thread is one action of the code, a schedule says which thread takes the next one, and the
  test is the set of all its runs.
\<close>

section \<open>Threads\<close>

text \<open>
  What the tests take from the kernel and the C library: the numbers of the system calls and the thread
  ids, whether the process may install filters without \<open>no_new_privs\<close>, what \<open>pthread_join\<close> reports of a
  thread that was killed, and whether \<open>pthread_cond_wait\<close> may return without a broadcast.
\<close>

record tkern =
  t_nr :: "sysno \<Rightarrow> u32"
  t_tid :: "nat \<Rightarrow> int"
  t_admin :: bool
  killed_status :: int
  spurious :: bool

text \<open>The filters of a thread, the newest first; the number tells two installations of the same program
  apart.\<close>

type_synonym thread_filters = "(nat \<times> sock_filter list) list"

definition SIBLING_EXIT_UNKILLED :: int where "SIBLING_EXIT_UNKILLED = 0xbadbeef"
definition SIBLING_EXIT_FAILURE :: int where "SIBLING_EXIT_FAILURE = 0xbadface"
definition SIBLING_EXIT_NEWPRIVS :: int where "SIBLING_EXIT_NEWPRIVS = 0xbadfeed"

text \<open>Where a sibling is in \<open>tsync_sibling\<close>: the call it makes next, waiting for the condition, or ended
  with a status.\<close>

datatype sib_pc =
    At_gettid | At_lock | At_diverge | At_post | At_wait | At_failed | In_wait | At_relock | At_count | At_unlock
  | At_get_nnp | At_read | Ended int

record tsync_sibling =
  created :: bool
  sib_pc :: sib_pc
  system_tid :: int
  diverge :: bool
  num_waits :: int
  sib_ret :: int
  t_nnp :: bool
  t_filters :: thread_filters

datatype owner = Main_Thread | Sibling nat

text \<open>The fixture with the state of its synchronisation objects, and the main thread: its filters, the
  results of its last calls, the local variable \<open>sib\<close> and the flags of the test.\<close>

record tsync =
  sibling :: "nat \<Rightarrow> tsync_sibling"
  started :: nat
  mutex :: "owner option"
  sibling_count :: nat
  m_nnp :: bool
  m_filters :: thread_filters
  m_next :: nat
  m_ret :: int
  m_errno :: int
  m_status :: int
  m_sib :: nat
  t_passed :: bool
  t_aborted :: bool
  t_destroyed :: bool

definition TSYNC_SIBLINGS :: nat where "TSYNC_SIBLINGS = 2"

definition root_filter :: "sock_filter list" where
  "root_filter = [RET_K SECCOMP_RET_ALLOW]"

definition apply_filter :: "tkern \<Rightarrow> sock_filter list" where
  "apply_filter K = [LD_nr, JEQ_K (t_nr K NR_read) 0 1, RET_K SECCOMP_RET_KILL, RET_K SECCOMP_RET_ALLOW]"

text \<open>The state after \<open>TSYNC_setup\<close>, in a process without filters and without \<open>no_new_privs\<close>.\<close>

definition TSYNC_setup :: tsync where
  "TSYNC_setup = \<lparr>sibling = (\<lambda>i. \<lparr>created = False, sib_pc = At_gettid, system_tid = 0, diverge = False, num_waits = 1,
       sib_ret = 0, t_nnp = False, t_filters = []\<rparr>),
     started = 0, mutex = None, sibling_count = 0, m_nnp = False, m_filters = [], m_next = TSYNC_SIBLINGS,
     m_ret = 0, m_errno = 0, m_status = 0, m_sib = 0, t_passed = True, t_aborted = False, t_destroyed = False\<rparr>"

section \<open>System calls of a thread\<close>

text \<open>What the filters make of a call. They look at its number only. An action for which the tests have
  no expectation ends the thread here.\<close>

datatype verdict = Allowed | Failing int | Killing

definition call_verdict :: "tkern \<Rightarrow> sysno \<Rightarrow> thread_filters \<Rightarrow> verdict" where
  "call_verdict K n F =
     (case decide (t_nr K n) (replicate 6 0) (map snd F) of
        None \<Rightarrow> Killing
      | Some r \<Rightarrow>
          if r AND SECCOMP_RET_ACTION = SECCOMP_RET_ALLOW then Allowed
          else if r AND SECCOMP_RET_ACTION = SECCOMP_RET_ERRNO then Failing (uint (r AND SECCOMP_RET_DATA))
          else Killing)"

definition may_install :: "tkern \<Rightarrow> bool \<Rightarrow> sock_filter list \<Rightarrow> bool" where
  "may_install K b insns \<longleftrightarrow> (b \<or> t_admin K) \<and> insns_ok insns"

text \<open>The step of sibling \<open>i\<close>; \<open>None\<close> where it waits for another thread or has ended. Its own installation
  has the number \<open>i\<close>.\<close>

definition set_sib :: "nat \<Rightarrow> tsync_sibling \<Rightarrow> tsync \<Rightarrow> tsync" where
  "set_sib i x s = s\<lparr>sibling := (sibling s)(i := x)\<rparr>"

definition sib_step :: "tkern \<Rightarrow> nat \<Rightarrow> tsync \<Rightarrow> tsync option" where
  "sib_step K i s =
     (let me = sibling s i in
      case sib_pc me of
        At_gettid \<Rightarrow> Some (set_sib i (me\<lparr>system_tid := t_tid K i, sib_pc := At_lock\<rparr>) s)
      | At_lock \<Rightarrow>
          if mutex s \<noteq> None then None
          else Some (set_sib i (me\<lparr>sib_ret := 0, sib_pc := (if diverge me then At_diverge else At_post)\<rparr>)
            (s\<lparr>mutex := Some (Sibling i)\<rparr>))
      | At_diverge \<Rightarrow>
          (case call_verdict K NR_prctl (t_filters me) of
             Allowed \<Rightarrow>
               if may_install K (t_nnp me) root_filter
               then Some (set_sib i (me\<lparr>sib_ret := 0, t_filters := (i, root_filter) # t_filters me, sib_pc := At_post\<rparr>) s)
               else Some (set_sib i (me\<lparr>sib_ret := -1, sib_pc := At_post\<rparr>) s)
           | Failing e \<Rightarrow> Some (set_sib i (me\<lparr>sib_ret := -1, sib_pc := At_post\<rparr>) s)
           | Killing \<Rightarrow> Some (set_sib i (me\<lparr>sib_pc := Ended (killed_status K)\<rparr>) s))
      | At_post \<Rightarrow>
          Some (set_sib i (me\<lparr>sib_pc := (if sib_ret me \<noteq> 0 then At_failed else At_wait)\<rparr>) (s\<lparr>started := started s + 1\<rparr>))
      | At_failed \<Rightarrow> Some (set_sib i (me\<lparr>sib_pc := Ended SIBLING_EXIT_FAILURE\<rparr>) (s\<lparr>mutex := None\<rparr>))
      | At_wait \<Rightarrow> Some (set_sib i (me\<lparr>sib_pc := In_wait\<rparr>) (s\<lparr>mutex := None\<rparr>))
      | In_wait \<Rightarrow> if spurious K then Some (set_sib i (me\<lparr>sib_pc := At_relock\<rparr>) s) else None
      | At_relock \<Rightarrow>
          if mutex s \<noteq> None then None
          else Some (set_sib i (me\<lparr>sib_pc := At_count\<rparr>) (s\<lparr>mutex := Some (Sibling i)\<rparr>))
      | At_count \<Rightarrow>
          Some (set_sib i (me\<lparr>num_waits := num_waits me - 1,
            sib_pc := (if num_waits me - 1 \<noteq> 0 then At_wait else At_unlock)\<rparr>) s)
      | At_unlock \<Rightarrow> Some (set_sib i (me\<lparr>sib_pc := At_get_nnp\<rparr>) (s\<lparr>mutex := None\<rparr>))
      | At_get_nnp \<Rightarrow>
          (case call_verdict K NR_prctl (t_filters me) of
             Allowed \<Rightarrow> Some (set_sib i (me\<lparr>sib_pc := (if t_nnp me then At_read else Ended SIBLING_EXIT_NEWPRIVS)\<rparr>) s)
           | Failing e \<Rightarrow> Some (set_sib i (me\<lparr>sib_pc := At_read\<rparr>) s)
           | Killing \<Rightarrow> Some (set_sib i (me\<lparr>sib_pc := Ended (killed_status K)\<rparr>) s))
      | At_read \<Rightarrow>
          Some (set_sib i (me\<lparr>sib_pc := Ended (if call_verdict K NR_read (t_filters me) = Killing
            then killed_status K else SIBLING_EXIT_UNKILLED)\<rparr>) s)
      | Ended st \<Rightarrow> None)"

section \<open>The main thread\<close>

text \<open>
  The statements of the tests. \<open>Check\<close> is an \<open>ASSERT\<close> or an \<open>EXPECT\<close>; a thread is named by its index or by
  the variable \<open>sib\<close>. A turn of \<open>while (!kill (tid, 0)) usleep (..)\<close> that finds the thread alive changes nothing: \<open>Await_death\<close>.
\<close>

datatype index = Const nat | Var

datatype cond = Ret_is int | Ret_is_tid nat | Errno_not int | Status_is int

datatype stmt =
    Set_nnp
  | Seccomp bool "sock_filter list"
  | Diverge nat
  | Start_sibling nat
  | Await_started
  | Mutex_lock
  | Mutex_unlock
  | Cond_broadcast
  | Join index
  | Await_death index
  | Check bool cond
  | Pick_sib
  | Switch_sib
  | More_waits
  | Cap_waits
  | Teardown

definition the_index :: "tsync \<Rightarrow> index \<Rightarrow> nat" where
  "the_index s ix = (case ix of Const i \<Rightarrow> i | Var \<Rightarrow> m_sib s)"

definition cond_holds :: "cond \<Rightarrow> tsync \<Rightarrow> bool" where
  "cond_holds c s = (case c of Ret_is r \<Rightarrow> m_ret s = r | Ret_is_tid i \<Rightarrow> m_ret s = system_tid (sibling s i)
     | Errno_not e \<Rightarrow> m_errno s \<noteq> e | Status_is st \<Rightarrow> m_status s = st)"

definition ended :: "tsync_sibling \<Rightarrow> bool" where
  "ended x = (case sib_pc x of Ended st \<Rightarrow> True | _ \<Rightarrow> False)"

definition sib_live :: "tsync_sibling \<Rightarrow> bool" where
  "sib_live x \<longleftrightarrow> created x \<and> \<not> ended x"

text \<open>The thread a synchronisation fails at: its filters are not an initial part of the caller's.\<close>

fun ancestor :: "thread_filters \<Rightarrow> thread_filters \<Rightarrow> bool" where
  "ancestor G [] \<longleftrightarrow> G = []"
| "ancestor G (f # F) \<longleftrightarrow> G = f # F \<or> ancestor G F"

definition diverged :: "tsync \<Rightarrow> nat option" where
  "diverged s = List.find (\<lambda>i. sib_live (sibling s i) \<and> \<not> ancestor (t_filters (sibling s i)) (m_filters s)) [0..<TSYNC_SIBLINGS]"

definition tseccomp :: "tkern \<Rightarrow> bool \<Rightarrow> sock_filter list \<Rightarrow> tsync \<Rightarrow> tsync" where
  "tseccomp K tsync_flag insns s =
     (let s = s\<lparr>m_errno := 0\<rparr> in
      case call_verdict K NR_seccomp (m_filters s) of
        Failing e \<Rightarrow> s\<lparr>m_ret := -1, m_errno := e\<rparr>
      | Killing \<Rightarrow> s\<lparr>t_aborted := True\<rparr>
      | Allowed \<Rightarrow>
          if \<not> (m_nnp s \<or> t_admin K) then s\<lparr>m_ret := -1, m_errno := EACCES\<rparr>
          else if \<not> insns_ok insns then s\<lparr>m_ret := -1, m_errno := EINVAL\<rparr>
          else case (if tsync_flag then diverged s else None) of
            Some i \<Rightarrow> s\<lparr>m_ret := t_tid K i\<rparr>
          | None \<Rightarrow>
              let F = (m_next s, insns) # m_filters s;
                  s = s\<lparr>m_ret := 0, m_filters := F, m_next := m_next s + 1\<rparr> in
              if tsync_flag
              then s\<lparr>sibling := (\<lambda>i. if sib_live (sibling s i)
                then (sibling s i)\<lparr>t_filters := F, t_nnp := t_nnp (sibling s i) \<or> m_nnp s\<rparr> else sibling s i)\<rparr>
              else s)"

text \<open>A new thread inherits the filters and \<open>no_new_privs\<close> of its creator.\<close>

definition tsync_start_sibling :: "nat \<Rightarrow> tsync \<Rightarrow> tsync" where
  "tsync_start_sibling i s = set_sib i ((sibling s i)\<lparr>created := True, t_nnp := m_nnp s, t_filters := m_filters s\<rparr>) s"

text \<open>\<open>TSYNC_teardown\<close>: its loop joins a sibling only when \<open>pthread_kill\<close> says that it is gone, so it waits for
  none, and then the mutex, the condition and the semaphore are destroyed.\<close>

definition TSYNC_teardown :: "tsync \<Rightarrow> tsync" where
  "TSYNC_teardown s = s\<lparr>t_destroyed := True\<rparr>"

declare tsync_start_sibling_def [simp] TSYNC_teardown_def [simp]

text \<open>
  A statement: \<open>None\<close> where the thread waits; otherwise the state after it, and whether it is to be
  executed again, which is the loop that waits for the siblings.
\<close>

primrec main_step :: "tkern \<Rightarrow> stmt \<Rightarrow> tsync \<Rightarrow> (bool \<times> tsync) option" where
  "main_step K Set_nnp s =
     Some (False, case call_verdict K NR_prctl (m_filters s) of Allowed \<Rightarrow> s\<lparr>m_nnp := True, m_ret := 0\<rparr>
        | Failing e \<Rightarrow> s\<lparr>m_ret := -1, m_errno := e\<rparr> | Killing \<Rightarrow> s\<lparr>t_aborted := True\<rparr>)"
| "main_step K (Seccomp flag insns) s = Some (False, tseccomp K flag insns s)"
| "main_step K (Diverge i) s = Some (False, set_sib i ((sibling s i)\<lparr>diverge := True\<rparr>) s)"
| "main_step K (Start_sibling i) s = Some (False, tsync_start_sibling i s)"
| "main_step K Await_started s =
     (if TSYNC_SIBLINGS \<le> sibling_count s then Some (False, s)
      else if started s = 0 then None
      else Some (True, s\<lparr>started := started s - 1, sibling_count := sibling_count s + 1\<rparr>))"
| "main_step K Mutex_lock s =
     (if mutex s \<noteq> None then None else Some (False, s\<lparr>mutex := Some Main_Thread\<rparr>))"
| "main_step K Mutex_unlock s = Some (False, s\<lparr>mutex := None\<rparr>)"
| "main_step K Cond_broadcast s =
     Some (False, s\<lparr>sibling := (\<lambda>i. if sib_pc (sibling s i) = In_wait then (sibling s i)\<lparr>sib_pc := At_relock\<rparr>
        else sibling s i)\<rparr>)"
| "main_step K (Join ix) s =
     (case sib_pc (sibling s (the_index s ix)) of Ended v \<Rightarrow> Some (False, s\<lparr>m_status := v\<rparr>) | _ \<Rightarrow> None)"
| "main_step K (Await_death ix) s = (if ended (sibling s (the_index s ix)) then Some (False, s) else None)"
| "main_step K (Check assert c) s =
     Some (False, if cond_holds c s then s else if assert then s\<lparr>t_aborted := True\<rparr> else s\<lparr>t_passed := False\<rparr>)"
| "main_step K Pick_sib s =
     Some (False, s\<lparr>m_sib := (if m_ret s = system_tid (sibling s 0) then 0 else 1)\<rparr>)"
| "main_step K Switch_sib s = Some (False, s\<lparr>m_sib := (if m_sib s = 0 then 1 else 0)\<rparr>)"
| "main_step K More_waits s =
     (let j = (if m_sib s = 0 then 1 else 0) in
      Some (False, set_sib j ((sibling s j)\<lparr>num_waits := num_waits (sibling s j) + 1\<rparr>) s))"
| "main_step K Cap_waits s =
     (let j = m_sib s in
      Some (False, if 1 < num_waits (sibling s j) then set_sib j ((sibling s j)\<lparr>num_waits := 1\<rparr>) s else s))"
| "main_step K Teardown s = Some (False, TSYNC_teardown s)"

section \<open>The tests\<close>

text \<open>\<open>ASSERT_EQ (0, prctl (PR_SET_NO_NEW_PRIVS, ..))\<close>; the start of the threads and the loop that waits for
  them; the broadcast under the mutex.\<close>

definition assert_nnp :: "stmt list" where
  "assert_nnp = [Set_nnp, Check True (Ret_is 0)]"

definition start_siblings :: "stmt list" where
  "start_siblings = [Start_sibling 0, Start_sibling 1, Await_started]"

definition wake_siblings :: "stmt list" where
  "wake_siblings = [Mutex_lock, Cond_broadcast, Mutex_unlock]"

definition join_both :: "int \<Rightarrow> int \<Rightarrow> stmt list" where
  "join_both st0 st1 = [Join (Const 0), Check False (Status_is st0), Join (Const 1), Check False (Status_is st1)]"

definition assert_seccomp :: "bool \<Rightarrow> sock_filter list \<Rightarrow> stmt list" where
  "assert_seccomp flag insns = [Seccomp flag insns, Check True (Errno_not ENOSYS), Check True (Ret_is 0)]"

definition siblings_fail_prctl :: "tkern \<Rightarrow> stmt list" where
  "siblings_fail_prctl K =
     assert_nnp @
     assert_seccomp False [LD_nr, JEQ_K (t_nr K NR_prctl) 0 1, RET_K (SECCOMP_RET_ERRNO OR of_int EINVAL),
       RET_K SECCOMP_RET_ALLOW] @
     [Diverge 0] @ start_siblings @ wake_siblings @
     join_both SIBLING_EXIT_FAILURE SIBLING_EXIT_UNKILLED"

definition two_siblings_with_ancestor :: "tkern \<Rightarrow> stmt list" where
  "two_siblings_with_ancestor K =
     assert_nnp @ assert_seccomp False root_filter @ start_siblings @
     [Seccomp True (apply_filter K), Check True (Ret_is 0)] @ wake_siblings @ join_both 0 0"

definition two_sibling_want_nnp :: "tkern \<Rightarrow> stmt list" where
  "two_sibling_want_nnp K = start_siblings @ wake_siblings @ join_both SIBLING_EXIT_NEWPRIVS SIBLING_EXIT_NEWPRIVS"

definition two_siblings_with_no_filter :: "tkern \<Rightarrow> stmt list" where
  "two_siblings_with_no_filter K =
     start_siblings @ assert_nnp @ assert_seccomp True (apply_filter K) @ wake_siblings @ join_both 0 0"

definition two_siblings_with_one_divergence :: "tkern \<Rightarrow> stmt list" where
  "two_siblings_with_one_divergence K =
     assert_nnp @ assert_seccomp False root_filter @ [Diverge 0] @ start_siblings @
     [Seccomp True (apply_filter K), Check True (Ret_is_tid 0)] @ wake_siblings @
     join_both SIBLING_EXIT_UNKILLED SIBLING_EXIT_UNKILLED"

definition two_siblings_not_under_filter :: "tkern \<Rightarrow> stmt list" where
  "two_siblings_not_under_filter K =
     assert_nnp @ [Diverge 0] @ start_siblings @ assert_seccomp False root_filter @
     [Seccomp True (apply_filter K), Check True (Ret_is_tid 0), Pick_sib,
      Mutex_lock, More_waits, Cond_broadcast, Mutex_unlock,
      Join Var, Check False (Status_is SIBLING_EXIT_UNKILLED), Await_death Var, Switch_sib,
      Seccomp True (apply_filter K), Check True (Ret_is 0),
      Mutex_lock, Cap_waits, Cond_broadcast, Mutex_unlock,
      Join Var, Check False (Status_is 0), Await_death Var,
      Seccomp True (apply_filter K), Check True (Ret_is 0)]"

definition TSYNC_tests :: "tkern \<Rightarrow> stmt list list" where
  "TSYNC_tests K = map (\<lambda>body. body @ [Teardown]) [siblings_fail_prctl K, two_siblings_with_ancestor K, two_sibling_want_nnp K,
     two_siblings_with_no_filter K, two_siblings_with_one_divergence K, two_siblings_not_under_filter K]"

section \<open>Runs\<close>

text \<open>A step of the process: the thread that takes it, and what is left of the main program. An abort, or
  the end of the main thread, ends all threads.\<close>

definition thread_step :: "tkern \<Rightarrow> owner \<Rightarrow> stmt list \<times> tsync \<Rightarrow> (stmt list \<times> tsync) option" where
  "thread_step K who c =
     (case c of ([], s) \<Rightarrow> None
      | (st # rest, s) \<Rightarrow>
          if t_aborted s then None
          else (case who of
              Main_Thread \<Rightarrow> (case main_step K st s of None \<Rightarrow> None
                | Some (again, t) \<Rightarrow> Some (if again then st # rest else rest, t))
            | Sibling i \<Rightarrow> if i < TSYNC_SIBLINGS \<and> created (sibling s i)
                then map_option (\<lambda>t. (st # rest, t)) (sib_step K i s) else None))"

text \<open>A schedule, as the list of the threads that take the steps.\<close>

fun schedule :: "tkern \<Rightarrow> owner list \<Rightarrow> stmt list \<times> tsync \<Rightarrow> (stmt list \<times> tsync) option" where
  "schedule K [] c = Some c"
| "schedule K (w # ws) c = (case thread_step K w c of None \<Rightarrow> None | Some d \<Rightarrow> schedule K ws d)"

end
