(* ===== verification/Seccomp_Sync.thy ===== *)
theory Seccomp_Sync
  imports Seccomp_Tsync
begin

text \<open>
  The tests of the fixture \<open>TSYNC\<close> pass under every schedule. The proof is an outline in the manner of
  Owicki and Gries: for every point of the main program an assertion about both siblings that no step
  of a sibling disturbs. The assertions are computed by an abstract run of the main program, \<open>outline\<close>.
\<close>

section \<open>Assertions\<close>

text \<open>What a sibling ends with once it is past its waiting, and what its own installation gives.\<close>

definition after_read :: "tkern \<Rightarrow> thread_filters \<Rightarrow> int" where
  "after_read K F = (if call_verdict K NR_read F = Killing then killed_status K else SIBLING_EXIT_UNKILLED)"

definition outcome :: "tkern \<Rightarrow> thread_filters \<Rightarrow> bool \<Rightarrow> int" where
  "outcome K F b = (case call_verdict K NR_prctl F of Killing \<Rightarrow> killed_status K
     | Allowed \<Rightarrow> if b then after_read K F else SIBLING_EXIT_NEWPRIVS | Failing e \<Rightarrow> after_read K F)"

definition own_install :: "tkern \<Rightarrow> nat \<Rightarrow> bool \<Rightarrow> thread_filters \<Rightarrow> bool \<Rightarrow> int \<times> thread_filters" where
  "own_install K i d F b =
     (if \<not> d then (0, F)
      else if call_verdict K NR_prctl F = Allowed \<and> may_install K b root_filter then (0, (i, root_filter) # F)
      else (-1, F))"

text \<open>
  How far a sibling is: not started, started (its own filters, if any, not installed yet), past the
  semaphore, failed, woken with a number of broadcasts to wait for, woken with that number reset to 1
  while the main thread holds the mutex, ended.
\<close>

datatype stage =
    Fresh bool
  | Early bool thread_filters bool
  | Posted thread_filters bool int
  | Failed
  | Woken thread_filters bool int
  | Capped thread_filters bool
  | Gone int

definition early_pc :: "tkern \<Rightarrow> nat \<Rightarrow> bool \<Rightarrow> thread_filters \<Rightarrow> bool \<Rightarrow> tsync_sibling \<Rightarrow> bool" where
  "early_pc K i d F b x \<longleftrightarrow>
     (case sib_pc x of
        At_gettid \<Rightarrow> t_filters x = F
      | At_lock \<Rightarrow> t_filters x = F
      | At_diverge \<Rightarrow> d \<and> t_filters x = F
      | At_post \<Rightarrow> own_install K i d F b = (sib_ret x, t_filters x)
      | At_wait \<Rightarrow> own_install K i d F b = (0, t_filters x)
      | In_wait \<Rightarrow> own_install K i d F b = (0, t_filters x)
      | At_failed \<Rightarrow> fst (own_install K i d F b) \<noteq> 0
      | Ended v \<Rightarrow> fst (own_install K i d F b) \<noteq> 0 \<and> v = SIBLING_EXIT_FAILURE
      | _ \<Rightarrow> False)"

definition woken_pc :: "tkern \<Rightarrow> thread_filters \<Rightarrow> bool \<Rightarrow> int \<Rightarrow> tsync_sibling \<Rightarrow> bool" where
  "woken_pc K F b n x \<longleftrightarrow>
     (case sib_pc x of
        At_relock \<Rightarrow> num_waits x = n
      | At_count \<Rightarrow> num_waits x = n
      | At_wait \<Rightarrow> n = 2 \<and> num_waits x = 1
      | In_wait \<Rightarrow> n = 2 \<and> num_waits x = 1
      | At_unlock \<Rightarrow> n = 1
      | At_get_nnp \<Rightarrow> n = 1
      | At_read \<Rightarrow> n = 1 \<and> outcome K F b = after_read K F
      | Ended v \<Rightarrow> n = 1 \<and> v = outcome K F b
      | _ \<Rightarrow> False)"

primrec at :: "tkern \<Rightarrow> nat \<Rightarrow> stage \<Rightarrow> tsync_sibling \<Rightarrow> bool" where
  "at K i (Fresh d) x \<longleftrightarrow> \<not> created x \<and> sib_pc x = At_gettid \<and> diverge x = d \<and> num_waits x = 1"
| "at K i (Early d F b) x \<longleftrightarrow> created x \<and> diverge x = d \<and> num_waits x = 1 \<and> t_nnp x = b \<and>
     (d \<longrightarrow> call_verdict K NR_prctl F \<noteq> Killing) \<and> (sib_pc x \<noteq> At_gettid \<longrightarrow> system_tid x = t_tid K i) \<and>
     early_pc K i d F b x"
| "at K i (Posted F b n) x \<longleftrightarrow> created x \<and> t_filters x = F \<and> t_nnp x = b \<and> num_waits x = n \<and>
     system_tid x = t_tid K i \<and> sib_pc x \<in> {At_wait, In_wait}"
| "at K i Failed x \<longleftrightarrow> created x \<and> sib_pc x \<in> {At_failed, Ended SIBLING_EXIT_FAILURE}"
| "at K i (Woken F b n) x \<longleftrightarrow> created x \<and> t_filters x = F \<and> t_nnp x = b \<and> n \<in> {1, 2} \<and>
     system_tid x = t_tid K i \<and> woken_pc K F b n x"
| "at K i (Capped F b) x \<longleftrightarrow> created x \<and> t_filters x = F \<and> t_nnp x = b \<and> num_waits x = 1 \<and>
     system_tid x = t_tid K i \<and> sib_pc x \<in> {At_relock, In_wait}"
| "at K i (Gone v) x \<longleftrightarrow> created x \<and> sib_pc x = Ended v"

definition holding :: "sib_pc \<Rightarrow> bool" where
  "holding c \<longleftrightarrow> c \<in> {At_diverge, At_post, At_wait, At_failed, At_count, At_unlock}"

definition posted :: "tsync_sibling \<Rightarrow> nat" where
  "posted x = (if sib_pc x \<in> {At_gettid, At_lock, At_diverge, At_post} then 0 else 1)"

text \<open>An assertion; results the main thread does not look at are left open.\<close>

record asrt =
  a_stage :: "nat \<Rightarrow> stage"
  a_holds :: bool
  a_nnp :: bool
  a_filters :: thread_filters
  a_next :: nat
  a_ret :: "int option"
  a_errno :: "int option"
  a_status :: "int option"
  a_sib :: nat
  a_destroyed :: bool

definition capped :: "stage \<Rightarrow> bool" where
  "capped g \<longleftrightarrow> (case g of Capped F b \<Rightarrow> True | _ \<Rightarrow> False)"

text \<open>The part of an assertion that speaks about the siblings and their synchronisation, and all of it.\<close>

definition synced :: "tkern \<Rightarrow> (nat \<Rightarrow> stage) \<Rightarrow> bool \<Rightarrow> tsync \<Rightarrow> bool" where
  "synced K g h s \<longleftrightarrow>
     at K 0 (g 0) (sibling s 0) \<and> at K 1 (g 1) (sibling s 1) \<and>
     (capped (g 0) \<or> capped (g 1) \<longrightarrow> h) \<and>
     (mutex s = Some Main_Thread \<longleftrightarrow> h) \<and>
     (mutex s = Some (Sibling 0) \<longleftrightarrow> holding (sib_pc (sibling s 0))) \<and>
     (mutex s = Some (Sibling 1) \<longleftrightarrow> holding (sib_pc (sibling s 1))) \<and>
     (\<forall>i. mutex s = Some (Sibling i) \<longrightarrow> i = 0 \<or> i = 1) \<and>
     started s + sibling_count s = posted (sibling s 0) + posted (sibling s 1)"

definition known :: "int option \<Rightarrow> int \<Rightarrow> bool" where
  "known r v \<longleftrightarrow> r = None \<or> r = Some v"

definition asserts :: "tkern \<Rightarrow> asrt \<Rightarrow> tsync \<Rightarrow> bool" where
  "asserts K a s \<longleftrightarrow> synced K (a_stage a) (a_holds a) s \<and> t_passed s \<and> \<not> t_aborted s \<and>
     m_nnp s = a_nnp a \<and> m_filters s = a_filters a \<and> m_next s = a_next a \<and>
     known (a_ret a) (m_ret s) \<and> known (a_errno a) (m_errno s) \<and> known (a_status a) (m_status s) \<and>
     m_sib s = a_sib a \<and> t_destroyed s = a_destroyed a"

section \<open>The siblings do not disturb an assertion\<close>

lemma two_siblings: "i < TSYNC_SIBLINGS \<longleftrightarrow> i = 0 \<or> i = 1"
  by (auto simp: TSYNC_SIBLINGS_def)

lemmas sib_defs = sib_step_def set_sib_def Let_def holding_def posted_def early_pc_def woken_pc_def own_install_def
  capped_def

lemma sib_at:
  assumes "sib_step K i s = Some t" "at K i g (sibling s i)" "\<not> spurious K" "capped g \<longrightarrow> mutex s = Some Main_Thread"
    "created (sibling s i)"
  shows "at K i g (sibling t i)"
  using assms
  by (cases g; cases "sib_pc (sibling s i)")
    (auto simp: sib_defs outcome_def after_read_def split: if_splits verdict.splits)

lemma at_diverge_alive:
  "at K i g x \<Longrightarrow> sib_pc x = At_diverge \<Longrightarrow> call_verdict K NR_prctl (t_filters x) \<noteq> Killing"
  by (cases g) (auto simp: early_pc_def woken_pc_def)

lemma sib_sync:
  assumes "sib_step K i s = Some t" "\<not> spurious K"
    and "mutex s = Some (Sibling i) \<longleftrightarrow> holding (sib_pc (sibling s i))"
    and "at K i g (sibling s i)"
  shows "mutex t = Some (Sibling i) \<longleftrightarrow> holding (sib_pc (sibling t i))"
    and "mutex t = mutex s \<or> mutex s = None \<and> mutex t = Some (Sibling i) \<or> mutex s = Some (Sibling i) \<and> mutex t = None"
    and "started t + posted (sibling s i) = started s + posted (sibling t i)"
    and "j \<noteq> i \<Longrightarrow> sibling t j = sibling s j"
    and "sibling_count t = sibling_count s"
  using assms(1-3) at_diverge_alive [OF assms(4)]
  by (cases "sib_pc (sibling s i)";
      auto simp: sib_step_def set_sib_def Let_def holding_def posted_def split: if_splits verdict.splits; fail)+

lemma sib_frame:
  assumes "sib_step K i s = Some t"
  shows "t_passed t = t_passed s" "t_aborted t = t_aborted s" "m_nnp t = m_nnp s" "m_filters t = m_filters s"
    "m_next t = m_next s" "m_ret t = m_ret s" "m_errno t = m_errno s" "m_status t = m_status s" "m_sib t = m_sib s"
    "t_destroyed t = t_destroyed s"
  using assms
  by (cases "sib_pc (sibling s i)"; auto simp: sib_step_def set_sib_def Let_def split: if_splits verdict.splits)+

lemma synced_stable:
  assumes s: "synced K g h s" and i: "i = 0 \<or> i = 1" and step: "sib_step K i s = Some t"
    and K: "\<not> spurious K" and c: "created (sibling s i)"
  shows "synced K g h t"
proof -
  have ati: "at K i (g i) (sibling s i)" using s i by (auto simp: synced_def)
  have cap: "capped (g i) \<longrightarrow> mutex s = Some Main_Thread" using s i by (auto simp: synced_def)
  have mi: "mutex s = Some (Sibling i) \<longleftrightarrow> holding (sib_pc (sibling s i))" using s i by (auto simp: synced_def)
  note sync = sib_sync [OF step K mi ati]
  have new: "at K i (g i) (sibling t i)" by (rule sib_at [OF step ati K cap c])
  define j where "j = 1 - i"
  have j: "j \<noteq> i" "i = 0 \<and> j = 1 \<or> i = 1 \<and> j = 0" using i by (auto simp: j_def)
  have other: "sibling t j = sibling s j" by (rule sync(4) [OF j(1)])
  show ?thesis
    using j(2) s new other sync(1-3,5) mi unfolding synced_def by (elim disjE conjE) (auto split: if_splits)
qed

lemma asserts_stable:
  "asserts K a s \<Longrightarrow> i = 0 \<or> i = 1 \<Longrightarrow> sib_step K i s = Some t \<Longrightarrow> \<not> spurious K \<Longrightarrow> created (sibling s i) \<Longrightarrow> asserts K a t"
  using synced_stable [of K "a_stage a" "a_holds a" s i t] by (simp add: asserts_def sib_frame)

section \<open>The abstract run of the main program\<close>

definition a_index :: "asrt \<Rightarrow> index \<Rightarrow> nat" where
  "a_index a ix = (case ix of Const i \<Rightarrow> i | Var \<Rightarrow> a_sib a)"

definition a_live :: "stage \<Rightarrow> thread_filters option" where
  "a_live g = (case g of Posted F b n \<Rightarrow> Some F | Woken F b n \<Rightarrow> Some F | _ \<Rightarrow> None)"

text \<open>Stages in which the main thread may synchronise filters, and the sibling after it.\<close>

definition may_sync :: "stage \<Rightarrow> bool" where
  "may_sync g \<longleftrightarrow> (case g of Posted F b n \<Rightarrow> True | Woken F b n \<Rightarrow> n = 2 | Gone v \<Rightarrow> True | _ \<Rightarrow> False)"

definition sync_stage :: "thread_filters \<Rightarrow> bool \<Rightarrow> stage \<Rightarrow> stage" where
  "sync_stage F b' g = (case g of Posted G b n \<Rightarrow> Posted F (b \<or> b') n | Woken G b n \<Rightarrow> Woken F (b \<or> b') n | _ \<Rightarrow> g)"

definition blocks_sync :: "stage \<Rightarrow> thread_filters \<Rightarrow> bool" where
  "blocks_sync g F \<longleftrightarrow> (case a_live g of None \<Rightarrow> False | Some G \<Rightarrow> \<not> ancestor G F)"

definition post_stage :: "tkern \<Rightarrow> nat \<Rightarrow> stage \<Rightarrow> stage" where
  "post_stage K i g = (case g of Early d F b \<Rightarrow>
      (case own_install K i d F b of (r, G) \<Rightarrow> if r = 0 then Posted G b 1 else Failed) | _ \<Rightarrow> g)"

definition is_early :: "stage \<Rightarrow> bool" where
  "is_early g \<longleftrightarrow> (case g of Early d F b \<Rightarrow> True | _ \<Rightarrow> False)"

definition may_wake :: "stage \<Rightarrow> bool" where
  "may_wake g \<longleftrightarrow> (case g of Fresh d \<Rightarrow> False | Early d F b \<Rightarrow> False | Posted F b n \<Rightarrow> n = 1 \<or> n = 2
     | Woken F b n \<Rightarrow> n = 1 | _ \<Rightarrow> True)"

definition wake_stage :: "stage \<Rightarrow> stage" where
  "wake_stage g = (case g of Posted F b n \<Rightarrow> Woken F b n | Capped F b \<Rightarrow> Woken F b 1 | _ \<Rightarrow> g)"

definition joined :: "tkern \<Rightarrow> stage \<Rightarrow> int option" where
  "joined K g = (case g of Woken F b n \<Rightarrow> if n = 1 then Some (outcome K F b) else None
     | Failed \<Rightarrow> Some SIBLING_EXIT_FAILURE | Gone v \<Rightarrow> Some v | _ \<Rightarrow> None)"

definition is_gone :: "stage \<Rightarrow> bool" where
  "is_gone g \<longleftrightarrow> (case g of Gone v \<Rightarrow> True | _ \<Rightarrow> False)"

definition a_check :: "tkern \<Rightarrow> asrt \<Rightarrow> cond \<Rightarrow> bool" where
  "a_check K a c = (case c of Ret_is r \<Rightarrow> a_ret a = Some r
     | Ret_is_tid i \<Rightarrow> (i = 0 \<or> i = 1) \<and> a_live (a_stage a i) \<noteq> None \<and> a_ret a = Some (t_tid K i)
     | Errno_not e \<Rightarrow> (\<exists>v. a_errno a = Some v \<and> v \<noteq> e) | Status_is v \<Rightarrow> a_status a = Some v)"

definition a_seccomp :: "tkern \<Rightarrow> bool \<Rightarrow> sock_filter list \<Rightarrow> asrt \<Rightarrow> asrt option" where
  "a_seccomp K flag insns a =
     (if call_verdict K NR_seccomp (a_filters a) \<noteq> Allowed \<or> \<not> (a_nnp a \<or> t_admin K) \<or> \<not> insns_ok insns then None
      else if flag \<and> \<not> (may_sync (a_stage a 0) \<and> may_sync (a_stage a 1)) then None
      else if flag \<and> blocks_sync (a_stage a 0) (a_filters a) then Some (a\<lparr>a_ret := Some (t_tid K 0), a_errno := Some 0\<rparr>)
      else if flag \<and> blocks_sync (a_stage a 1) (a_filters a) then Some (a\<lparr>a_ret := Some (t_tid K 1), a_errno := Some 0\<rparr>)
      else
        let F = (a_next a, insns) # a_filters a in
        Some (a\<lparr>a_ret := Some 0, a_errno := Some 0, a_filters := F, a_next := a_next a + 1,
          a_stage := (if flag then (\<lambda>i. sync_stage F (a_nnp a) (a_stage a i)) else a_stage a)\<rparr>))"

primrec outline :: "tkern \<Rightarrow> stmt \<Rightarrow> asrt \<Rightarrow> asrt option" where
  "outline K Set_nnp a =
     (if call_verdict K NR_prctl (a_filters a) = Allowed then Some (a\<lparr>a_nnp := True, a_ret := Some 0\<rparr>) else None)"
| "outline K (Seccomp flag insns) a = a_seccomp K flag insns a"
| "outline K (Diverge i) a =
     (case a_stage a i of Fresh d \<Rightarrow> if i = 0 \<or> i = 1 then Some (a\<lparr>a_stage := (a_stage a)(i := Fresh True)\<rparr>) else None | _ \<Rightarrow> None)"
| "outline K (Start_sibling i) a =
     (case a_stage a i of Fresh d \<Rightarrow>
         if (i = 0 \<or> i = 1) \<and> (d \<longrightarrow> call_verdict K NR_prctl (a_filters a) \<noteq> Killing)
         then Some (a\<lparr>a_stage := (a_stage a)(i := Early d (a_filters a) (a_nnp a))\<rparr>) else None
       | _ \<Rightarrow> None)"
| "outline K Await_started a =
     (if is_early (a_stage a 0) \<and> is_early (a_stage a 1) \<and> \<not> a_holds a
      then Some (a\<lparr>a_stage := (\<lambda>i. post_stage K i (a_stage a i))\<rparr>) else None)"
| "outline K Mutex_lock a = (if a_holds a then None else Some (a\<lparr>a_holds := True\<rparr>))"
| "outline K Mutex_unlock a =
     (if a_holds a \<and> \<not> capped (a_stage a 0) \<and> \<not> capped (a_stage a 1) then Some (a\<lparr>a_holds := False\<rparr>) else None)"
| "outline K Cond_broadcast a =
     (if a_holds a \<and> may_wake (a_stage a 0) \<and> may_wake (a_stage a 1) then Some (a\<lparr>a_stage := (\<lambda>i. wake_stage (a_stage a i))\<rparr>) else None)"
| "outline K (Join ix) a =
     (let i = a_index a ix in
      if a_holds a \<or> i \<noteq> 0 \<and> i \<noteq> 1 then None
      else (case joined K (a_stage a i) of None \<Rightarrow> None | Some v \<Rightarrow> Some (a\<lparr>a_stage := (a_stage a)(i := Gone v), a_status := Some v\<rparr>)))"
| "outline K (Await_death ix) a =
     (let i = a_index a ix in if (i = 0 \<or> i = 1) \<and> is_gone (a_stage a i) then Some a else None)"
| "outline K (Check assert c) a = (if a_check K a c then Some a else None)"
| "outline K Pick_sib a =
     (case a_ret a of None \<Rightarrow> None
       | Some r \<Rightarrow> if a_live (a_stage a 0) = None then None else Some (a\<lparr>a_sib := (if r = t_tid K 0 then 0 else 1)\<rparr>))"
| "outline K Switch_sib a = Some (a\<lparr>a_sib := (if a_sib a = 0 then 1 else 0)\<rparr>)"
| "outline K More_waits a =
     (let j = (if a_sib a = 0 then 1 else 0) in
      (case a_stage a j of Posted F b n \<Rightarrow> if a_holds a then Some (a\<lparr>a_stage := (a_stage a)(j := Posted F b (n + 1))\<rparr>) else None | _ \<Rightarrow> None))"
| "outline K Cap_waits a =
     (let j = a_sib a in
      (case a_stage a j of Woken F b n \<Rightarrow>
         if a_holds a \<and> n = 2 \<and> (j = 0 \<or> j = 1) then Some (a\<lparr>a_stage := (a_stage a)(j := Capped F b)\<rparr>) else None
       | _ \<Rightarrow> None))"
| "outline K Teardown a =
     (if is_gone (a_stage a 0) \<and> is_gone (a_stage a 1) then Some (a\<lparr>a_destroyed := True\<rparr>) else None)"

section \<open>The abstract run is sound\<close>

text \<open>What a sibling has become by an action of the main thread, and that its part of the synchronisation
  is the same.\<close>

definition same_sync :: "tsync_sibling \<Rightarrow> tsync_sibling \<Rightarrow> bool" where
  "same_sync x y \<longleftrightarrow> holding (sib_pc y) = holding (sib_pc x) \<and> posted y = posted x"

lemma synced_change:
  assumes "synced K g h s" "at K 0 (g' 0) (sibling t 0)" "at K 1 (g' 1) (sibling t 1)"
    and "same_sync (sibling s 0) (sibling t 0)" "same_sync (sibling s 1) (sibling t 1)"
    and "capped (g' 0) \<or> capped (g' 1) \<longrightarrow> h"
    and "mutex t = mutex s" "started t + sibling_count t = started s + sibling_count s"
  shows "synced K g' h t"
  using assms by (auto simp: synced_def same_sync_def)

lemma same_sync_refl [simp]: "same_sync x x"
  by (simp add: same_sync_def)

lemma post_at:
  "at K i g x \<Longrightarrow> is_early g \<Longrightarrow> posted x = 1 \<Longrightarrow> at K i (post_stage K i g) x"
  by (cases g; cases "sib_pc x")
    (auto simp: is_early_def post_stage_def posted_def early_pc_def split: prod.splits)

lemma wake_at:
  "at K i g x \<Longrightarrow> may_wake g \<Longrightarrow> \<not> holding (sib_pc x) \<Longrightarrow>
   at K i (wake_stage g) (if sib_pc x = In_wait then x\<lparr>sib_pc := At_relock\<rparr> else x)"
  by (cases g; cases "sib_pc x") (auto simp: may_wake_def wake_stage_def holding_def woken_pc_def)

lemma joined_at: "at K i g x \<Longrightarrow> joined K g = Some v \<Longrightarrow> sib_pc x = Ended u \<Longrightarrow> u = v \<and> at K i (Gone v) x"
  by (cases g) (auto simp: joined_def woken_pc_def split: if_splits)

lemma at_live:
  "at K i g x \<Longrightarrow> may_sync g \<Longrightarrow> sib_live x \<longleftrightarrow> a_live g \<noteq> None"
  "at K i g x \<Longrightarrow> a_live g = Some F \<Longrightarrow> t_filters x = F \<and> system_tid x = t_tid K i"
  by (cases g; cases "sib_pc x"; auto simp: may_sync_def a_live_def sib_live_def ended_def woken_pc_def)+

lemma sync_at:
  "at K i g x \<Longrightarrow> may_sync g \<Longrightarrow>
   at K i (sync_stage F b' g) (if sib_live x then x\<lparr>t_filters := F, t_nnp := t_nnp x \<or> b'\<rparr> else x)"
  by (cases g; cases "sib_pc x") (auto simp: may_sync_def sync_stage_def sib_live_def ended_def woken_pc_def)

lemma cap_at:
  "at K i (Woken F b 2) x \<Longrightarrow> \<not> holding (sib_pc x) \<Longrightarrow>
   at K i (Capped F b) (if 1 < num_waits x then x\<lparr>num_waits := 1\<rparr> else x)"
  by (cases "sib_pc x") (auto simp: woken_pc_def holding_def)

lemma capped_simps [simp]:
  "\<not> capped (Fresh d)" "\<not> capped (Early d F b)" "\<not> capped (Posted F b n)" "\<not> capped Failed" "\<not> capped (Woken F b n)"
  "capped (Capped F b)" "\<not> capped (Gone v)" "\<not> capped (post_stage K i (Early d F b))"
  "capped (sync_stage F b g) = capped g"
  by (simp_all add: capped_def post_stage_def sync_stage_def split: prod.splits stage.splits)

lemma early_stage: "is_early g \<Longrightarrow> \<exists>d F b. g = Early d F b"
  by (cases g) (auto simp: is_early_def)

lemma joined_stage: "joined K g = Some v \<Longrightarrow> \<not> capped g"
  by (cases g) (auto simp: joined_def)

text \<open>The statements that change the siblings or their synchronisation.\<close>

lemma start_synced:
  assumes "synced K g h s" "i = 0 \<or> i = 1" "g i = Fresh d" "d \<longrightarrow> call_verdict K NR_prctl F \<noteq> Killing"
  shows "synced K (g(i := Early d F b)) h (set_sib i ((sibling s i)\<lparr>created := True, t_nnp := b, t_filters := F\<rparr>) s)"
  using assms(2)
proof
  assume i: "i = 0"
  show ?thesis
    by (rule synced_change [OF assms(1)])
      (use assms i in \<open>auto simp: synced_def set_sib_def early_pc_def same_sync_def posted_def\<close>)
next
  assume i: "i = 1"
  show ?thesis
    by (rule synced_change [OF assms(1)])
      (use assms i in \<open>auto simp: synced_def set_sib_def early_pc_def same_sync_def posted_def\<close>)
qed

lemma await_synced:
  assumes "synced K g h s" "is_early (g 0)" "is_early (g 1)" "TSYNC_SIBLINGS \<le> sibling_count s"
  shows "synced K (\<lambda>i. post_stage K i (g i)) h s"
proof -
  have "posted (sibling s 0) \<le> 1" "posted (sibling s 1) \<le> 1" by (simp_all add: posted_def)
  moreover have "started s + sibling_count s = posted (sibling s 0) + posted (sibling s 1)"
    using assms(1) by (simp add: synced_def)
  ultimately have "posted (sibling s 0) = 1" "posted (sibling s 1) = 1"
    using assms(4) by (simp_all add: TSYNC_SIBLINGS_def)
  then show ?thesis
    using assms(1) early_stage [OF assms(2)] early_stage [OF assms(3)] post_at [of K 0 "g 0"] post_at [of K 1 "g 1"] assms(2,3)
    by (intro synced_change [OF assms(1)]) (auto simp: synced_def)
qed

lemma broadcast_synced:
  assumes "synced K g True s" "may_wake (g 0)" "may_wake (g 1)"
  shows "synced K (\<lambda>i. wake_stage (g i)) True (s\<lparr>sibling := (\<lambda>i. if sib_pc (sibling s i) = In_wait
    then (sibling s i)\<lparr>sib_pc := At_relock\<rparr> else sibling s i)\<rparr>)"
proof -
  have "\<not> holding (sib_pc (sibling s 0))" "\<not> holding (sib_pc (sibling s 1))" using assms(1) by (auto simp: synced_def)
  then show ?thesis
    using assms wake_at [of K 0 "g 0" "sibling s 0"] wake_at [of K 1 "g 1" "sibling s 1"]
    by (intro synced_change [OF assms(1)]) (auto simp: synced_def same_sync_def holding_def posted_def)
qed

lemma join_synced:
  assumes "synced K g h s" "i = 0 \<or> i = 1" "joined K (g i) = Some v" "sib_pc (sibling s i) = Ended u" "\<not> h"
  shows "u = v" "synced K (g(i := Gone v)) h s"
proof -
  have "at K i (g i) (sibling s i)" using assms(1,2) by (auto simp: synced_def)
  from joined_at [OF this assms(3,4)] show "u = v" "synced K (g(i := Gone v)) h s"
    using assms by (auto simp: synced_def)
qed

lemma sync_synced:
  assumes "synced K g h s" "may_sync (g 0)" "may_sync (g 1)"
  shows "synced K (\<lambda>i. sync_stage F b (g i)) h (s\<lparr>sibling := (\<lambda>i. if sib_live (sibling s i)
    then (sibling s i)\<lparr>t_filters := F, t_nnp := t_nnp (sibling s i) \<or> b\<rparr> else sibling s i)\<rparr>)"
  using assms sync_at [of K 0 "g 0" "sibling s 0"] sync_at [of K 1 "g 1" "sibling s 1"]
  by (intro synced_change [OF assms(1)]) (auto simp: synced_def same_sync_def posted_def)

lemma diverge_synced:
  assumes "synced K g h s" "i = 0 \<or> i = 1" "g i = Fresh d"
  shows "synced K (g(i := Fresh True)) h (set_sib i ((sibling s i)\<lparr>diverge := True\<rparr>) s)"
  using assms by (auto simp: synced_def set_sib_def posted_def)

lemma more_synced:
  assumes "synced K g True s" "i = 0 \<or> i = 1" "g i = Posted F b n"
  shows "synced K (g(i := Posted F b (n + 1))) True (set_sib i ((sibling s i)\<lparr>num_waits := num_waits (sibling s i) + 1\<rparr>) s)"
  using assms by (auto simp: synced_def set_sib_def posted_def)

lemma cap_synced:
  assumes "synced K g True s" "i = 0 \<or> i = 1" "g i = Woken F b 2"
  shows "synced K (g(i := Capped F b)) True
    (if 1 < num_waits (sibling s i) then set_sib i ((sibling s i)\<lparr>num_waits := 1\<rparr>) s else s)"
proof -
  have "\<not> holding (sib_pc (sibling s i))" "at K i (Woken F b 2) (sibling s i)" using assms by (auto simp: synced_def)
  note at = cap_at [OF this(2,1)]
  show ?thesis
  proof (cases "1 < num_waits (sibling s i)")
    case True
    with at assms show ?thesis by (auto simp: synced_def set_sib_def posted_def)
  next
    case False
    with at assms show ?thesis by (auto simp: synced_def)
  qed
qed

lemma blocked_at:
  assumes "synced K g h s" "may_sync (g 0)" "may_sync (g 1)"
  shows "diverged s = (if blocks_sync (g 0) (m_filters s) then Some 0 else if blocks_sync (g 1) (m_filters s) then Some 1 else None)"
proof -
  have at: "at K 0 (g 0) (sibling s 0)" "at K 1 (g 1) (sibling s 1)" using assms(1) by (auto simp: synced_def)
  have "(sib_live x \<and> \<not> ancestor (t_filters x) F) = blocks_sync e F" if "at K i e x" "may_sync e" for i e x F
    using at_live(1) [OF that] at_live(2) [OF that(1)] by (auto simp: blocks_sync_def split: option.splits)
  note this [OF at(1) assms(2)] this [OF at(2) assms(3)]
  moreover have "[0..<TSYNC_SIBLINGS] = [0, 1]" by (simp add: TSYNC_SIBLINGS_def upt_rec)
  ultimately show ?thesis by (simp add: diverged_def)
qed

lemma synced_frame [simp]:
  "synced K g h (s\<lparr>m_errno := e\<rparr>) = synced K g h s" "synced K g h (s\<lparr>m_ret := r\<rparr>) = synced K g h s"
  "synced K g h (s\<lparr>m_filters := F\<rparr>) = synced K g h s" "synced K g h (s\<lparr>m_next := n\<rparr>) = synced K g h s"
  "synced K g h (s\<lparr>m_nnp := b\<rparr>) = synced K g h s" "synced K g h (s\<lparr>m_status := v\<rparr>) = synced K g h s"
  "synced K g h (s\<lparr>m_sib := i\<rparr>) = synced K g h s" "synced K g h (s\<lparr>t_destroyed := b\<rparr>) = synced K g h s"
  by (simp_all add: synced_def)

lemma diverged_frame [simp]: "diverged (s\<lparr>m_errno := e\<rparr>) = diverged s"
  by (simp add: diverged_def)

lemma known_simps [simp]: "known None v" "known (Some r) v \<longleftrightarrow> r = v"
  by (auto simp: known_def)

lemma seccomp_sound:
  assumes s: "asserts K a s" and a: "a_seccomp K flag insns a = Some a'"
  shows "asserts K a' (tseccomp K flag insns s)"
proof -
  have sync: "synced K (a_stage a) (a_holds a) s" and eq: "m_filters s = a_filters a" "m_nnp s = a_nnp a" "m_next s = a_next a"
    using s by (simp_all add: asserts_def)
  have may: "call_verdict K NR_seccomp (a_filters a) = Allowed" "a_nnp a \<or> t_admin K" "insns_ok insns"
    and sib: "flag \<Longrightarrow> may_sync (a_stage a 0)" "flag \<Longrightarrow> may_sync (a_stage a 1)"
    using a by (auto simp: a_seccomp_def split: if_splits)
  define blocked where "blocked = (if flag then diverged s else None)"
  have b: "blocked = (if \<not> flag then None else if blocks_sync (a_stage a 0) (a_filters a) then Some 0
      else if blocks_sync (a_stage a 1) (a_filters a) then Some 1 else None)"
    using blocked_at [OF sync sib] by (simp add: blocked_def eq)
  define F where "F = (a_next a, insns) # a_filters a"
  let ?s = "s\<lparr>m_errno := 0, m_ret := 0, m_filters := F, m_next := a_next a + 1\<rparr>"
  have t: "tseccomp K flag insns s = (case blocked of Some i \<Rightarrow> s\<lparr>m_errno := 0, m_ret := t_tid K i\<rparr>
      | None \<Rightarrow> if flag then ?s\<lparr>sibling := (\<lambda>i. if sib_live (sibling s i)
          then (sibling s i)\<lparr>t_filters := F, t_nnp := t_nnp (sibling s i) \<or> a_nnp a\<rparr> else sibling s i)\<rparr> else ?s)"
    using may by (cases flag; cases "diverged s") (simp_all add: tseccomp_def Let_def eq F_def blocked_def cong: if_cong)
  show ?thesis
  proof (cases blocked)
    case (Some i)
    with b have "a' = a\<lparr>a_ret := Some (t_tid K i), a_errno := Some 0\<rparr>"
      using a by (auto simp: a_seccomp_def may sib split: if_splits)
    with Some t s show ?thesis by (simp add: asserts_def)
  next
    case None
    have a': "a' = a\<lparr>a_ret := Some 0, a_errno := Some 0, a_filters := F, a_next := a_next a + 1,
        a_stage := (if flag then (\<lambda>i. sync_stage F (a_nnp a) (a_stage a i)) else a_stage a)\<rparr>"
      using a None b by (auto simp: a_seccomp_def may sib F_def Let_def split: if_splits)
    have "synced K (a_stage a) (a_holds a) ?s" using sync by simp
    note synced = this sync_synced [OF this sib, of F "a_nnp a"]
    show ?thesis
    proof (cases flag)
      case True
      with synced(2) have "synced K (a_stage a') (a_holds a') (tseccomp K flag insns s)"
        unfolding t None by (simp add: a' cong: if_cong)
      then show ?thesis using s unfolding asserts_def t None by (simp add: a' True cong: if_cong)
    next
      case False
      with synced(1) have "synced K (a_stage a') (a_holds a') (tseccomp K flag insns s)"
        unfolding t None by (simp add: a')
      then show ?thesis using s unfolding asserts_def t None by (simp add: a' False)
    qed
  qed
qed

lemma check_sound:
  assumes "asserts K a s" "a_check K a c"
  shows "cond_holds c s"
proof (cases c)
  case (Ret_is_tid i)
  have "at K 0 (a_stage a 0) (sibling s 0)" "at K 1 (a_stage a 1) (sibling s 1)"
    using assms(1) by (auto simp: asserts_def synced_def)
  then have "system_tid (sibling s i) = t_tid K i"
    using assms(2) at_live(2) [of K i "a_stage a i" "sibling s i"] by (auto simp: a_check_def Ret_is_tid)
  then show ?thesis using assms by (auto simp: asserts_def a_check_def cond_holds_def Ret_is_tid)
qed (use assms in \<open>auto simp: asserts_def a_check_def cond_holds_def\<close>)

lemma is_gone_stage: "is_gone g \<longleftrightarrow> (\<exists>v. g = Gone v)"
  by (cases g) (auto simp: is_gone_def)

text \<open>A statement leads from its assertion to the next one; the loop that waits for the siblings keeps its own.\<close>

lemma main_sound:
  assumes s: "asserts K a s" and a: "outline K st a = Some a'" and step: "main_step K st s = Some (again, t)"
  shows "asserts K (if again then a else a') t"
proof -
  have sync: "synced K (a_stage a) (a_holds a) s" using s by (simp add: asserts_def)
  have at: "at K 0 (a_stage a 0) (sibling s 0)" "at K 1 (a_stage a 1) (sibling s 1)"
    using sync by (auto simp: synced_def)
  show ?thesis
  proof (cases st)
    case Set_nnp
    with s a step show ?thesis by (auto simp: asserts_def Let_def split: if_splits)
  next
    case (Seccomp flag insns)
    with seccomp_sound [OF s] a step show ?thesis by (auto simp: Let_def)
  next
    case (Diverge i)
    then obtain d where d: "a_stage a i = Fresh d" "i = 0 \<or> i = 1" "a' = a\<lparr>a_stage := (a_stage a)(i := Fresh True)\<rparr>"
      using a by (auto simp: Let_def split: stage.splits if_splits)
    have t: "\<not> again" "t = set_sib i ((sibling s i)\<lparr>diverge := True\<rparr>) s" using step Diverge by simp_all
    from diverge_synced [OF sync d(2,1)] s show ?thesis
      by (simp add: asserts_def t d(3)) (simp add: set_sib_def)
  next
    case (Start_sibling i)
    then obtain d where d: "a_stage a i = Fresh d" "i = 0 \<or> i = 1" "d \<longrightarrow> call_verdict K NR_prctl (a_filters a) \<noteq> Killing"
      "a' = a\<lparr>a_stage := (a_stage a)(i := Early d (a_filters a) (a_nnp a))\<rparr>"
      using a by (auto simp: Let_def split: stage.splits if_splits)
    have t: "\<not> again" "t = set_sib i ((sibling s i)\<lparr>created := True, t_nnp := a_nnp a, t_filters := a_filters a\<rparr>) s"
      using step Start_sibling s by (simp_all add: asserts_def)
    from start_synced [OF sync d(2,1,3), of "a_nnp a"] s show ?thesis
      by (simp add: asserts_def t d(4)) (simp add: set_sib_def)
  next
    case Await_started
    then have e: "is_early (a_stage a 0)" "is_early (a_stage a 1)" and a': "a' = a\<lparr>a_stage := (\<lambda>i. post_stage K i (a_stage a i))\<rparr>"
      using a by (auto simp: Let_def split: if_splits)
    show ?thesis
    proof (cases "TSYNC_SIBLINGS \<le> sibling_count s")
      case True
      with await_synced [OF sync e] Await_started s step show ?thesis
        by (auto simp: asserts_def a')
    next
      case False
      then have "started s \<noteq> 0" "again" "t = s\<lparr>started := started s - 1, sibling_count := sibling_count s + 1\<rparr>"
        using Await_started step by (auto simp: split: if_splits)
      with s show ?thesis by (auto simp: asserts_def synced_def)
    qed
  next
    case Mutex_lock
    with s a step show ?thesis by (auto simp: asserts_def Let_def synced_def split: if_splits)
  next
    case Mutex_unlock
    with s a step show ?thesis by (auto simp: asserts_def Let_def synced_def split: if_splits)
  next
    case Cond_broadcast
    with s a step broadcast_synced [of K "a_stage a" s] show ?thesis
      by (auto simp: asserts_def Let_def split: if_splits)
  next
    case (Join ix)
    obtain u where u: "sib_pc (sibling s (the_index s ix)) = Ended u" "\<not> again" "t = s\<lparr>m_status := u\<rparr>"
      using Join step by (auto simp: split: sib_pc.splits)
    define i where "i = a_index a ix"
    have i: "the_index s ix = i" using s by (auto simp: i_def a_index_def the_index_def asserts_def split: index.splits)
    obtain v where v: "\<not> a_holds a" "i = 0 \<or> i = 1" "joined K (a_stage a i) = Some v"
      "a' = a\<lparr>a_stage := (a_stage a)(i := Gone v), a_status := Some v\<rparr>"
      using Join a by (auto simp: Let_def i_def split: if_splits option.splits)
    from join_synced [OF sync v(2,3) u(1) [unfolded i] v(1)] s u v show ?thesis by (auto simp: asserts_def)
  next
    case (Await_death ix)
    with s a step show ?thesis by (auto simp: Let_def split: if_splits)
  next
    case (Check assert c)
    with s a step check_sound [OF s, of c] show ?thesis by (auto simp: Let_def split: if_splits)
  next
    case Pick_sib
    then have l: "a_live (a_stage a 0) \<noteq> None" using a by (auto simp: Let_def split: option.splits if_splits)
    then have "system_tid (sibling s 0) = t_tid K 0" using at_live(2) [OF at(1)] by auto
    with Pick_sib s a step l show ?thesis by (auto simp: asserts_def Let_def split: option.splits if_splits)
  next
    case Switch_sib
    with s a step show ?thesis by (auto simp: asserts_def Let_def)
  next
    case More_waits
    define j where "j = (if a_sib a = 0 then 1 else 0 :: nat)"
    have j: "(if m_sib s = 0 then 1 else 0) = j" "j = 0 \<or> j = 1" using s by (auto simp: asserts_def j_def)
    obtain F b n where p: "a_stage a j = Posted F b n" "a_holds a" "a' = a\<lparr>a_stage := (a_stage a)(j := Posted F b (n + 1))\<rparr>"
      using More_waits a by (auto simp: outline_def j_def [symmetric] Let_def split: stage.splits if_splits)
    have t: "\<not> again" "t = set_sib j ((sibling s j)\<lparr>num_waits := num_waits (sibling s j) + 1\<rparr>) s"
      using More_waits step by (auto simp: j Let_def)
    have "synced K (a_stage a) True s" using sync p by simp
    from more_synced [OF this j(2) p(1)] s show ?thesis by (simp add: asserts_def t p) (simp add: set_sib_def)
  next
    case Cap_waits
    define j where "j = a_sib a"
    obtain F b where j: "m_sib s = j" "j = 0 \<or> j = 1" "a_stage a j = Woken F b 2" "a_holds a"
      "a' = a\<lparr>a_stage := (a_stage a)(j := Capped F b)\<rparr>"
      using Cap_waits a s by (auto simp: Let_def j_def  asserts_def split: stage.splits if_splits)
    have "synced K (a_stage a) True s" using sync j by simp
    note c = cap_synced [OF this j(2,3)]
    have t: "\<not> again" "t = (if 1 < num_waits (sibling s j) then set_sib j ((sibling s j)\<lparr>num_waits := 1\<rparr>) s else s)"
      using Cap_waits step by (auto simp: j Let_def)
    show ?thesis
    proof (cases "1 < num_waits (sibling s j)")
      case True
      with c s show ?thesis by (simp add: asserts_def t j(3-5)) (simp add: set_sib_def)
    next
      case False
      with c s show ?thesis by (simp add: asserts_def t j(3-5))
    qed
  next
    case Teardown
    with s a step show ?thesis by (auto simp: asserts_def Let_def split: if_splits)
  qed
qed

end
