(* ===== verification/Seccomp_Pass.thy ===== *)
theory Seccomp_Pass
  imports Seccomp_Tests
begin

text \<open>
  The tests of \<open>seccomp_bpf.c\<close> on a kernel that does what the documentation says.
\<close>

section \<open>Runs\<close>

lemmas test_numbers = linux_numbers SIGABRT_def SECCOMP_RET_KILL_def SECCOMP_RET_TRAP_def SECCOMP_RET_ERRNO_def
  SECCOMP_RET_TRACE_def SECCOMP_RET_ALLOW_def SECCOMP_RET_ACTION_def SECCOMP_RET_DATA_def BPF_MAXINSNS_def

lemmas test_steps = prctl_def set_nnp_def set_filter_def set_filter5_def install_def install5_def getppid_def
  read_null_def bnd_assoc

lemmas doc_calls = doc_call_def doc_plain_def doc_prctl_def doc_install_def doc_strict_def doc_seccomp_def Let_def

lemma insn_fields [simp]:
  "insn_code (BPF_STMT c v) = c" "insn_k (BPF_STMT c v) = v"
  "insn_code (BPF_JUMP c v t f) = c" "insn_k (BPF_JUMP c v t f) = v" "insn_jt (BPF_JUMP c v t f) = t"
  "insn_jf (BPF_JUMP c v t f) = f"
  by (simp_all add: BPF_STMT_def BPF_JUMP_def)

lemma insn_kinds [simp]:
  "BPF_LD_W_ABS \<noteq> BPF_JMP_JEQ_K" "BPF_LD_W_ABS \<noteq> BPF_RET_K" "BPF_JMP_JEQ_K \<noteq> BPF_RET_K"
  "BPF_JMP_JEQ_K \<noteq> BPF_LD_W_ABS" "BPF_RET_K \<noteq> BPF_LD_W_ABS" "BPF_RET_K \<noteq> BPF_JMP_JEQ_K"
  by (simp_all add: BPF_LD_W_ABS_def BPF_JMP_JEQ_K_def BPF_RET_K_def)

lemma upt_6: "[0..<6] = [0, 1, 2, 3, 4, 5]"
  by (simp add: upt_rec)

lemma load_data_simps [simp]:
  "load_data nr regs seccomp_nr = Some nr"
  "load_data nr regs (syscall_arg 0) = Some (ucast (regs ! 0))"
  "load_data nr regs (syscall_arg 5) = Some (ucast (regs ! 5))"
  by (simp_all add: load_data_def upt_6 seccomp_nr_def syscall_arg_def)

lemma load_checks [simp]:
  "seccomp_nr AND 3 = 0" "seccomp_nr < 64" "syscall_arg 0 AND 3 = 0" "syscall_arg 0 < 64"
  "syscall_arg 5 AND 3 = 0" "syscall_arg 5 < 64" "\<not> syscall_arg 6 < 64"
  by (simp_all add: seccomp_nr_def syscall_arg_def)

lemma bpf_known_simps [simp]:
  "bpf_known []" "bpf_known (RET_K v # is) = bpf_known is"
  "bpf_known (BPF_STMT BPF_LD_W_ABS v # is) = bpf_known is" "bpf_known (JEQ_K v t f # is) = bpf_known is"
  by (simp_all add: bpf_known_def)

lemma bpf_known_replicate [simp]: "bpf_known (replicate n (RET_K v))"
  by (simp add: bpf_known_def list_all_iff)

lemma insns_ok_replicate [simp]: "0 < n \<Longrightarrow> insns_ok (replicate n (RET_K v))"
proof (induction n)
  case (Suc n)
  then show ?case by (cases n) (simp_all add: insn_ok_def)
qed simp

lemma bpf_run_replicate [simp]: "0 < n \<Longrightarrow> bpf_run nr regs A (replicate n (RET_K v)) = Some v"
  by (cases n) simp_all

lemma regs_ok_nth: "regs_ok args regs \<Longrightarrow> i < length args \<Longrightarrow> i < 6 \<Longrightarrow> args ! i = Arg v \<Longrightarrow> regs ! i = v"
  by (simp add: regs_ok_def)

lemma regs_ok_rest:
  "regs_ok args regs \<Longrightarrow> length args \<le> i \<Longrightarrow> i < 6 \<Longrightarrow> (ucast (regs ! i) :: u32) \<noteq> 0x0C0FFEE"
  by (simp add: regs_ok_def)

lemma regs_ok_simps [simp]:
  "regs_ok [] regs \<Longrightarrow> (ucast (regs ! 0) :: u32) \<noteq> 0x0C0FFEE"
  "regs_ok [] regs \<Longrightarrow> (ucast (regs ! 5) :: u32) \<noteq> 0x0C0FFEE"
  using regs_ok_rest [of "[]" regs 0] regs_ok_rest [of "[]" regs 5] by simp_all

lemma regs_ok_passed [simp]:
  "regs_ok [Arg v] regs \<Longrightarrow> regs ! 0 = v"
  "regs_ok [x0, x1, x2, x3, x4, Arg v] regs \<Longrightarrow> regs ! 5 = v"
  using regs_ok_nth [of "[Arg v]" regs 0 v] regs_ok_nth [of "[x0, x1, x2, x3, x4, Arg v]" regs 5 v]
  by simp_all

lemma fprog_of_fields [simp]:
  "fprog_len (fprog_of is) = of_nat (length is)" "fprog_filter (fprog_of is) = Some is"
  by (simp_all add: fprog_of_def)

lemma runs_bnd_malloc [runs_rules]:
  "seccomp_doc lx absk \<Longrightarrow> runs absk (f True) Q a \<Longrightarrow> runs absk (bnd (libc (libc_malloc lx)) f) Q a"
  by (rule runs_bnd_libc [where t = "kern a"]) (simp add: seccomp_doc_def)

lemma runs_bnd_getpid [runs_rules]:
  "seccomp_doc lx absk \<Longrightarrow> runs absk (f (the_pid (kern a))) Q a \<Longrightarrow> runs absk (bnd (libc (libc_getpid lx)) f) Q a"
  by (rule runs_bnd_libc [where t = "kern a"]) (simp add: seccomp_doc_def)

lemma runs_bnd_sigaction [runs_rules]:
  "seccomp_doc lx absk \<Longrightarrow> g = SIGSYS \<Longrightarrow> runs absk (f 0) Q (a\<lparr>kern := (kern a)\<lparr>sigsys := d\<rparr>\<rparr>) \<Longrightarrow>
   runs absk (bnd (libc (libc_sigaction lx g d)) f) Q a"
  by (rule runs_bnd_libc [where t = "(kern a)\<lparr>sigsys := d\<rparr>"]) (simp add: seccomp_doc_def)

lemma runs_bnd_unblock [runs_rules]:
  "seccomp_doc lx absk \<Longrightarrow> runs absk (f 0) Q a \<Longrightarrow> runs absk (bnd (libc (libc_unblock lx g)) f) Q a"
  by (rule runs_bnd_libc [where t = "kern a"]) (simp add: seccomp_doc_def)

lemma runs_bnd_free [runs_rules]:
  "seccomp_doc lx absk \<Longrightarrow> runs absk (f ()) Q a \<Longrightarrow> runs absk (bnd (libc (\<lambda>s. ((), libc_free lx s))) f) Q a"
  by (rule runs_bnd_libc [where t = "kern a"]) (simp add: seccomp_doc_def)

text \<open>Reading and writing the process.\<close>

lemma runs_bnd_ret [runs_rules]: "runs absk (f x) Q a \<Longrightarrow> runs absk (bnd (ret x) f) Q a"
  by simp

lemma bnd_Pair [simp]: "bnd (Pair (Inr x)) f = f x"
  by (simp add: bnd_def fun_eq_iff)

lemma runs_bnd_passed [runs_rules]:
  assumes "runs absk (f (passed a)) Q a"
  shows "runs absk (bnd passed_of f) Q a"
proof -
  have "passed p = passed a" if "view absk p = a" for p using that by (auto simp: view_def)
  then show ?thesis using assms by (simp add: runs_def bnd_def passed_of_def)
qed

lemma runs_bnd_clear_TRAP [runs_rules]:
  assumes "runs absk (f ()) Q (a\<lparr>TRAP_nr := 0, TRAP_info := \<lparr>si_signo = 0, si_call_addr = 0, si_syscall = 0, si_arch = 0\<rparr>\<rparr>)"
  shows "runs absk (bnd clear_TRAP f) Q a"
  using assms by (auto simp: runs_def bnd_def clear_TRAP_def view_def)

lemma runs_bnd_get_TRAP [runs_rules]:
  assumes "runs absk (f (TRAP_nr a, TRAP_info a)) Q a"
  shows "runs absk (bnd get_TRAP f) Q a"
  using assms by (auto simp: runs_def bnd_def get_TRAP_def view_def)

text \<open>The part of the child behind the test.\<close>

definition exit_passed :: "'k linux \<Rightarrow> unit \<Rightarrow> ('k, int) tprog" where
  "exit_passed lx u = bnd passed_of (\<lambda>code. sys lx NR_exit_group [Arg (of_int code)])"

definition init :: "sk \<Rightarrow> sk tproc" where
  "init s = (start s)\<lparr>passed := 1\<rparr>"

definition verdict_ok :: "int \<Rightarrow> ending + int \<Rightarrow> sk tproc \<Rightarrow> bool" where
  "verdict_ok sig r b \<longleftrightarrow> run_verdict sig (Some (status_of r)) = 1"

lemma run_test_ok:
  assumes "seccomp_doc lx absk" "forks_fresh lx absk s"
    and "\<And>s. fresh s \<Longrightarrow> runs absk (bnd body (exit_passed lx)) (verdict_ok sig) (init s)"
  shows "run_test lx sig body s = 1"
proof -
  obtain c where c: "fork_child lx s = Some c" "fresh (absk c)"
    using assms(2) by (auto simp: forks_fresh_def)
  let ?p = "(start c)\<lparr>passed := 1, trigger := 0\<rparr>"
  have "view absk ?p = init (absk c)" by (simp add: view_def init_def start_def)
  moreover have "child lx body (start c) = bnd body (exit_passed lx) ?p"
  proof -
    have "exit_passed lx = (\<lambda>_. bnd passed_of (\<lambda>code. sys lx NR_exit_group [Arg (of_int code)]))"
      by (simp add: exit_passed_def fun_eq_iff)
    then show ?thesis by (simp add: child_def)
  qed
  ultimately show ?thesis
    using assms(3) [OF c(2), unfolded runs_def verdict_ok_def] c(1) by (auto simp: run_test_def)
qed

lemma runs_exit [runs_rules]:
  assumes "seccomp_doc lx absk"
    and "\<And>regs. regs_ok [Arg (of_int (passed a))] regs \<Longrightarrow>
      (case doc_call (NR lx) NR_exit_group [Arg (of_int (passed a))] regs (kern a) of None \<Rightarrow> False
       | Some (r, t) \<Rightarrow> Q (sys_value r) (sys_state r t a))"
  shows "runs absk (exit_passed lx u) Q a"
proof -
  have "runs absk (sys lx NR_exit_group [Arg (of_int (passed a))]) Q a"
    using assms by (rule runs_sys)
  moreover have "passed p = passed a" if "view absk p = a" for p using that by (auto simp: view_def)
  ultimately show ?thesis by (simp add: runs_def exit_passed_def bnd_def passed_of_def)
qed

lemma process_simps [simp]:
  "passed (init s) = 1" "trigger (init s) = 0" "errno (init s) = 0" "kern (init s) = s"
  by (simp_all add: init_def start_def)

lemma outcome_simps [simp]:
  "sys_value (Ret v) = Inr v" "sys_value (Err e) = Inr (-1)" "sys_value (Died d) = Inl d"
  "sys_value (Handled info v) = Inr v"
  "sys_state (Ret v) t a = a\<lparr>kern := t\<rparr>" "sys_state (Err e) t a = a\<lparr>errno := e, kern := t\<rparr>"
  "sys_state (Died d) t a = a\<lparr>kern := t\<rparr>" "sys_state (Handled info v) t a = TRAP_action info a\<lparr>kern := t\<rparr>"
  by (simp_all add: sys_value_def sys_state_def)

lemma verdict_simps [simp]:
  "verdict_ok (-1) (Inl (Exit_Status 1)) b"
  "sig \<noteq> SIGABRT \<Longrightarrow> verdict_ok sig (Inl (Term_Signal sig)) b"
  by (simp_all add: verdict_ok_def run_verdict_def status_of_def)

lemma NR_inj: "seccomp_doc lx absk \<Longrightarrow> inj (NR lx)"
  by (simp add: seccomp_doc_def)

definition good_test :: "'k linux \<Rightarrow> ('k \<Rightarrow> sk) \<Rightarrow> int \<Rightarrow> 'k test \<Rightarrow> bool" where
  "good_test lx absk sig body \<longleftrightarrow> (\<forall>s. fresh s \<longrightarrow> runs absk (bnd body (exit_passed lx)) (verdict_ok sig) (init s))"

lemmas test_eval = good_test_def TRAP_case_def precedence_case_def fresh_def allow_def kill_if_arg_def errno_for_read_def
  with_fixture_def TRAP_setup_def TRAP_teardown_def filter_alloc_def filter_free_def
  TRAP_action_def on_getpid_def precedence_setup_def precedence_teardown_def install_in_order_def seccomp_def test_steps doc_calls test_numbers insn_ok_def inj_eq

lemma good_mode_strict_support: "seccomp_doc lx absk \<Longrightarrow> good_test lx absk (- 1) (mode_strict_support lx)"
  by (frule NR_inj) (auto simp: mode_strict_support_def test_eval intro!: runs_rules)

lemma good_mode_strict_cannot_call_prctl: "seccomp_doc lx absk \<Longrightarrow> good_test lx absk SIGKILL (mode_strict_cannot_call_prctl lx)"
  by (frule NR_inj) (auto simp: mode_strict_cannot_call_prctl_def test_eval intro!: runs_rules)

lemma good_no_new_privs_support: "seccomp_doc lx absk \<Longrightarrow> good_test lx absk (- 1) (no_new_privs_support lx)"
  by (frule NR_inj) (auto simp: no_new_privs_support_def test_eval intro!: runs_rules)

lemma good_mode_filter_support: "seccomp_doc lx absk \<Longrightarrow> good_test lx absk (- 1) (mode_filter_support lx)"
  by (frule NR_inj) (auto simp: mode_filter_support_def test_eval intro!: runs_rules)

lemma good_mode_filter_without_nnp: "seccomp_doc lx absk \<Longrightarrow> good_test lx absk (- 1) (mode_filter_without_nnp lx)"
  by (frule NR_inj) (auto simp: mode_filter_without_nnp_def test_eval intro!: runs_rules)

lemma good_filter_size_limits: "seccomp_doc lx absk \<Longrightarrow> good_test lx absk (- 1) (filter_size_limits lx)"
  by (frule NR_inj) (auto simp: filter_size_limits_def test_eval intro!: runs_rules)

lemma good_mode_filter_cannot_move_to_strict: "seccomp_doc lx absk \<Longrightarrow> good_test lx absk (- 1) (mode_filter_cannot_move_to_strict lx)"
  by (frule NR_inj) (auto simp: mode_filter_cannot_move_to_strict_def test_eval intro!: runs_rules)

lemma good_mode_filter_get_seccomp: "seccomp_doc lx absk \<Longrightarrow> good_test lx absk (- 1) (mode_filter_get_seccomp lx)"
  by (frule NR_inj) (auto simp: mode_filter_get_seccomp_def test_eval intro!: runs_rules)

lemma good_ALLOW_all: "seccomp_doc lx absk \<Longrightarrow> good_test lx absk (- 1) (ALLOW_all lx)"
  by (frule NR_inj) (auto simp: ALLOW_all_def test_eval intro!: runs_rules)

lemma good_empty_prog: "seccomp_doc lx absk \<Longrightarrow> good_test lx absk (- 1) (empty_prog lx)"
  by (frule NR_inj) (auto simp: empty_prog_def test_eval intro!: runs_rules)

lemma good_unknown_ret_is_kill_inside: "seccomp_doc lx absk \<Longrightarrow> good_test lx absk SIGSYS (unknown_ret_is_kill_inside lx)"
  by (frule NR_inj) (auto simp: unknown_ret_is_kill_inside_def test_eval intro!: runs_rules)

lemma good_unknown_ret_is_kill_above_allow: "seccomp_doc lx absk \<Longrightarrow> good_test lx absk SIGSYS (unknown_ret_is_kill_above_allow lx)"
  by (frule NR_inj) (auto simp: unknown_ret_is_kill_above_allow_def test_eval intro!: runs_rules)

lemma good_KILL_all: "seccomp_doc lx absk \<Longrightarrow> good_test lx absk SIGSYS (KILL_all lx)"
  by (frule NR_inj) (auto simp: KILL_all_def test_eval intro!: runs_rules)

lemma good_KILL_one: "seccomp_doc lx absk \<Longrightarrow> good_test lx absk SIGSYS (KILL_one lx)"
  by (frule NR_inj) (auto simp: KILL_one_def test_eval intro!: runs_rules)

lemma good_KILL_one_arg_one: "seccomp_doc lx absk \<Longrightarrow> good_test lx absk SIGSYS (KILL_one_arg_one lx)"
  by (frule NR_inj) (auto simp: KILL_one_arg_one_def test_eval intro!: runs_rules)

lemma good_KILL_one_arg_six: "seccomp_doc lx absk \<Longrightarrow> good_test lx absk SIGSYS (KILL_one_arg_six lx)"
  by (frule NR_inj) (auto simp: KILL_one_arg_six_def test_eval intro!: runs_rules)

lemma good_arg_out_of_range: "seccomp_doc lx absk \<Longrightarrow> good_test lx absk (- 1) (arg_out_of_range lx)"
  by (frule NR_inj) (auto simp: arg_out_of_range_def test_eval intro!: runs_rules)

lemma good_ERRNO_valid: "seccomp_doc lx absk \<Longrightarrow> good_test lx absk (- 1) (ERRNO_valid lx)"
  by (frule NR_inj) (auto simp: ERRNO_valid_def test_eval intro!: runs_rules)

lemma good_ERRNO_zero: "seccomp_doc lx absk \<Longrightarrow> good_test lx absk (- 1) (ERRNO_zero lx)"
  by (frule NR_inj) (auto simp: ERRNO_zero_def test_eval intro!: runs_rules)

lemma good_ERRNO_capped: "seccomp_doc lx absk \<Longrightarrow> good_test lx absk (- 1) (ERRNO_capped lx)"
  by (frule NR_inj) (auto simp: ERRNO_capped_def test_eval intro!: runs_rules)


lemma good_TRAP_dfl: "seccomp_doc lx absk \<Longrightarrow> good_test lx absk SIGSYS (TRAP_case lx (TRAP_dfl lx))"
  by (frule NR_inj) (auto simp: TRAP_dfl_def test_eval intro!: runs_rules)

lemma good_TRAP_ign: "seccomp_doc lx absk \<Longrightarrow> good_test lx absk SIGSYS (TRAP_case lx (TRAP_ign lx))"
  by (frule NR_inj) (auto simp: TRAP_ign_def test_eval intro!: runs_rules)

lemma good_TRAP_handler_test: "seccomp_doc lx absk \<Longrightarrow> good_test lx absk (- 1) (TRAP_case lx (TRAP_handler_test lx))"
  by (frule NR_inj) (auto simp: TRAP_handler_test_def test_eval intro!: runs_rules)

lemma good_precedence_allow_ok: "seccomp_doc lx absk \<Longrightarrow> good_test lx absk (- 1) (precedence_case lx (precedence_allow_ok lx))"
  by (frule NR_inj) (auto simp: precedence_allow_ok_def test_eval intro!: runs_rules)

lemma good_kill_is_highest: "seccomp_doc lx absk \<Longrightarrow> good_test lx absk SIGSYS (precedence_case lx (kill_is_highest lx))"
  by (frule NR_inj) (auto simp: kill_is_highest_def test_eval intro!: runs_rules)

lemma good_kill_is_highest_in_any_order: "seccomp_doc lx absk \<Longrightarrow> good_test lx absk SIGSYS (precedence_case lx (kill_is_highest_in_any_order lx))"
  by (frule NR_inj) (auto simp: kill_is_highest_in_any_order_def test_eval intro!: runs_rules)

lemma good_trap_is_second: "seccomp_doc lx absk \<Longrightarrow> good_test lx absk SIGSYS (precedence_case lx (trap_is_second lx))"
  by (frule NR_inj) (auto simp: trap_is_second_def test_eval intro!: runs_rules)

lemma good_trap_is_second_in_any_order: "seccomp_doc lx absk \<Longrightarrow> good_test lx absk SIGSYS (precedence_case lx (trap_is_second_in_any_order lx))"
  by (frule NR_inj) (auto simp: trap_is_second_in_any_order_def test_eval intro!: runs_rules)

lemma good_errno_is_third: "seccomp_doc lx absk \<Longrightarrow> good_test lx absk (- 1) (precedence_case lx (errno_is_third lx))"
  by (frule NR_inj) (auto simp: errno_is_third_def test_eval intro!: runs_rules)

lemma good_errno_is_third_in_any_order: "seccomp_doc lx absk \<Longrightarrow> good_test lx absk (- 1) (precedence_case lx (errno_is_third_in_any_order lx))"
  by (frule NR_inj) (auto simp: errno_is_third_in_any_order_def test_eval intro!: runs_rules)

lemma good_trace_is_fourth: "seccomp_doc lx absk \<Longrightarrow> good_test lx absk (- 1) (precedence_case lx (trace_is_fourth lx))"
  by (frule NR_inj) (auto simp: trace_is_fourth_def test_eval intro!: runs_rules)

lemma good_trace_is_fourth_in_any_order: "seccomp_doc lx absk \<Longrightarrow> good_test lx absk (- 1) (precedence_case lx (trace_is_fourth_in_any_order lx))"
  by (frule NR_inj) (auto simp: trace_is_fourth_in_any_order_def test_eval intro!: runs_rules)

lemma good_seccomp_syscall: "seccomp_doc lx absk \<Longrightarrow> good_test lx absk (- 1) (seccomp_syscall lx)"
  by (frule NR_inj) (auto simp: seccomp_syscall_def test_eval intro!: runs_rules)

lemma good_seccomp_syscall_mode_lock: "seccomp_doc lx absk \<Longrightarrow> good_test lx absk (- 1) (seccomp_syscall_mode_lock lx)"
  by (frule NR_inj) (auto simp: seccomp_syscall_mode_lock_def test_eval intro!: runs_rules)

lemma good_TSYNC_first: "seccomp_doc lx absk \<Longrightarrow> good_test lx absk (- 1) (TSYNC_first lx)"
  by (frule NR_inj) (auto simp: TSYNC_first_def test_eval intro!: runs_rules)

section \<open>The limit of a chain of filters\<close>

abbreviation big :: "sock_filter list" where "big \<equiv> replicate 4096 (RET_K SECCOMP_RET_ALLOW)"

lemma decide_allow: "fs \<noteq> [] \<Longrightarrow> \<forall>f\<in>set fs. \<exists>n>0. f = replicate n (RET_K SECCOMP_RET_ALLOW) \<Longrightarrow>
   decide nr regs fs = Some SECCOMP_RET_ALLOW"
proof (induction fs)
  case (Cons f fs)
  then show ?case by (cases fs) auto
qed simp

lemma chain_decides: "0 < m \<Longrightarrow> decide nr regs (replicate k big @ [replicate m (RET_K SECCOMP_RET_ALLOW)]) = Some SECCOMP_RET_ALLOW"
  by (rule decide_allow) auto

lemma chain_step:
  assumes "seccomp_doc lx absk" "nnp (kern a)" "\<not> strict (kern a)"
    and fs: "filters (kern a) = replicate k big @ [[RET_K SECCOMP_RET_ALLOW]]"
    and go: "k < 7 \<Longrightarrow> runs absk (f 0) Q (a\<lparr>kern := (kern a)\<lparr>filters := replicate (Suc k) big @ [[RET_K SECCOMP_RET_ALLOW]]\<rparr>\<rparr>)"
    and stop: "7 \<le> k \<Longrightarrow> runs absk (f (-1)) Q (a\<lparr>errno := ENOMEM\<rparr>)"
  shows "runs absk (bnd (set_filter5 lx \<lparr>fprog_len = 4096, fprog_filter = Some big\<rparr>) f) Q a"
proof -
  have d: "decide nr regs (filters (kern a)) = Some SECCOMP_RET_ALLOW" for nr regs
    using chain_decides [of 1 nr regs k] fs by simp
  have n: "(\<Sum>f\<leftarrow>filters (kern a). length f + 4) = k * 4100 + 5"
    by (simp add: fs sum_list_replicate)
  have "doc_call (NR lx) NR_prctl args regs (kern a) = doc_prctl args (kern a)" for args regs
    using assms(3) by (simp add: doc_call_def d doc_plain_def SECCOMP_RET_ACTION_def SECCOMP_RET_ALLOW_def)
  moreover have "doc_prctl [Arg PR_SET_SECCOMP, Arg SECCOMP_MODE_FILTER,
      Fprog \<lparr>fprog_len = 4096, fprog_filter = Some big\<rparr>, Arg 0, Arg 0] (kern a) =
    Some (if k < 7 then (Ret 0, (kern a)\<lparr>filters := big # filters (kern a)\<rparr>) else (Err ENOMEM, kern a))"
    using assms(2) n by (simp add: doc_prctl_def doc_install_def Let_def linux_numbers BPF_MAXINSNS_def)
  ultimately have "doc_call (NR lx) NR_prctl [Arg PR_SET_SECCOMP, Arg SECCOMP_MODE_FILTER,
      Fprog \<lparr>fprog_len = 4096, fprog_filter = Some big\<rparr>, Arg 0, Arg 0] regs (kern a) =
    Some (if k < 7 then (Ret 0, (kern a)\<lparr>filters := replicate (Suc k) big @ [[RET_K SECCOMP_RET_ALLOW]]\<rparr>)
      else (Err ENOMEM, kern a))" for regs
    by (simp add: fs)
  then show ?thesis
    unfolding set_filter5_def prctl_def using go stop
    by (intro runs_bnd_sys [OF assms(1)]) auto
qed

lemma chain_run:
  assumes "seccomp_doc lx absk" "nnp (kern a)" "\<not> strict (kern a)" "k \<le> 7" "7 - k < n"
    and "filters (kern a) = replicate k big @ [[RET_K SECCOMP_RET_ALLOW]]"
    and "runs absk (f (-1)) Q
      (a\<lparr>errno := ENOMEM, kern := (kern a)\<lparr>filters := replicate 7 big @ [[RET_K SECCOMP_RET_ALLOW]]\<rparr>\<rparr>)"
  shows "runs absk (bnd (chain_loop lx \<lparr>fprog_len = 4096, fprog_filter = Some big\<rparr> n rc) f) Q a"
  using assms(2-)
proof (induction n arbitrary: k a rc)
  case (Suc n)
  have k7: "7 \<le> k \<Longrightarrow> k = 7" using Suc.prems(3) by simp
  show ?case
    unfolding chain_loop.simps bnd_assoc
  proof (rule chain_step [OF assms(1) Suc.prems(1,2,5)])
    assume k: "k < 7"
    show "runs absk (bnd (if (0 :: int) \<noteq> 0 then ret 0
        else chain_loop lx \<lparr>fprog_len = 4096, fprog_filter = Some big\<rparr> n 0) f) Q
      (a\<lparr>kern := (kern a)\<lparr>filters := replicate (Suc k) big @ [[RET_K SECCOMP_RET_ALLOW]]\<rparr>\<rparr>)"
      using Suc.prems k by (simp del: replicate.simps) (rule Suc.IH [where k = "Suc k"]; simp del: replicate.simps)
  next
    assume "7 \<le> k"
    then show "runs absk (bnd (if (-1 :: int) \<noteq> 0 then ret (-1)
        else chain_loop lx \<lparr>fprog_len = 4096, fprog_filter = Some big\<rparr> n (-1)) f) Q
      (a\<lparr>errno := ENOMEM\<rparr>)"
      using Suc.prems(5,6) k7 by (cases a; cases "kern a") simp
  qed
qed simp

lemmas chain_all = chain_run [where k = 0, simplified SECCOMP_RET_ALLOW_def ENOMEM_def, simplified]
  and chain_allows = chain_decides [of 1, simplified, unfolded SECCOMP_RET_ALLOW_def]

lemma good_filter_chain_limits: "seccomp_doc lx absk \<Longrightarrow> good_test lx absk (- 1) (filter_chain_limits lx)"
  by (frule NR_inj) (auto simp: filter_chain_limits_def chain_allows MAX_INSNS_PER_PATH_def test_eval intro!: chain_all runs_rules)

section \<open>The suite\<close>

lemmas all_good = good_mode_strict_support good_mode_strict_cannot_call_prctl good_no_new_privs_support
  good_mode_filter_support good_mode_filter_without_nnp good_filter_size_limits
  good_filter_chain_limits good_mode_filter_cannot_move_to_strict good_mode_filter_get_seccomp
  good_ALLOW_all good_empty_prog good_unknown_ret_is_kill_inside
  good_unknown_ret_is_kill_above_allow good_KILL_all good_KILL_one
  good_KILL_one_arg_one good_KILL_one_arg_six good_arg_out_of_range
  good_ERRNO_valid good_ERRNO_zero good_ERRNO_capped
  good_TRAP_dfl good_TRAP_ign good_TRAP_handler_test
  good_precedence_allow_ok good_kill_is_highest good_kill_is_highest_in_any_order
  good_trap_is_second good_trap_is_second_in_any_order good_errno_is_third
  good_errno_is_third_in_any_order good_trace_is_fourth good_trace_is_fourth_in_any_order
  good_seccomp_syscall good_seccomp_syscall_mode_lock good_TSYNC_first

lemma suite_good:
  assumes "seccomp_doc lx absk"
  shows "\<forall>(sig, body)\<in>set (single_process_tests lx). good_test lx absk sig body"
  by (simp add: single_process_tests_def all_good [OF assms])

lemma good_passes: "seccomp_doc lx absk \<Longrightarrow> forks_fresh lx absk s \<Longrightarrow> good_test lx absk sig body \<Longrightarrow> run_test lx sig body s = 1"
  by (rule run_test_ok) (auto simp: good_test_def)

lemma run_all_ones:
  assumes "\<And>t s. t \<in> set ts \<Longrightarrow> P s \<Longrightarrow> fst (run t s) = 1 \<and> P (snd (run t s))" "P s"
  shows "fst (run_all run ts s) = replicate (length ts) 1"
  using assms
proof (induction ts arbitrary: s)
  case (Cons t ts)
  have "fst (run t s) = 1" "P (snd (run t s))" using Cons.prems by auto
  with Cons.IH [of "snd (run t s)"] Cons.prems(1) show ?case by (simp add: case_prod_beta Let_def)
qed simp

text \<open>The number of a test is its place in the list; \<open>after t\<close> is what running it does to the process of the
  harness.\<close>

definition run_number :: "'k linux \<Rightarrow> (nat \<Rightarrow> 'k \<Rightarrow> 'k) \<Rightarrow> nat \<Rightarrow> 'k \<Rightarrow> int \<times> 'k" where
  "run_number lx after t s = (case single_process_tests lx ! t of (sig, body) \<Rightarrow> (run_test lx sig body s, after t s))"


text \<open>A kernel that is nothing but its documentation: what is left open fails.\<close>

definition doc_regs :: "sysarg list \<Rightarrow> u64 list" where
  "doc_regs args = take 6 (map (\<lambda>a. case a of Arg v \<Rightarrow> v | Fprog f \<Rightarrow> 1) args @ replicate 6 0)"

definition doc_NR :: "sysno \<Rightarrow> u32" where
  "doc_NR n = (case n of NR_read \<Rightarrow> 0 | NR_getpid \<Rightarrow> 39 | NR_getppid \<Rightarrow> 110 | NR_geteuid \<Rightarrow> 107 | NR_gettid \<Rightarrow> 186
     | NR_prctl \<Rightarrow> 157 | NR_seccomp \<Rightarrow> 317 | NR_exit \<Rightarrow> 60 | NR_exit_group \<Rightarrow> 231)"

definition doc_linux :: "sk linux" where
  "doc_linux = \<lparr>NR = doc_NR, arg_regs = (\<lambda>args s. doc_regs args),
     syscall = (\<lambda>n args s. case doc_call doc_NR n args (doc_regs args) s of Some r \<Rightarrow> r | None \<Rightarrow> (Err ENOSYS, s)),
     libc_malloc = (\<lambda>s. (True, s)), libc_free = (\<lambda>s. s), libc_getpid = (\<lambda>s. (the_pid s, s)),
     libc_sigaction = (\<lambda>g d s. (0, s\<lparr>sigsys := d\<rparr>)), libc_unblock = (\<lambda>g s. (0, s)),
     libc_fprintf = (\<lambda>s. (None, s)), libc_abort = (\<lambda>s. (Term_Signal SIGABRT, s)), fork_child = Some\<rparr>"

definition fresh_process :: sk where
  "fresh_process = \<lparr>nnp = False, strict = False, filters = [], admin = False, sigsys = SIG_DFL, the_pid = 100,
     the_ppid = 99, the_euid = 1000, trap_addr = 0x400000, trap_arch = 0xC000003E, trap_value = 39\<rparr>"

lemma doc_regs_ok: "regs_ok args (doc_regs args)"
proof -
  have "doc_regs args ! i = (if i < length args then case args ! i of Arg v \<Rightarrow> v | Fprog f \<Rightarrow> 1 else 0)" if "i < 6" for i
    using that by (simp add: doc_regs_def nth_append)
  moreover have "length (doc_regs args) = 6" by (simp add: doc_regs_def)
  ultimately show ?thesis by (simp add: regs_ok_def)
qed

lemma doc_linux_doc: "seccomp_doc doc_linux id"
proof -
  have "inj doc_NR" by (rule injI) (auto simp: doc_NR_def split: sysno.splits)
  then show ?thesis by (simp add: seccomp_doc_def doc_linux_def doc_regs_ok)
qed


end
