(* ===== verification/Seccomp_Schedule.thy ===== *)
theory Seccomp_Schedule
  imports Seccomp_Sync Seccomp_Pass
begin

text \<open>
  All schedules of the \<open>TSYNC\<close> tests: no deadlock, an end, and the result at the end.
\<close>

section \<open>The threads never block one another for good\<close>

lemma holding_created: "at K i g x \<Longrightarrow> holding (sib_pc x) \<Longrightarrow> created x"
  by (cases g) (auto simp: holding_def)

lemma sibling_moves:
  assumes "i = 0 \<or> i = 1" "\<not> t_aborted s" "created (sibling s i)" "sib_step K i s \<noteq> None"
  shows "\<exists>w c. thread_step K w (st # rest, s) = Some c"
  using assms by (auto simp: thread_step_def two_siblings intro!: exI [of _ "Sibling i"])

lemma holder_moves: "holding (sib_pc (sibling s i)) \<Longrightarrow> sib_step K i s \<noteq> None"
  by (cases "sib_pc (sibling s i)") (auto simp: holding_def sib_step_def Let_def split: verdict.splits)

text \<open>While the main thread does not hold the mutex, a sibling that neither waits for the broadcast nor has
  ended can go on, or the other one, which holds the mutex, can.\<close>

lemma some_sibling_moves:
  assumes sync: "synced K g False s" and "\<not> t_aborted s" and i: "i = 0 \<or> i = 1" "created (sibling s i)"
    and pc: "sib_pc (sibling s i) \<noteq> In_wait" "\<not> ended (sibling s i)"
  shows "\<exists>w c. thread_step K w (st # rest, s) = Some c"
proof (cases "mutex s")
  case None
  then have "sib_step K i s \<noteq> None"
    using pc by (cases "sib_pc (sibling s i)") (auto simp: sib_step_def Let_def ended_def split: verdict.splits)
  with assms show ?thesis by (intro sibling_moves)
next
  case (Some w)
  then obtain j where j: "w = Sibling j" "j = 0 \<or> j = 1"
    using sync by (cases w) (auto simp: synced_def)
  then have h: "holding (sib_pc (sibling s j))" using sync Some by (auto simp: synced_def)
  moreover have "created (sibling s j)"
    using j(2) sync h holding_created [of K 0 "g 0" "sibling s 0"] holding_created [of K 1 "g 1" "sibling s 1"]
    by (auto simp: synced_def)
  ultimately show ?thesis using j assms(2) holder_moves by (intro sibling_moves)
qed

lemma early_moves: "at K i g x \<Longrightarrow> is_early g \<Longrightarrow> posted x = 0 \<Longrightarrow> created x \<and> sib_pc x \<noteq> In_wait \<and> \<not> ended x"
  by (cases g; cases "sib_pc x") (auto simp: is_early_def posted_def ended_def early_pc_def)

lemma joined_moves: "at K i g x \<Longrightarrow> joined K g = Some v \<Longrightarrow> created x \<and> sib_pc x \<noteq> In_wait"
  by (cases g; cases "sib_pc x") (auto simp: joined_def woken_pc_def split: if_splits)

lemma progress:
  assumes s: "asserts K a s" and a: "outline K st a = Some a'"
  shows "\<exists>w c. thread_step K w (st # rest, s) = Some c"
proof (cases "main_step K st s")
  case (Some r)
  with s show ?thesis
    by (cases r) (auto simp: asserts_def thread_step_def intro!: exI [of _ Main_Thread])
next
  case None
  have sync: "synced K (a_stage a) (a_holds a) s" and alive: "\<not> t_aborted s" using s by (simp_all add: asserts_def)
  then have at: "at K 0 (a_stage a 0) (sibling s 0)" "at K 1 (a_stage a 1) (sibling s 1)"
    by (simp_all add: synced_def)
  show ?thesis
  proof (cases st)
    case Await_started
    then have e: "is_early (a_stage a 0)" "is_early (a_stage a 1)" "\<not> a_holds a"
      using a by (auto split: if_splits)
    have "started s = 0" "sibling_count s < 2" using None Await_started by (auto simp: TSYNC_SIBLINGS_def split: if_splits)
    moreover have "started s + sibling_count s = posted (sibling s 0) + posted (sibling s 1)"
      using sync by (simp add: synced_def)
    ultimately have "posted (sibling s 0) = 0 \<or> posted (sibling s 1) = 0" by arith
    then show ?thesis
    proof
      assume "posted (sibling s 0) = 0"
      from early_moves [OF at(1) e(1) this] sync e(3) alive show ?thesis
        by (intro some_sibling_moves [of K "a_stage a" s 0]) simp_all
    next
      assume "posted (sibling s 1) = 0"
      from early_moves [OF at(2) e(2) this] sync e(3) alive show ?thesis
        by (intro some_sibling_moves [of K "a_stage a" s 1]) simp_all
    qed
  next
    case Mutex_lock
    then obtain w where "mutex s = Some w" "\<not> a_holds a" using None a by (auto split: if_splits)
    with sync obtain i where i: "i = 0 \<or> i = 1" "holding (sib_pc (sibling s i))"
      by (cases w) (auto simp: synced_def)
    have "created (sibling s i)"
      using i holding_created [OF at(1)] holding_created [OF at(2)] by auto
    with i alive holder_moves show ?thesis by (intro sibling_moves)
  next
    case (Join ix)
    define i where "i = a_index a ix"
    have "the_index s ix = i" using s by (auto simp: i_def a_index_def the_index_def asserts_def split: index.splits)
    then have ne: "\<not> ended (sibling s i)" using None Join by (auto simp: ended_def split: sib_pc.splits)
    obtain v where v: "\<not> a_holds a" "i = 0 \<or> i = 1" "joined K (a_stage a i) = Some v"
      using Join a by (auto simp: i_def Let_def split: if_splits option.splits)
    have "at K i (a_stage a i) (sibling s i)" using at v(2) by auto
    from joined_moves [OF this v(3)] sync v alive ne show ?thesis by (intro some_sibling_moves) simp_all
  next
    case (Await_death ix)
    define i where "i = a_index a ix"
    have i: "the_index s ix = i" using s by (auto simp: i_def a_index_def the_index_def asserts_def split: index.splits)
    have "i = 0 \<or> i = 1" "is_gone (a_stage a i)" using Await_death a by (auto simp: i_def Let_def split: if_splits)
    then have "ended (sibling s i)" using at by (auto simp: is_gone_stage ended_def)
    with None Await_death show ?thesis by (simp add: i)
  qed (use None in \<open>auto simp: Let_def\<close>)
qed

section \<open>Every schedule ends\<close>

definition sib_rank :: "tsync_sibling \<Rightarrow> nat" where
  "sib_rank x =
     (if \<not> created x then 40
      else let n = nat (num_waits x) in
        (case sib_pc x of At_gettid \<Rightarrow> 39 | At_lock \<Rightarrow> 38 | At_diverge \<Rightarrow> 37 | At_post \<Rightarrow> 36 | At_failed \<Rightarrow> 35
         | At_wait \<Rightarrow> 4 * n + 5 | In_wait \<Rightarrow> 4 * n + 4 | At_relock \<Rightarrow> 4 * n + 3 | At_count \<Rightarrow> 4 * n + 2
         | At_unlock \<Rightarrow> 5 | At_get_nnp \<Rightarrow> 4 | At_read \<Rightarrow> 3 | Ended v \<Rightarrow> 0))"

definition config_rank :: "stmt list \<times> tsync \<Rightarrow> nat" where
  "config_rank c = (case c of (rest, s) \<Rightarrow>
     50 * length rest + sib_rank (sibling s 0) + sib_rank (sibling s 1) + (TSYNC_SIBLINGS - sibling_count s))"

lemma sib_step_rank:
  assumes "sib_step K i s = Some t" "at K i g (sibling s i)" "\<not> spurious K" "created (sibling s i)"
  shows "sib_rank (sibling t i) < sib_rank (sibling s i)"
proof -
  have "sib_pc (sibling s i) = At_count \<Longrightarrow> num_waits (sibling s i) = 1 \<or> num_waits (sibling s i) = 2"
    "sib_pc (sibling s i) = At_post \<Longrightarrow> num_waits (sibling s i) = 1"
    using assms(2) by (cases g; auto simp: early_pc_def woken_pc_def)+
  with assms(1,3,4) show ?thesis
    by (cases "sib_pc (sibling s i)")
      (auto simp: sib_step_def set_sib_def Let_def sib_rank_def split: if_splits verdict.splits)
qed

lemma rank_same:
  "sib_rank (x\<lparr>diverge := b\<rparr>) = sib_rank x" "sib_rank (x\<lparr>t_filters := F, t_nnp := b\<rparr>) = sib_rank x"
  "sib_pc x = At_gettid \<Longrightarrow> sib_rank (x\<lparr>created := True, t_nnp := b, t_filters := F\<rparr>) \<le> sib_rank x"
  "sib_pc x = In_wait \<Longrightarrow> sib_rank (x\<lparr>sib_pc := At_relock\<rparr>) \<le> sib_rank x"
  by (simp_all add: sib_rank_def)

lemma rank_waits:
  "sib_rank (x\<lparr>num_waits := num_waits x + 1\<rparr>) \<le> sib_rank x + 4"
  "1 < num_waits x \<Longrightarrow> sib_rank (x\<lparr>num_waits := 1\<rparr>) \<le> sib_rank x"
proof -
  have n: "nat (num_waits x + 1) \<le> nat (num_waits x) + 1" by simp
  show "sib_rank (x\<lparr>num_waits := num_waits x + 1\<rparr>) \<le> sib_rank x + 4"
    using n by (simp add: sib_rank_def Let_def split: sib_pc.split)
  have m: "1 < num_waits x \<Longrightarrow> Suc 0 \<le> nat (num_waits x)" by simp
  show "1 < num_waits x \<Longrightarrow> sib_rank (x\<lparr>num_waits := 1\<rparr>) \<le> sib_rank x"
    using m by (simp add: sib_rank_def Let_def split: sib_pc.split)
qed

lemma seccomp_frame:
  "sib_rank (sibling (tseccomp K flag insns s) i) = sib_rank (sibling s i)"
  "sibling_count (tseccomp K flag insns s) = sibling_count s"
  by (auto simp: tseccomp_def Let_def rank_same split: verdict.splits option.splits)

lemma main_again:
  "main_step K st s = Some (True, t) \<Longrightarrow>
   sibling t = sibling s \<and> sibling_count s < TSYNC_SIBLINGS \<and> sibling_count t = sibling_count s + 1"
  by (cases st) (auto simp: Let_def split: if_split_asm sib_pc.split_asm)

lemma main_step_rank:
  assumes "main_step K st s = Some (False, t)" "outline K st a = Some a'" "asserts K a s"
  shows "sib_rank (sibling t i) \<le> sib_rank (sibling s i) + 4 \<and> sibling_count t = sibling_count s"
proof (cases st)
  case (Start_sibling j)
  have at: "at K 0 (a_stage a 0) (sibling s 0)" "at K 1 (a_stage a 1) (sibling s 1)"
    using assms(3) by (simp_all add: asserts_def synced_def)
  obtain d where "a_stage a j = Fresh d" "j = 0 \<or> j = 1"
    using assms(2) Start_sibling by (auto split: stage.split_asm if_split_asm)
  with at have "sib_pc (sibling s j) = At_gettid" by auto
  then show ?thesis using assms(1) Start_sibling by (auto simp: set_sib_def rank_same trans_le_add1)
next
  case Set_nnp
  then show ?thesis using assms(1) by (cases "call_verdict K NR_prctl (m_filters s)") auto
qed (use assms(1) in \<open>auto simp: Let_def set_sib_def rank_same rank_waits seccomp_frame trans_le_add1
  split: if_split_asm sib_pc.split_asm\<close>)

primrec outline_run :: "tkern \<Rightarrow> stmt list \<Rightarrow> asrt \<Rightarrow> asrt option" where
  "outline_run K [] a = Some a"
| "outline_run K (st # rest) a = (case outline K st a of None \<Rightarrow> None | Some a' \<Rightarrow> outline_run K rest a')"

text \<open>A configuration from which the abstract run comes to its end; every step leads to another one, of a
  smaller rank.\<close>

definition sound_config :: "tkern \<Rightarrow> stmt list \<times> tsync \<Rightarrow> bool" where
  "sound_config K c \<longleftrightarrow> (\<exists>a. asserts K a (snd c) \<and> outline_run K (fst c) a \<noteq> None \<and>
     (a_destroyed a \<longrightarrow> is_gone (a_stage a 0) \<and> is_gone (a_stage a 1)))"

lemma outline_destroyed:
  assumes "outline K st a = Some a'" "a_destroyed a \<longrightarrow> is_gone (a_stage a 0) \<and> is_gone (a_stage a 1)"
  shows "a_destroyed a' \<longrightarrow> is_gone (a_stage a' 0) \<and> is_gone (a_stage a' 1)"
  using assms
  by (cases st; auto simp: Let_def a_seccomp_def is_gone_stage sync_stage_def post_stage_def wake_stage_def
      split: if_splits stage.splits option.splits)

lemma config_step:
  assumes c: "sound_config K c" and step: "thread_step K w c = Some d" and K: "\<not> spurious K"
  shows "sound_config K d" "config_rank d < config_rank c"
proof -
  obtain st rest s where cs: "c = (st # rest, s)" using step by (cases c; cases "fst c") (auto simp: thread_step_def)
  obtain a a1 where a: "asserts K a s" "outline K st a = Some a1" "outline_run K rest a1 \<noteq> None"
    and gone: "a_destroyed a \<longrightarrow> is_gone (a_stage a 0) \<and> is_gone (a_stage a 1)"
    using c by (auto simp: cs sound_config_def split: option.splits)
  note gone1 = outline_destroyed [OF a(2) gone]
  have "sound_config K d \<and> config_rank d < config_rank c"
  proof (cases w)
    case Main_Thread
    then obtain again t where t: "main_step K st s = Some (again, t)" "d = (if again then st # rest else rest, t)"
      using step by (auto simp: cs thread_step_def split: if_splits option.splits)
    have "sound_config K d" using main_sound [OF a(1,2) t(1)] a(2,3) gone gone1 unfolding sound_config_def t(2)
      by (cases again) auto
    moreover have "config_rank d < config_rank c"
    proof (cases again)
      case True
      with main_again [of K st s t] t(1) have "sibling t = sibling s" "sibling_count s < TSYNC_SIBLINGS"
        "sibling_count t = sibling_count s + 1" by simp_all
      then show ?thesis using True by (simp add: config_rank_def cs t(2) TSYNC_SIBLINGS_def)
    next
      case False
      with t(1) have m: "main_step K st s = Some (False, t)" by simp
      from main_step_rank [OF m a(2,1), of 0] main_step_rank [OF m a(2,1), of 1] show ?thesis
        by (simp add: config_rank_def cs t(2) False)
    qed
    ultimately show ?thesis ..
  next
    case (Sibling i)
    then obtain t where t: "i = 0 \<or> i = 1" "created (sibling s i)" "sib_step K i s = Some t" "d = (st # rest, t)"
      using step by (auto simp: cs thread_step_def two_siblings split: if_splits)
    have sync: "synced K (a_stage a) (a_holds a) s" using a(1) by (simp add: asserts_def)
    have at: "at K i (a_stage a i) (sibling s i)" using sync t(1) by (auto simp: synced_def)
    have mi: "mutex s = Some (Sibling i) \<longleftrightarrow> holding (sib_pc (sibling s i))" using sync t(1) by (auto simp: synced_def)
    have "config_rank d < config_rank c"
      using t(1) sib_step_rank [OF t(3) at K t(2)] sib_sync(4) [OF t(3) K mi at, of "1 - i"] sib_sync(5) [OF t(3) K mi at]
      by (auto simp: config_rank_def cs t(4))
    moreover have "sound_config K d"
      using asserts_stable [OF a(1) t(1,3) K t(2)] a(2,3) gone unfolding sound_config_def t(4) by auto
    ultimately show ?thesis by simp
  qed
  then show "sound_config K d" "config_rank d < config_rank c" by simp_all
qed

lemma config_progress: "sound_config K (st # rest, s) \<Longrightarrow> \<exists>w d. thread_step K w (st # rest, s) = Some d"
  using progress by (fastforce simp: sound_config_def split: option.splits)

lemma schedule_sound:
  "schedule K ws c = Some d \<Longrightarrow> sound_config K c \<Longrightarrow> \<not> spurious K \<Longrightarrow>
   sound_config K d \<and> length ws + config_rank d \<le> config_rank c"
proof (induction ws arbitrary: c)
  case (Cons w ws)
  then obtain e where e: "thread_step K w c = Some e" "schedule K ws e = Some d" by (auto split: option.splits)
  from config_step [OF Cons.prems(2) e(1) Cons.prems(3)] Cons.IH [OF e(2)] Cons.prems(3) show ?case by auto
qed simp

section \<open>The outlines of the six tests\<close>

definition start_asrt :: asrt where
  "start_asrt = \<lparr>a_stage = (\<lambda>i. Fresh False), a_holds = False, a_nnp = False, a_filters = [], a_next = TSYNC_SIBLINGS,
     a_ret = None, a_errno = None, a_status = None, a_sib = 0, a_destroyed = False\<rparr>"

lemma start_asserts: "asserts K start_asrt TSYNC_setup"
  by (simp add: asserts_def start_asrt_def TSYNC_setup_def synced_def holding_def posted_def)

definition errno_prctl :: "tkern \<Rightarrow> sock_filter list" where
  "errno_prctl K = [LD_nr, JEQ_K (t_nr K NR_prctl) 0 1, RET_K (SECCOMP_RET_ERRNO OR of_int EINVAL), RET_K SECCOMP_RET_ALLOW]"

lemma verdict_root: "call_verdict K n ((k, root_filter) # F) = call_verdict K n F"
proof (cases "decide (t_nr K n) (replicate 6 0) (map snd F)")
  case (Some r)
  have "r AND SECCOMP_RET_ACTION \<le> SECCOMP_RET_ACTION" by (rule word_and_le1)
  then have "r AND SECCOMP_RET_ACTION < SECCOMP_RET_ALLOW \<or> r AND SECCOMP_RET_ACTION = SECCOMP_RET_ALLOW"
    by (auto simp: SECCOMP_RET_ACTION_def SECCOMP_RET_ALLOW_def)
  moreover have "SECCOMP_RET_ALLOW AND SECCOMP_RET_ACTION = SECCOMP_RET_ALLOW"
    by (simp add: SECCOMP_RET_ACTION_def SECCOMP_RET_ALLOW_def)
  ultimately show ?thesis using Some by (auto simp: call_verdict_def root_filter_def)
qed (simp add: call_verdict_def root_filter_def)

lemma insns_ok_filters: "insns_ok root_filter" "insns_ok (apply_filter K)" "insns_ok (errno_prctl K)"
  by (simp_all add: root_filter_def apply_filter_def errno_prctl_def insn_ok_def)

lemma verdict_eqs:
  assumes "inj (t_nr K)"
  shows "call_verdict K n [] = Allowed"
    "call_verdict K n [(k, apply_filter K)] = (if n = NR_read then Killing else Allowed)"
    "call_verdict K n [(k, apply_filter K), (l, root_filter)] = (if n = NR_read then Killing else Allowed)"
    "call_verdict K n [(k, errno_prctl K)] = (if n = NR_prctl then Failing EINVAL else Allowed)"
  using assms by (simp_all add: call_verdict_def root_filter_def apply_filter_def errno_prctl_def inj_eq test_numbers)

lemmas tests_eval = assert_nnp_def start_siblings_def wake_siblings_def join_both_def assert_seccomp_def start_asrt_def
  a_seccomp_def may_install_def is_early_def post_stage_def own_install_def may_wake_def wake_stage_def joined_def
  is_gone_def a_check_def a_live_def may_sync_def sync_stage_def blocks_sync_def capped_def a_index_def outcome_def
  after_read_def Let_def insns_ok_filters verdict_root ENOSYS_def TSYNC_SIBLINGS_def

lemma outline_append:
  "outline_run K (xs @ ys) a = (case outline_run K xs a of None \<Rightarrow> None | Some a' \<Rightarrow> outline_run K ys a')"
  by (induction xs arbitrary: a) (auto split: option.splits)

lemma outline_siblings_fail_prctl:
  assumes "inj (t_nr K)"
  shows "outline_run K (siblings_fail_prctl K @ [Teardown]) start_asrt \<noteq> None"
  by (simp add: siblings_fail_prctl_def errno_prctl_def [symmetric] tests_eval verdict_eqs [OF assms])

lemma outline_two_siblings_with_ancestor:
  assumes "inj (t_nr K)" "killed_status K = 0"
  shows "outline_run K (two_siblings_with_ancestor K @ [Teardown]) start_asrt \<noteq> None"
  by (simp add: two_siblings_with_ancestor_def tests_eval verdict_eqs [OF assms(1)] assms)

lemma outline_two_sibling_want_nnp:
  assumes "inj (t_nr K)"
  shows "outline_run K (two_sibling_want_nnp K @ [Teardown]) start_asrt \<noteq> None"
  by (simp add: two_sibling_want_nnp_def tests_eval verdict_eqs [OF assms(1)])

lemma outline_two_siblings_with_no_filter:
  assumes "inj (t_nr K)" "killed_status K = 0"
  shows "outline_run K (two_siblings_with_no_filter K @ [Teardown]) start_asrt \<noteq> None"
  by (simp add: two_siblings_with_no_filter_def tests_eval verdict_eqs [OF assms(1)] assms)

lemma outline_two_siblings_with_one_divergence:
  assumes "inj (t_nr K)"
  shows "outline_run K (two_siblings_with_one_divergence K @ [Teardown]) start_asrt \<noteq> None"
  by (simp add: two_siblings_with_one_divergence_def tests_eval verdict_eqs [OF assms(1)])

lemma outline_two_siblings_not_under_filter:
  assumes "inj (t_nr K)" "killed_status K = 0"
  shows "outline_run K (two_siblings_not_under_filter K @ [Teardown]) start_asrt \<noteq> None"
  by (simp add: two_siblings_not_under_filter_def tests_eval verdict_eqs [OF assms(1)] assms)

section \<open>The result\<close>

lemma tests_start_sound:
  assumes "body \<in> set (TSYNC_tests K)" "inj (t_nr K)" "killed_status K = 0"
  shows "sound_config K (body, TSYNC_setup)"
proof -
  have "outline_run K body start_asrt \<noteq> None"
    using assms(1) outline_siblings_fail_prctl [OF assms(2)] outline_two_siblings_with_ancestor [OF assms(2,3)]
      outline_two_sibling_want_nnp [OF assms(2)] outline_two_siblings_with_no_filter [OF assms(2,3)]
      outline_two_siblings_with_one_divergence [OF assms(2)] outline_two_siblings_not_under_filter [OF assms(2,3)]
    by (auto simp: TSYNC_tests_def)
  then show ?thesis
    using start_asserts [of K] unfolding sound_config_def
    by (intro exI [of _ start_asrt]) (simp add: start_asrt_def)
qed


definition doc_threads :: "bool \<Rightarrow> tkern" where
  "doc_threads sp = \<lparr>t_nr = doc_NR, t_tid = (\<lambda>i. 101 + int i), t_admin = False, killed_status = 0, spurious = sp\<rparr>"

lemma doc_threads_inj: "inj (t_nr (doc_threads sp))"
  by (rule injI) (auto simp: doc_threads_def doc_NR_def split: sysno.splits)

text \<open>Schedules of blocks of steps.\<close>

fun blocks :: "(owner \<times> nat) list \<Rightarrow> owner list" where
  "blocks [] = []"
| "blocks ((w, n) # bs) = replicate n w @ blocks bs"

lemmas run_eval = numeral_eq_Suc thread_step_def sib_step_def set_sib_def two_siblings tseccomp_def diverged_def
  the_index_def cond_holds_def ended_def sib_live_def may_install_def TSYNC_setup_def TSYNC_SIBLINGS_def Let_def
  verdict_root insns_ok_filters ENOSYS_def
  assert_nnp_def start_siblings_def wake_siblings_def join_both_def assert_seccomp_def

lemma ancestor_run:
  "\<exists>s. schedule (doc_threads False) (blocks [(Main_Thread, 7), (Sibling 0, 4), (Sibling 1, 4), (Main_Thread, 8), (Sibling 0, 5),
      (Sibling 1, 5), (Main_Thread, 5)]) (two_siblings_with_ancestor (doc_threads False) @ [Teardown], TSYNC_setup) = Some ([], s)"
  by (simp add: two_siblings_with_ancestor_def run_eval verdict_eqs [OF doc_threads_inj])



end
