(* ===== verification/Audio_Sine.thy ===== *)
theory Audio_Sine
  imports Complex_Main Bub_Prelude "HOL-Library.Signed_Division"
begin

text \<open>
  \<open>SineSource.cpp\<close>: the tone that the audio tests play, and \<open>utils.cpp\<close>: the translation between the
  sample formats of Android and of libsndfile. \<open>MediaBuffer\<close> and \<open>MediaBufferGroup\<close> belong to the
  framework: their methods are parameters, with their documentation as the hypothesis \<open>media_doc\<close>.
  The arithmetic of \<open>double\<close> and the library's \<open>sin\<close> are parameters too, since C fixes neither their
  rounding nor their accuracy; \<open>exact_fp\<close> is the real numbers.
\<close>

section \<open>How a test program ends early\<close>

datatype audio_end =
    Check_Failed      \<comment> \<open>\<open>CHECK\<close> aborts the program\<close>
  | Waits_Forever     \<comment> \<open>a call that never returns\<close>
  | Never_Ends        \<comment> \<open>a loop that is still running when the fuel is used up\<close>
  | Divides_By_Zero
  | Undefined         \<comment> \<open>arithmetic that C leaves undefined\<close>
  | Bad_Pointer       \<comment> \<open>a method called on NULL\<close>
  | Heap_Overrun      \<comment> \<open>a write behind the end of an allocated block\<close>

type_synonym i16 = "16 word"
type_synonym i32 = "32 word"
type_synonym status_t = int

definition OK :: status_t where "OK = 0"

text \<open>Calls of the framework, and reads of what it owns.\<close>

definition acall :: "('w \<Rightarrow> 'a \<times> 'w) \<Rightarrow> ('w, audio_end, 'a) prog" where
  "acall f = (\<lambda>w. case f w of (x, w') \<Rightarrow> (Inr x, w'))"

definition peek :: "('w \<Rightarrow> 'a) \<Rightarrow> ('w, audio_end, 'a) prog" where
  "peek f = (\<lambda>w. (Inr (f w), w))"

definition CHECK :: "bool \<Rightarrow> ('w, audio_end, unit) prog" where
  "CHECK b = (if b then ret () else fail Check_Failed)"

lemma acall_run [simp, run_simps]: "f w = (x, w') \<Longrightarrow> acall f w = (Inr x, w')"
  by (simp add: acall_def)

lemma peek_run [simp, run_simps]: "peek f w = (Inr (f w), w)"
  by (simp add: peek_def)

lemma CHECK_True [simp, run_simps]: "b \<Longrightarrow> CHECK b = ret ()"
  by (simp add: CHECK_def)

lemma CHECK_False [simp, run_simps]: "\<not> b \<Longrightarrow> CHECK b = fail Check_Failed"
  by (simp add: CHECK_def)

section \<open>Floating point\<close>

text \<open>\<open>fp_int\<close> is the conversion to an integer type: the integral part, none for infinities and NaN.\<close>

record 'd fp =
  fp_of :: "int \<Rightarrow> 'd"
  fp_pi :: 'd
  fp_add :: "'d \<Rightarrow> 'd \<Rightarrow> 'd"
  fp_mul :: "'d \<Rightarrow> 'd \<Rightarrow> 'd"
  fp_div :: "'d \<Rightarrow> 'd \<Rightarrow> 'd"
  fp_sin :: "'d \<Rightarrow> 'd"
  fp_int :: "'d \<Rightarrow> int option"

definition toward_zero :: "real \<Rightarrow> int" where
  "toward_zero x = (if x < 0 then \<lceil>x\<rceil> else \<lfloor>x\<rfloor>)"

definition exact_fp :: "real fp" where
  "exact_fp = \<lparr>fp_of = of_int, fp_pi = pi, fp_add = (+), fp_mul = (*), fp_div = (/), fp_sin = sin,
     fp_int = (\<lambda>x. Some (toward_zero x))\<rparr>"

text \<open>\<open>(int16_t) x\<close> is undefined when the integral part does not fit.\<close>

definition to_int16 :: "'d fp \<Rightarrow> 'd \<Rightarrow> audio_end + i16" where
  "to_int16 f x = (case fp_int f x of
     Some v \<Rightarrow> if -32768 \<le> v \<and> v \<le> 32767 then Inr (of_int v) else Inl Undefined
   | None \<Rightarrow> Inl Undefined)"

section \<open>The framework's buffers\<close>

text \<open>
  A group and a buffer are handles. \<open>buffer_data\<close> is what \<open>data ()\<close> points to, \<open>buffer_store\<close> a write
  through that pointer. \<open>acquire_buffer\<close> may block.
\<close>

record 'w media =
  new_group :: "'w \<Rightarrow> nat \<times> 'w"
  new_buffer :: "nat \<Rightarrow> 'w \<Rightarrow> nat \<times> 'w"
  add_buffer :: "nat \<Rightarrow> nat \<Rightarrow> 'w \<Rightarrow> unit \<times> 'w"
  delete_group :: "nat \<Rightarrow> 'w \<Rightarrow> unit \<times> 'w"
  acquire_buffer :: "nat \<Rightarrow> ('w, audio_end, status_t \<times> nat) prog"
  buffer_size :: "nat \<Rightarrow> 'w \<Rightarrow> u64"
  buffer_data :: "nat \<Rightarrow> 'w \<Rightarrow> byte list"
  buffer_store :: "nat \<Rightarrow> byte list \<Rightarrow> 'w \<Rightarrow> unit \<times> 'w"
  set_time :: "nat \<Rightarrow> int \<Rightarrow> 'w \<Rightarrow> unit \<times> 'w"
  set_range :: "nat \<Rightarrow> u64 \<Rightarrow> u64 \<Rightarrow> 'w \<Rightarrow> unit \<times> 'w"
  release_buffer :: "nat \<Rightarrow> 'w \<Rightarrow> unit \<times> 'w"

section \<open>SineSource\<close>

definition kBufferSize :: nat where "kBufferSize = 8192"
definition kFrequency :: int where "kFrequency = 500"

record SineSource =
  mStarted :: bool
  mSampleRate :: i32
  mNumChannels :: i32
  mPhase :: u64
  mGroup :: "nat option"

definition SineSource_new :: "i32 \<Rightarrow> i32 \<Rightarrow> ('w, audio_end, SineSource) prog" where
  "SineSource_new sampleRate numChannels =
     bnd (CHECK (numChannels = 1 \<or> numChannels = 2)) (\<lambda>_.
     ret \<lparr>mStarted = False, mSampleRate = sampleRate, mNumChannels = numChannels, mPhase = 0, mGroup = None\<rparr>)"

definition SineSource_start ::
    "('w, 'z) media_scheme \<Rightarrow> SineSource \<Rightarrow> ('w, audio_end, status_t \<times> SineSource) prog" where
  "SineSource_start m s =
     bnd (CHECK (\<not> mStarted s)) (\<lambda>_.
     bnd (acall (new_group m)) (\<lambda>g.
     bnd (acall (new_buffer m kBufferSize)) (\<lambda>b.
     bnd (acall (add_buffer m g b)) (\<lambda>_.
     ret (OK, s\<lparr>mGroup := Some g, mPhase := 0, mStarted := True\<rparr>)))))"

text \<open>\<open>delete\<close> of NULL does nothing.\<close>

definition SineSource_stop ::
    "('w, 'z) media_scheme \<Rightarrow> SineSource \<Rightarrow> ('w, audio_end, status_t \<times> SineSource) prog" where
  "SineSource_stop m s =
     bnd (CHECK (mStarted s)) (\<lambda>_.
     bnd (case mGroup s of None \<Rightarrow> ret () | Some g \<Rightarrow> acall (delete_group m g)) (\<lambda>_.
     ret (OK, s\<lparr>mGroup := None, mStarted := False\<rparr>)))"

definition SineSource_delete :: "('w, 'z) media_scheme \<Rightarrow> SineSource \<Rightarrow> ('w, audio_end, unit) prog" where
  "SineSource_delete m s = (if mStarted s then bnd (SineSource_stop m s) (\<lambda>_. ret ()) else ret ())"

datatype meta_key = kKeyMIMEType | kKeyChannelCount | kKeySampleRate | kKeyMaxInputSize
datatype meta_value = CString string | Int32 i32

text \<open>\<open>MEDIA_MIMETYPE_AUDIO_RAW\<close> is a constant of the framework.\<close>

definition getFormat :: "string \<Rightarrow> SineSource \<Rightarrow> (meta_key \<times> meta_value) list" where
  "getFormat audio_raw s =
     [(kKeyMIMEType, CString audio_raw), (kKeyChannelCount, Int32 (mNumChannels s)),
      (kKeySampleRate, Int32 (mSampleRate s)), (kKeyMaxInputSize, Int32 (of_nat kBufferSize))]"

text \<open>The loop over the frames of the buffer: what is stored through \<open>ptr\<close>.\<close>

primrec sine_frames :: "'d fp \<Rightarrow> bool \<Rightarrow> 'd \<Rightarrow> nat \<Rightarrow> 'd \<Rightarrow> audio_end + i16 list" where
  "sine_frames f stereo k 0 x = Inr []"
| "sine_frames f stereo k (Suc n) x =
     (case to_int16 f (fp_mul f (fp_of f 32767) (fp_sin f x)) of
        Inl e \<Rightarrow> Inl e
      | Inr amplitude \<Rightarrow>
          (case sine_frames f stereo k n (fp_add f x k) of
             Inl e \<Rightarrow> Inl e
           | Inr r \<Rightarrow> Inr (amplitude # (if stereo then [amplitude] else []) @ r)))"

definition pcm_bytes :: "i16 list \<Rightarrow> byte list" where
  "pcm_bytes xs = concat (map (le_bytes 2) xs)"

text \<open>\<open>((int64_t) mPhase * 1000000) / mSampleRate\<close>; the product must not overflow.\<close>

definition key_time :: "SineSource \<Rightarrow> audio_end + int" where
  "key_time s =
     (let us = sint (mPhase s) * 1000000 in
      if us < - (2 ^ 63) \<or> 2 ^ 63 \<le> us then Inl Undefined
      else if mSampleRate s = 0 then Inl Divides_By_Zero
      else Inr (us sdiv sint (mSampleRate s)))"

definition SineSource_read ::
    "'d fp \<Rightarrow> ('w, 'z) media_scheme \<Rightarrow> SineSource \<Rightarrow> ('w, audio_end, (status_t \<times> nat option) \<times> SineSource) prog" where
  "SineSource_read f m s =
     (case mGroup s of None \<Rightarrow> fail Bad_Pointer | Some g \<Rightarrow>
      bnd (acquire_buffer m g) (\<lambda>(err, buffer).
      if err \<noteq> OK then ret ((err, None), s) else
      bnd (peek (buffer_size m buffer)) (\<lambda>size.
      let frameSize = scast (mNumChannels s) * 2 in
      if frameSize = 0 then fail Divides_By_Zero else
      let numFramesPerBuffer = size div frameSize;
          k = fp_mul f (fp_div f (fp_of f kFrequency) (fp_of f (sint (mSampleRate s))))
                (fp_mul f (fp_of f 2) (fp_pi f));
          x = fp_mul f (fp_of f (uint (mPhase s))) k in
      bnd (pure (sine_frames f (mNumChannels s = 2) k (unat numFramesPerBuffer) x)) (\<lambda>samples.
      bnd (acall (buffer_store m buffer (pcm_bytes samples))) (\<lambda>_.
      bnd (pure (key_time s)) (\<lambda>t.
      bnd (acall (set_time m buffer t)) (\<lambda>_.
      bnd (acall (set_range m buffer 0 (numFramesPerBuffer * frameSize))) (\<lambda>_.
      ret ((OK, Some buffer), s\<lparr>mPhase := mPhase s + numFramesPerBuffer\<rparr>))))))))) "

section \<open>The documentation of the buffers\<close>

text \<open>
  What \<open>MediaBufferGroup.h\<close> and \<open>MediaBuffer.h\<close> promise, on a view of the world: a group owns
  buffers; \<open>acquire_buffer\<close> hands out one that nobody uses and waits while there is none, so that a
  program with no other user of the group waits for ever; \<open>release\<close> gives a buffer back; a new
  buffer's range is all of its memory.
\<close>

record mbuf =
  mb_mem :: "byte list"
  mb_off :: nat
  mb_len :: nat
  mb_busy :: bool

record mview =
  groups_of :: "nat \<rightharpoonup> nat list"
  bufs_of :: "nat \<rightharpoonup> mbuf"

definition upd_buf :: "nat \<Rightarrow> (mbuf \<Rightarrow> mbuf) \<Rightarrow> mview \<Rightarrow> mview" where
  "upd_buf b h v = v\<lparr>bufs_of := (bufs_of v)(b := map_option h (bufs_of v b))\<rparr>"

definition buf_free :: "mview \<Rightarrow> nat \<Rightarrow> bool" where
  "buf_free v b = (case bufs_of v b of None \<Rightarrow> False | Some x \<Rightarrow> \<not> mb_busy x)"

definition buf_ok :: "mbuf \<Rightarrow> bool" where
  "buf_ok x \<longleftrightarrow> mb_off x + mb_len x \<le> length (mb_mem x) \<and> length (mb_mem x) < 2 ^ 63"

definition new_doc :: "('w, 'z) media_scheme \<Rightarrow> ('w \<Rightarrow> mview) \<Rightarrow> bool" where
  "new_doc m V \<longleftrightarrow>
     (\<forall>w. \<exists>g w'. new_group m w = (g, w') \<and> groups_of (V w) g = None \<and>
        V w' = (V w)\<lparr>groups_of := (groups_of (V w))(g \<mapsto> [])\<rparr>) \<and>
     (\<forall>w n. \<exists>b w' mem. new_buffer m n w = (b, w') \<and> bufs_of (V w) b = None \<and> length mem = n \<and>
        V w' = (V w)\<lparr>bufs_of := (bufs_of (V w))(b \<mapsto> \<lparr>mb_mem = mem, mb_off = 0, mb_len = n, mb_busy = False\<rparr>)\<rparr>) \<and>
     (\<forall>w g b bs. groups_of (V w) g = Some bs \<longrightarrow> (\<exists>w'. add_buffer m g b w = ((), w') \<and>
        V w' = (V w)\<lparr>groups_of := (groups_of (V w))(g \<mapsto> bs @ [b])\<rparr>)) \<and>
     (\<forall>w g. g \<in> dom (groups_of (V w)) \<longrightarrow> (\<exists>w'. delete_group m g w = ((), w') \<and>
        groups_of (V w') = (groups_of (V w))(g := None)))"

definition acquire_doc :: "('w, 'z) media_scheme \<Rightarrow> ('w \<Rightarrow> mview) \<Rightarrow> bool" where
  "acquire_doc m V \<longleftrightarrow>
     (\<forall>w g bs. groups_of (V w) g = Some bs \<longrightarrow>
        (if \<exists>b\<in>set bs. buf_free (V w) b
         then \<exists>b w'. b \<in> set bs \<and> buf_free (V w) b \<and> acquire_buffer m g w = (Inr (OK, b), w') \<and>
           V w' = upd_buf b (mb_busy_update (\<lambda>_. True)) (V w)
         else \<exists>w'. acquire_buffer m g w = (Inl Waits_Forever, w'))) \<and>
     (\<forall>w b. b \<in> dom (bufs_of (V w)) \<longrightarrow> (\<exists>w'. release_buffer m b w = ((), w') \<and>
        V w' = upd_buf b (mb_busy_update (\<lambda>_. False)) (V w)))"

definition contents_doc :: "('w, 'z) media_scheme \<Rightarrow> ('w \<Rightarrow> mview) \<Rightarrow> bool" where
  "contents_doc m V \<longleftrightarrow>
     (\<forall>w b x. bufs_of (V w) b = Some x \<longrightarrow> buf_ok x \<longrightarrow>
        buffer_size m b w = of_nat (mb_len x) \<and>
        buffer_data m b w = chunk (mb_off x) (mb_len x) (mb_mem x) \<and>
        (\<forall>bs. length bs \<le> mb_len x \<longrightarrow> (\<exists>w'. buffer_store m b bs w = ((), w') \<and>
           V w' = upd_buf b (mb_mem_update (blit (mb_off x) bs)) (V w))) \<and>
        (\<forall>t. \<exists>w'. set_time m b t w = ((), w') \<and> V w' = V w) \<and>
        (\<forall>off n. unat off + unat n \<le> length (mb_mem x) \<longrightarrow> (\<exists>w'. set_range m b off n w = ((), w') \<and>
           V w' = upd_buf b (\<lambda>x. x\<lparr>mb_off := unat off, mb_len := unat n\<rparr>) (V w))))"

definition media_doc :: "('w, 'z) media_scheme \<Rightarrow> ('w \<Rightarrow> mview) \<Rightarrow> bool" where
  "media_doc m V \<longleftrightarrow> new_doc m V \<and> acquire_doc m V \<and> contents_doc m V"

section \<open>The tone\<close>

text \<open>The sample at frame \<open>j\<close> of an unbroken tone of 500 Hz, and its bytes in each channel.\<close>

definition tone :: "i32 \<Rightarrow> nat \<Rightarrow> int" where
  "tone rate j = toward_zero (32767 * sin (2 * pi * 500 * real j / of_int (sint rate)))"

definition tone_bytes :: "i32 \<Rightarrow> i32 \<Rightarrow> nat list \<Rightarrow> byte list" where
  "tone_bytes rate ch js = pcm_bytes (concat (map (\<lambda>j. replicate (nat (sint ch)) (of_int (tone rate j))) js))"

lemma toward_zero_bound: "\<bar>x\<bar> \<le> of_int n \<Longrightarrow> \<bar>toward_zero x\<bar> \<le> n"
  unfolding toward_zero_def by (auto simp: abs_le_iff) linarith+

lemma tone_fits: "\<bar>tone rate j\<bar> \<le> 32767"
  unfolding tone_def by (rule toward_zero_bound) (simp add: abs_mult abs_sin_le_one)

lemma length_le_bytes2 [simp]: "length (le_bytes n (x :: 'a::len word)) = n"
  by (induction n arbitrary: x) auto

lemma length_pcm_bytes [simp]: "length (pcm_bytes xs) = 2 * length xs"
  by (induction xs) (simp_all add: pcm_bytes_def)

lemma pcm_bytes_append [simp]: "pcm_bytes (xs @ ys) = pcm_bytes xs @ pcm_bytes ys"
  by (simp add: pcm_bytes_def)

lemma tone_bytes_append: "tone_bytes rate ch (is @ js) = tone_bytes rate ch is @ tone_bytes rate ch js"
  by (simp add: tone_bytes_def)

lemma length_tone_bytes: "length (tone_bytes rate ch js) = 2 * nat (sint ch) * length js"
  by (induction js) (simp_all add: tone_bytes_def)

lemma to_int16_exact:
  assumes "toward_zero x = v" "\<bar>v\<bar> \<le> 32767"
  shows "to_int16 exact_fp x = Inr (of_int v)"
  using assms by (auto simp: to_int16_def exact_fp_def)

lemma sine_frames_exact:
  fixes rate :: i32
  assumes k: "k = 500 / of_int (sint rate) * (2 * pi)" and x: "x = real p * k"
    and ch: "c = (if stereo then 2 else 1)"
  shows "sine_frames exact_fp stereo k n x =
    Inr (concat (map (\<lambda>j. replicate c (of_int (tone rate j))) [p ..< p + n]))"
  using x
proof (induction n arbitrary: x p)
  case (Suc n)
  have arg: "x = 2 * pi * 500 * real p / of_int (sint rate)" using Suc.prems k by simp
  have "to_int16 exact_fp (32767 * sin x) = Inr (of_int (tone rate p))"
    using tone_fits [of rate p] by (intro to_int16_exact) (simp_all add: tone_def arg)
  moreover have "x + k = real (Suc p) * k" using Suc.prems by (simp add: algebra_simps)
  note Suc.IH [OF this]
  moreover have "[p ..< p + Suc n] = p # [Suc p ..< Suc p + n]" by (simp add: upt_rec)
  moreover have "fp_mul exact_fp (fp_of exact_fp 32767) (fp_sin exact_fp x) = 32767 * sin x"
    "fp_add exact_fp x k = x + k" by (simp_all add: exact_fp_def)
  ultimately show ?case by (cases stereo) (simp_all add: ch numeral_2_eq_2)
qed simp

section \<open>One read\<close>

definition block :: "bool \<Rightarrow> byte list \<Rightarrow> mbuf" where
  "block busy bytes = \<lparr>mb_mem = bytes, mb_off = 0, mb_len = kBufferSize, mb_busy = busy\<rparr>"

text \<open>A started source whose group owns the one buffer \<open>b\<close>, with these contents.\<close>

definition source_at :: "('w \<Rightarrow> mview) \<Rightarrow> SineSource \<Rightarrow> nat \<Rightarrow> bool \<Rightarrow> byte list \<Rightarrow> 'w \<Rightarrow> bool" where
  "source_at V s b busy bytes w \<longleftrightarrow> mStarted s \<and> (mNumChannels s = 1 \<or> mNumChannels s = 2) \<and>
     length bytes = kBufferSize \<and> bufs_of (V w) b = Some (block busy bytes) \<and>
     (\<exists>g. mGroup s = Some g \<and> groups_of (V w) g = Some [b])"

definition frames_per_buffer :: "SineSource \<Rightarrow> nat" where
  "frames_per_buffer s = (if mNumChannels s = 2 then 2048 else 4096)"

lemma buf_ok_block [simp]: "length bytes = kBufferSize \<Longrightarrow> buf_ok (block busy bytes)"
  by (simp add: buf_ok_def block_def kBufferSize_def)

lemma media_docD:
  assumes "media_doc m V"
  shows "new_doc m V" "acquire_doc m V" "contents_doc m V"
  using assms by (simp_all add: media_doc_def)

lemma contentsD:
  assumes "media_doc m V" "bufs_of (V w) b = Some x" "buf_ok x"
  shows "buffer_size m b w = of_nat (mb_len x)"
    "buffer_data m b w = chunk (mb_off x) (mb_len x) (mb_mem x)"
    "length bs \<le> mb_len x \<Longrightarrow> \<exists>w'. buffer_store m b bs w = ((), w') \<and>
       V w' = upd_buf b (mb_mem_update (blit (mb_off x) bs)) (V w)"
    "\<exists>w'. set_time m b t w = ((), w') \<and> V w' = V w"
    "unat off + unat n \<le> length (mb_mem x) \<Longrightarrow> \<exists>w'. set_range m b off n w = ((), w') \<and>
       V w' = upd_buf b (\<lambda>x. x\<lparr>mb_off := unat off, mb_len := unat n\<rparr>) (V w)"
  using assms unfolding media_doc_def contents_doc_def by blast+

lemma acquire_free:
  assumes "media_doc m V" "source_at V s b False bytes w"
  obtains g w' where "mGroup s = Some g" "acquire_buffer m g w = (Inr (OK, b), w')" "source_at V s b True bytes w'"
proof -
  obtain g where g: "mGroup s = Some g" "groups_of (V w) g = Some [b]" and b: "bufs_of (V w) b = Some (block False bytes)"
    using assms(2) by (auto simp: source_at_def)
  have "buf_free (V w) b" by (simp add: buf_free_def b block_def)
  with media_docD(2) [OF assms(1)] g(2) obtain w' where w':
    "acquire_buffer m g w = (Inr (OK, b), w')" "V w' = upd_buf b (mb_busy_update (\<lambda>_. True)) (V w)"
    by (fastforce simp: acquire_doc_def)
  have "source_at V s b True bytes w'"
    using assms(2) w'(2) g(1) by (auto simp: source_at_def upd_buf_def block_def)
  with g(1) w'(1) show ?thesis by (rule that)
qed

lemma acquire_waits:
  assumes "media_doc m V" "source_at V s b True bytes w"
  obtains g w' where "mGroup s = Some g" "acquire_buffer m g w = (Inl Waits_Forever, w')"
proof -
  obtain g where g: "mGroup s = Some g" "groups_of (V w) g = Some [b]" and b: "bufs_of (V w) b = Some (block True bytes)"
    using assms(2) by (auto simp: source_at_def)
  have "\<not> buf_free (V w) b" by (simp add: buf_free_def b block_def)
  with media_docD(2) [OF assms(1)] g(2) obtain w' where "acquire_buffer m g w = (Inl Waits_Forever, w')"
    by (fastforce simp: acquire_doc_def)
  with g(1) show ?thesis by (rule that)
qed

lemma read_waits:
  assumes "media_doc m V" "source_at V s b True bytes w"
  shows "fst (SineSource_read f m s w) = Inl Waits_Forever"
  by (rule acquire_waits [OF assms]) (simp add: SineSource_read_def)

lemma stored:
  assumes "media_doc m V" "source_at V s b busy bytes w" "length new = kBufferSize"
  obtains w' where "buffer_store m b new w = ((), w')" "source_at V s b busy new w'"
proof -
  have b: "bufs_of (V w) b = Some (block busy bytes)" and l: "length bytes = kBufferSize"
    using assms(2) by (auto simp: source_at_def)
  from contentsD(3) [OF assms(1) b buf_ok_block [OF l], of new] assms(3)
  obtain w' where w': "buffer_store m b new w = ((), w')"
    "V w' = upd_buf b (mb_mem_update (blit 0 new)) (V w)" by (auto simp: block_def)
  have "source_at V s b busy new w'"
    using assms(2,3) l w'(2) by (auto simp: source_at_def upd_buf_def block_def)
  with w'(1) show ?thesis by (rule that)
qed

lemma timed:
  assumes "media_doc m V" "source_at V s b busy bytes w"
  obtains w' where "set_time m b t w = ((), w')" "source_at V s b busy bytes w'"
proof -
  have b: "bufs_of (V w) b = Some (block busy bytes)" and l: "length bytes = kBufferSize"
    using assms(2) by (auto simp: source_at_def)
  from contentsD(4) [OF assms(1) b buf_ok_block [OF l]] obtain w' where
    w': "set_time m b t w = ((), w')" "V w' = V w" by blast
  have "source_at V s b busy bytes w'" using assms(2) by (simp add: source_at_def w'(2))
  with w'(1) show ?thesis by (rule that)
qed

lemma ranged:
  assumes "media_doc m V" "source_at V s b busy bytes w" "n = of_nat kBufferSize"
  obtains w' where "set_range m b 0 n w = ((), w')" "source_at V s b busy bytes w'"
proof -
  have b: "bufs_of (V w) b = Some (block busy bytes)" and l: "length bytes = kBufferSize"
    using assms(2) by (auto simp: source_at_def)
  have "unat n = kBufferSize" by (simp add: assms(3) kBufferSize_def)
  with contentsD(5) [OF assms(1) b buf_ok_block [OF l], of 0 n] l
  obtain w' where w': "set_range m b 0 n w = ((), w')"
    "V w' = upd_buf b (\<lambda>x. x\<lparr>mb_off := 0, mb_len := kBufferSize\<rparr>) (V w)" by (auto simp: block_def)
  have "source_at V s b busy bytes w'"
    using assms(2) w'(2) by (auto simp: source_at_def upd_buf_def block_def)
  with w'(1) show ?thesis by (rule that)
qed

lemma released:
  assumes "media_doc m V" "source_at V s b busy bytes w"
  obtains w' where "release_buffer m b w = ((), w')" "source_at V s b False bytes w'"
proof -
  have "b \<in> dom (bufs_of (V w))" using assms(2) by (auto simp: source_at_def)
  with media_docD(2) [OF assms(1)] obtain w' where w': "release_buffer m b w = ((), w')"
    "V w' = upd_buf b (mb_busy_update (\<lambda>_. False)) (V w)" unfolding acquire_doc_def by metis
  have "source_at V s b False bytes w'"
    using assms(2) w'(2) by (auto simp: source_at_def upd_buf_def block_def)
  with w'(1) show ?thesis by (rule that)
qed

lemma source_at_phase [simp]: "source_at V (s\<lparr>mPhase := p\<rparr>) b busy bytes w = source_at V s b busy bytes w"
  by (simp add: source_at_def)

lemma frame_size:
  assumes "mNumChannels s = 1 \<or> mNumChannels s = 2"
  shows "scast (mNumChannels s) * 2 \<noteq> (0 :: u64)"
    "of_nat kBufferSize div (scast (mNumChannels s) * 2) = (of_nat (frames_per_buffer s) :: u64)"
    "of_nat (frames_per_buffer s) * (scast (mNumChannels s) * 2) = (of_nat kBufferSize :: u64)"
    "unat (of_nat (frames_per_buffer s) :: u64) = frames_per_buffer s"
    "2 * nat (sint (mNumChannels s)) * frames_per_buffer s = kBufferSize"
    "nat (sint (mNumChannels s)) = (if mNumChannels s = 2 then 2 else 1)"
  using assms by (auto simp: frames_per_buffer_def kBufferSize_def)

lemma read_exact:
  assumes "media_doc m V" "source_at V s b False bytes w"
    and "mSampleRate s \<noteq> 0" "uint (mPhase s) * 1000000 < 2 ^ 63"
  defines "p \<equiv> unat (mPhase s)" and "F \<equiv> frames_per_buffer s"
  obtains w' where
    "SineSource_read exact_fp m s w = (Inr ((OK, Some b), s\<lparr>mPhase := mPhase s + of_nat F\<rparr>), w')"
    "source_at V s b True (tone_bytes (mSampleRate s) (mNumChannels s) [p ..< p + F]) w'"
proof -
  let ?new = "tone_bytes (mSampleRate s) (mNumChannels s) [p ..< p + F]"
  have ch: "mNumChannels s = 1 \<or> mNumChannels s = 2" using assms(2) by (simp add: source_at_def)
  note fr = frame_size [OF ch]
  have len: "length ?new = kBufferSize" using fr(5) by (simp add: length_tone_bytes F_def)
  obtain g w1 where w1: "mGroup s = Some g" "acquire_buffer m g w = (Inr (OK, b), w1)"
    "source_at V s b True bytes w1" by (rule acquire_free [OF assms(1,2)])
  have b: "bufs_of (V w1) b = Some (block True bytes)" and l: "length bytes = kBufferSize"
    using w1(3) by (auto simp: source_at_def)
  have size: "buffer_size m b w1 = of_nat kBufferSize"
    using contentsD(1) [OF assms(1) b buf_ok_block [OF l]] by (simp add: block_def)
  obtain w2 where w2: "buffer_store m b ?new w1 = ((), w2)" "source_at V s b True ?new w2"
    by (rule stored [OF assms(1) w1(3) len])
  have "sint (mPhase s) = uint (mPhase s)"
    using assms(4) by (simp add: sint_uint signed_take_bit_int_eq_self order_trans [OF _ unsigned_greater_eq])
  moreover have "\<not> uint (mPhase s) * 1000000 < - (2 ^ 63)"
    by (intro leD order_trans [OF _ mult_nonneg_nonneg]) simp_all
  ultimately obtain t where t: "key_time s = Inr t"
    using assms(3,4) by (simp add: key_time_def Let_def not_less)
  obtain w3 where w3: "set_time m b t w2 = ((), w3)" "source_at V s b True ?new w3"
    by (rule timed [OF assms(1) w2(2)])
  obtain w4 where w4: "set_range m b 0 (of_nat kBufferSize) w3 = ((), w4)" "source_at V s b True ?new w4"
    by (rule ranged [OF assms(1) w3(2) refl])
  let ?k = "500 / of_int (sint (mSampleRate s)) * (2 * pi) :: real"
  have "sine_frames exact_fp (mNumChannels s = 2) ?k F (real p * ?k) =
      Inr (concat (map (\<lambda>j. replicate (nat (sint (mNumChannels s))) (of_int (tone (mSampleRate s) j))) [p ..< p + F]))"
    by (rule sine_frames_exact [OF refl refl]) (use fr(6) in simp)
  moreover have "fp_mul exact_fp (fp_div exact_fp (fp_of exact_fp kFrequency) (fp_of exact_fp (sint (mSampleRate s))))
      (fp_mul exact_fp (fp_of exact_fp 2) (fp_pi exact_fp)) = ?k"
    "\<And>x y. fp_mul exact_fp x y = x * y" "fp_of exact_fp (uint (mPhase s)) = real p"
    by (simp_all add: exact_fp_def kFrequency_def p_def)
  ultimately have "SineSource_read exact_fp m s w =
      (Inr ((OK, Some b), s\<lparr>mPhase := mPhase s + of_nat F\<rparr>), w4)"
    using w1 w2(1) w3(1) w4(1) size t fr(1-4)
    by (simp add: SineSource_read_def Let_def tone_bytes_def F_def del: mult_eq_0_iff)
  from this w4(2) show ?thesis by (rule that)
qed

section \<open>From the start on\<close>

lemma new_docs:
  assumes "new_doc m V"
  shows "\<exists>g w'. new_group m w = (g, w') \<and> V w' = (V w)\<lparr>groups_of := (groups_of (V w))(g \<mapsto> [])\<rparr>"
    "\<exists>b w' mem. new_buffer m n w = (b, w') \<and> length mem = n \<and>
       V w' = (V w)\<lparr>bufs_of := (bufs_of (V w))(b \<mapsto> \<lparr>mb_mem = mem, mb_off = 0, mb_len = n, mb_busy = False\<rparr>)\<rparr>"
    "groups_of (V w) g = Some bs \<Longrightarrow> \<exists>w'. add_buffer m g b w = ((), w') \<and>
       V w' = (V w)\<lparr>groups_of := (groups_of (V w))(g \<mapsto> bs @ [b])\<rparr>"
    "groups_of (V w) g = Some bs \<Longrightarrow> \<exists>w'. delete_group m g w = ((), w')"
  using assms unfolding new_doc_def by blast+

lemma sine_start:
  assumes "media_doc m V" "ch = 1 \<or> ch = 2"
  obtains s b bytes w' where
    "bnd (SineSource_new rate ch) (SineSource_start m) w = (Inr (OK, s), w')"
    "source_at V s b False bytes w'" "mSampleRate s = rate" "mNumChannels s = ch" "mPhase s = 0"
proof -
  note doc = new_docs [OF media_docD(1) [OF assms(1)]]
  obtain g w1 where g: "new_group m w = (g, w1)" "V w1 = (V w)\<lparr>groups_of := (groups_of (V w))(g \<mapsto> [])\<rparr>"
    using doc(1) by blast
  obtain b w2 mem where b: "new_buffer m kBufferSize w1 = (b, w2)" "length mem = kBufferSize"
    "V w2 = (V w1)\<lparr>bufs_of := (bufs_of (V w1))(b \<mapsto> block False mem)\<rparr>"
    using doc(2) [of kBufferSize w1] unfolding block_def by blast
  have "groups_of (V w2) g = Some []" by (simp add: g(2) b(3))
  from doc(3) [OF this] obtain w3 where w3: "add_buffer m g b w2 = ((), w3)"
    "V w3 = (V w2)\<lparr>groups_of := (groups_of (V w2))(g \<mapsto> [b])\<rparr>" by auto
  let ?s = "\<lparr>mStarted = True, mSampleRate = rate, mNumChannels = ch, mPhase = 0, mGroup = Some g\<rparr>"
  have "bnd (SineSource_new rate ch) (SineSource_start m) w = (Inr (OK, ?s), w3)"
    using assms(2) g(1) b(1) w3(1) by (simp add: SineSource_new_def SineSource_start_def)
  moreover have "source_at V ?s b False mem w3"
    using assms(2) by (auto simp: source_at_def w3(2) b g(2))
  ultimately show ?thesis by (rule that) simp_all
qed

text \<open>A player as the framework has it: it takes a buffer, uses up its contents and gives it back.\<close>

primrec play_buffers ::
    "'d fp \<Rightarrow> ('w, 'z) media_scheme \<Rightarrow> nat \<Rightarrow> SineSource \<Rightarrow> ('w, audio_end, byte list \<times> SineSource) prog" where
  "play_buffers f m 0 s = ret ([], s)"
| "play_buffers f m (Suc n) s =
     bnd (SineSource_read f m s) (\<lambda>((err, out), s).
     case out of None \<Rightarrow> ret ([], s) | Some b \<Rightarrow>
       bnd (peek (buffer_data m b)) (\<lambda>d.
       bnd (acall (release_buffer m b)) (\<lambda>_.
       bnd (play_buffers f m n s) (\<lambda>(r, s). ret (d @ r, s)))))"

lemma frames_le: "frames_per_buffer s \<le> 4096"
  by (simp add: frames_per_buffer_def)

lemma data_of_block:
  assumes "media_doc m V" "source_at V s b busy bytes w"
  shows "buffer_data m b w = bytes" "buffer_size m b w = of_nat kBufferSize" "length bytes = kBufferSize"
proof -
  have b: "bufs_of (V w) b = Some (block busy bytes)" and l: "length bytes = kBufferSize"
    using assms(2) by (auto simp: source_at_def)
  from contentsD(1,2) [OF assms(1) b buf_ok_block [OF l]] l
  show "buffer_data m b w = bytes" "buffer_size m b w = of_nat kBufferSize" "length bytes = kBufferSize"
    by (simp_all add: block_def)
qed

lemma play_exact:
  assumes "media_doc m V" "source_at V s b False bytes w" "mSampleRate s \<noteq> 0"
    and "(unat (mPhase s) + n * 4096) * 1000000 < 2 ^ 63"
  shows "\<exists>s' w'. play_buffers exact_fp m n s w =
    (Inr (tone_bytes (mSampleRate s) (mNumChannels s) [unat (mPhase s) ..< unat (mPhase s) + n * frames_per_buffer s], s'), w')"
  using assms(2-)
proof (induction n arbitrary: s w bytes)
  case 0
  then show ?case by (simp add: tone_bytes_def pcm_bytes_def)
next
  case (Suc n)
  let ?p = "unat (mPhase s)" and ?F = "frames_per_buffer s"
  have F: "?F \<le> 4096" by (rule frames_le)
  have "int (unat (mPhase s) * 1000000) < int (2 ^ 63)"
    using Suc.prems(3) by (intro iffD2 [OF of_nat_less_iff]) simp
  then have "uint (mPhase s) * 1000000 < 2 ^ 63" by simp
  then obtain w1 where w1: "SineSource_read exact_fp m s w =
      (Inr ((OK, Some b), s\<lparr>mPhase := mPhase s + of_nat ?F\<rparr>), w1)"
    "source_at V s b True (tone_bytes (mSampleRate s) (mNumChannels s) [?p ..< ?p + ?F]) w1"
    using read_exact [OF assms(1) Suc.prems(1,2)] by blast
  obtain w2 where w2: "release_buffer m b w1 = ((), w2)"
    "source_at V s b False (tone_bytes (mSampleRate s) (mNumChannels s) [?p ..< ?p + ?F]) w2"
    by (rule released [OF assms(1) w1(2)])
  let ?s = "s\<lparr>mPhase := mPhase s + of_nat ?F\<rparr>"
  have q: "unat (mPhase ?s) = ?p + ?F"
    using F Suc.prems(3) by (simp add: unat_word_ariths unat_of_nat take_bit_eq_mod)
  have lt: "(unat (mPhase ?s) + n * 4096) * 1000000 < 2 ^ 63" using Suc.prems(3) F unfolding q by simp
  have "frames_per_buffer ?s = ?F" by (simp add: frames_per_buffer_def)
  with Suc.IH [OF iffD2 [OF source_at_phase w2(2)] _ lt] Suc.prems(2) obtain s' w' where
    "play_buffers exact_fp m n ?s w2 = (Inr (tone_bytes (mSampleRate s) (mNumChannels s)
       [?p + ?F ..< ?p + ?F + n * ?F], s'), w')"
    unfolding q by auto
  moreover have "[?p ..< ?p + Suc n * ?F] = [?p ..< ?p + ?F] @ [?p + ?F ..< ?p + ?F + n * ?F]"
    using upt_add_eq_append [of ?p "?p + ?F" "n * ?F"] by (simp add: add.assoc)
  ultimately show ?case
    using w1(1) w2(1) data_of_block(1) [OF assms(1) w1(2)] by (simp add: tone_bytes_append)
qed

text \<open>C34: while the framework's player gives each buffer back before it asks for the next, the source is an
  unbroken tone of 500 Hz: in exact arithmetic the bytes of \<open>n\<close> successive buffers are the samples
  \<open>0, 1, 2, \<dots>\<close> of the sine, the same in each channel and every one within 16 bits, with no jump where one
  buffer ends and the next begins. It holds for any sample rate but 0 and as long as the time stamp does
  not overflow.\<close>

theorem sine_source_unbroken_tone:
  assumes "media_doc m V" "ch = 1 \<or> ch = 2" "rate \<noteq> 0" "n * 4096 * 1000000 < 2 ^ 63"
  defines "F \<equiv> (if ch = 2 then 2048 else 4096)"
  shows "\<exists>s w'. bnd (bnd (SineSource_new rate ch) (SineSource_start m)) (\<lambda>(_, s). play_buffers exact_fp m n s) w =
      (Inr (tone_bytes rate ch [0 ..< n * F], s), w') \<and> length (tone_bytes rate ch [0 ..< n * F]) = n * kBufferSize"
proof -
  obtain s b bytes w1 where s: "bnd (SineSource_new rate ch) (SineSource_start m) w = (Inr (OK, s), w1)"
    "source_at V s b False bytes w1" "mSampleRate s = rate" "mNumChannels s = ch" "mPhase s = 0"
    by (rule sine_start [OF assms(1,2)])
  have "\<exists>s' w'. play_buffers exact_fp m n s w1 = (Inr (tone_bytes rate ch [0 ..< n * F], s'), w')"
    using play_exact [OF assms(1) s(2), of n] s(3-5) assms(3,4) by (simp add: frames_per_buffer_def F_def)
  moreover have "length (tone_bytes rate ch [0 ..< n * F]) = n * kBufferSize"
    using assms(2) by (auto simp: length_tone_bytes F_def kBufferSize_def)
  ultimately show ?thesis using s(1) by auto
qed

section \<open>A framework that is its documentation\<close>

record mworld =
  group_list :: "nat list option list"
  buffer_list :: "mbuf list"

definition mworld_view :: "'z mworld_scheme \<Rightarrow> mview" where
  "mworld_view w = \<lparr>groups_of = (\<lambda>g. if g < length (group_list w) then group_list w ! g else None),
     bufs_of = (\<lambda>b. if b < length (buffer_list w) then Some (buffer_list w ! b) else None)\<rparr>"

definition on_buf :: "nat \<Rightarrow> (mbuf \<Rightarrow> mbuf) \<Rightarrow> 'z mworld_scheme \<Rightarrow> unit \<times> 'z mworld_scheme" where
  "on_buf b h w = ((), w\<lparr>buffer_list := (buffer_list w)[b := h (buffer_list w ! b)]\<rparr>)"

definition doc_acquire :: "nat \<Rightarrow> ('z mworld_scheme, audio_end, status_t \<times> nat) prog" where
  "doc_acquire g w =
     (case filter (buf_free (mworld_view w)) (case group_list w ! g of None \<Rightarrow> [] | Some bs \<Rightarrow> bs) of
        [] \<Rightarrow> (Inl Waits_Forever, w)
      | b # _ \<Rightarrow> (Inr (OK, b), snd (on_buf b (mb_busy_update (\<lambda>_. True)) w)))"

definition doc_media :: "('z mworld_scheme) media" where
  "doc_media = \<lparr>
     new_group = (\<lambda>w. (length (group_list w), w\<lparr>group_list := group_list w @ [Some []]\<rparr>)),
     new_buffer = (\<lambda>n w. (length (buffer_list w), w\<lparr>buffer_list := buffer_list w @
       [\<lparr>mb_mem = replicate n 0, mb_off = 0, mb_len = n, mb_busy = False\<rparr>]\<rparr>)),
     add_buffer = (\<lambda>g b w. ((), w\<lparr>group_list := (group_list w)[g := map_option (\<lambda>bs. bs @ [b]) (group_list w ! g)]\<rparr>)),
     delete_group = (\<lambda>g w. ((), w\<lparr>group_list := (group_list w)[g := None]\<rparr>)),
     acquire_buffer = doc_acquire,
     buffer_size = (\<lambda>b w. of_nat (mb_len (buffer_list w ! b))),
     buffer_data = (\<lambda>b w. chunk (mb_off (buffer_list w ! b)) (mb_len (buffer_list w ! b)) (mb_mem (buffer_list w ! b))),
     buffer_store = (\<lambda>b bs. on_buf b (\<lambda>x. mb_mem_update (blit (mb_off x) bs) x)),
     set_time = (\<lambda>b t w. ((), w)),
     set_range = (\<lambda>b off n. on_buf b (\<lambda>x. x\<lparr>mb_off := unat off, mb_len := unat n\<rparr>)),
     release_buffer = (\<lambda>b. on_buf b (mb_busy_update (\<lambda>_. False)))\<rparr>"

lemma view_on_buf:
  assumes "b \<in> dom (bufs_of (mworld_view w))"
  shows "mworld_view (snd (on_buf b h w)) = upd_buf b h (mworld_view w)"
  using assms by (auto simp: mworld_view_def on_buf_def upd_buf_def fun_eq_iff split: if_splits)

lemma doc_media_new: "new_doc doc_media mworld_view"
  unfolding new_doc_def
  by (auto simp: doc_media_def mworld_view_def fun_eq_iff nth_append nth_list_update split: if_splits)

lemma doc_media_acquire: "acquire_doc doc_media mworld_view"
proof -
  have "if \<exists>b\<in>set bs. buf_free (mworld_view w) b
        then \<exists>b w'. b \<in> set bs \<and> buf_free (mworld_view w) b \<and> doc_acquire g w = (Inr (OK, b), w') \<and>
          mworld_view w' = upd_buf b (mb_busy_update (\<lambda>_. True)) (mworld_view w)
        else \<exists>w'. doc_acquire g w = (Inl Waits_Forever, w')"
    if g: "groups_of (mworld_view w) g = Some bs" for w :: "'z mworld_scheme" and g bs
  proof -
    have bs: "group_list w ! g = Some bs" using g by (simp add: mworld_view_def split: if_splits)
    show ?thesis
    proof (cases "filter (buf_free (mworld_view w)) bs")
      case Nil
      then show ?thesis by (auto simp: doc_acquire_def bs filter_empty_conv)
    next
      case (Cons b r)
      then have "b \<in> set (filter (buf_free (mworld_view w)) bs)" by simp
      then have b: "b \<in> set bs" "buf_free (mworld_view w) b" by simp_all
      then have "b \<in> dom (bufs_of (mworld_view w))" by (auto simp: buf_free_def split: option.splits)
      then have "mworld_view (snd (on_buf b (mb_busy_update (\<lambda>_. True)) w)) =
          upd_buf b (mb_busy_update (\<lambda>_. True)) (mworld_view w)" by (rule view_on_buf)
      with b Cons show ?thesis by (auto simp: doc_acquire_def bs)
    qed
  qed
  then have acq: "if \<exists>b\<in>set bs. buf_free (mworld_view w) b
        then \<exists>b w'. b \<in> set bs \<and> buf_free (mworld_view w) b \<and> doc_acquire g w = (Inr (OK, b), w') \<and>
          mworld_view w' = upd_buf b (mb_busy_update (\<lambda>_. True)) (mworld_view w)
        else \<exists>w'. doc_acquire g w = (Inl Waits_Forever, w')"
    if "groups_of (mworld_view w) g = Some bs" for w :: "'z mworld_scheme" and g bs
    using that by blast
  have ops: "acquire_buffer doc_media = doc_acquire"
    "release_buffer doc_media = (\<lambda>b. on_buf b (mb_busy_update (\<lambda>_. False)))" by (simp_all add: doc_media_def)
  show ?thesis
    unfolding acquire_doc_def ops
  proof (intro conjI allI impI)
    fix w :: "'z mworld_scheme" and b assume "b \<in> dom (bufs_of (mworld_view w))"
    from view_on_buf [OF this] show "\<exists>w'. on_buf b (mb_busy_update (\<lambda>_. False)) w = ((), w') \<and>
        mworld_view w' = upd_buf b (mb_busy_update (\<lambda>_. False)) (mworld_view w)"
      by (simp add: on_buf_def)
  qed (rule acq)
qed

lemma doc_media_contents: "contents_doc doc_media mworld_view"
proof -
  have view: "mworld_view (snd (on_buf b h w)) = upd_buf b h (mworld_view w)"
    "on_buf b h w = ((), snd (on_buf b h w))" "buffer_list w ! b = x"
    if "bufs_of (mworld_view w) b = Some x" for w :: "'z mworld_scheme" and b h x
    using view_on_buf [OF domI [of "bufs_of (mworld_view w)" b x]] that
    by (simp, simp add: on_buf_def, auto simp: mworld_view_def split: if_splits)
  have "upd_buf b (\<lambda>x. mb_mem_update (blit (mb_off x) bs) x) (mworld_view w) =
      upd_buf b (mb_mem_update (blit (mb_off x) bs)) (mworld_view w)"
    if "bufs_of (mworld_view w) b = Some x" for w :: "'z mworld_scheme" and b bs x
    using that by (simp add: upd_buf_def)
  note same = this
  have ops: "buffer_size doc_media = (\<lambda>b w. of_nat (mb_len (buffer_list w ! b)))"
    "buffer_data doc_media = (\<lambda>b w. chunk (mb_off (buffer_list w ! b)) (mb_len (buffer_list w ! b)) (mb_mem (buffer_list w ! b)))"
    "buffer_store doc_media = (\<lambda>b bs. on_buf b (\<lambda>x. mb_mem_update (blit (mb_off x) bs) x))"
    "set_time doc_media = (\<lambda>b t w. ((), w))"
    "set_range doc_media = (\<lambda>b off n. on_buf b (\<lambda>x. x\<lparr>mb_off := unat off, mb_len := unat n\<rparr>))"
    by (simp_all add: doc_media_def)
  have step: "\<exists>w'. on_buf b h w = ((), w') \<and> mworld_view w' = upd_buf b h (mworld_view w)"
    if "bufs_of (mworld_view w) b = Some x" for w :: "'z mworld_scheme" and b h x
    using view(1,2) [OF that] by blast
  show ?thesis
    unfolding contents_doc_def ops
    by (intro allI impI conjI) (simp_all add: view(3) step flip: same)
qed

lemma doc_media_doc: "media_doc doc_media mworld_view"
  by (simp add: media_doc_def doc_media_new doc_media_acquire doc_media_contents)

theorem sine_source_unbroken_tone_witness:
  "\<exists>s w'. bnd (bnd (SineSource_new 48000 2) (SineSource_start doc_media))
        (\<lambda>(_, s). play_buffers exact_fp doc_media 100 s) \<lparr>group_list = [], buffer_list = []\<rparr> =
      (Inr (tone_bytes 48000 2 [0 ..< 204800], s), w')"
  using sine_source_unbroken_tone [OF doc_media_doc, of 2 48000 100 "\<lparr>group_list = [], buffer_list = []\<rparr>"]
  by auto

end
