(* ===== verification/Audio_Libmedia.thy ===== *)
theory Audio_Libmedia
  imports Audio_Sine "HOL-Library.While_Combinator"
begin

text \<open>
  \<open>utils.cpp\<close>, \<open>libmedia_playback.cpp\<close> and \<open>libmedia_record.cpp\<close>: playing the tone or a file, and
  recording to a file, through the callbacks of \<open>AudioTrack\<close> and \<open>AudioRecord\<close>. The framework's classes,
  \<open>system/audio.h\<close> and libsndfile are parameters. What the functions write to the log is left out.
\<close>

section \<open>The libraries\<close>

text \<open>The formats the source names, apart from each other as the labels of its switches require.\<close>

datatype audio_format_t =
    AUDIO_FORMAT_PCM_8_BIT
  | AUDIO_FORMAT_PCM_16_BIT
  | AUDIO_FORMAT_PCM_32_BIT
  | AUDIO_FORMAT_INVALID
  | Other_Format nat

record sf_consts =
  SF_FORMAT_WAV :: i32
  SF_FORMAT_PCM_U8 :: i32
  SF_FORMAT_PCM_16 :: i32
  SF_FORMAT_PCM_32 :: i32
  SF_FORMAT_SUBMASK :: i32

record SF_INFO =
  frames :: int
  samplerate :: i32
  channels :: i32
  sf_format :: i32

datatype record_event = Record_More_Data "byte list" | Record_Overrun | Record_Other int

text \<open>A callback that asks for data passes a buffer: its contents, or NULL.\<close>

datatype track_event = Track_More_Data "byte list option" | Track_Stream_End | Track_Other int

text \<open>
  Files, recorders and tracks are handles. The calls during which \<open>AudioRecord\<close> and \<open>AudioTrack\<close> run
  their callback report the events. \<open>track_deliver\<close> gives the track the \<open>size\<close> bytes the callback left
  in the buffer. A failing \<open>sf_open_read\<close> leaves the info as it was: the parameter says what is there.
\<close>

record 'w audio = "'w media" +
  audio_bytes_per_sample :: "audio_format_t \<Rightarrow> u64"
  in_mask_from_count :: "i32 \<Rightarrow> u32"
  out_mask_from_count :: "i32 \<Rightarrow> u32"
  i16_from_u8 :: "byte \<Rightarrow> i16"
  u8_from_i16 :: "i16 \<Rightarrow> byte"
  st_BAD_TYPE :: status_t
  st_INVALID_OPERATION :: status_t
  sfc :: sf_consts
  sf_open_read :: "byte list \<Rightarrow> 'w \<Rightarrow> (nat option \<times> SF_INFO) \<times> 'w"
  sf_open_write :: "byte list \<Rightarrow> SF_INFO \<Rightarrow> 'w \<Rightarrow> nat option \<times> 'w"
  sf_close :: "nat \<Rightarrow> 'w \<Rightarrow> int \<times> 'w"
  sf_readf_short :: "nat \<Rightarrow> int \<Rightarrow> 'w \<Rightarrow> (int \<times> i16 list) \<times> 'w"
  sf_readf_int :: "nat \<Rightarrow> int \<Rightarrow> 'w \<Rightarrow> (int \<times> i32 list) \<times> 'w"
  sf_writef_short :: "nat \<Rightarrow> i16 list \<Rightarrow> int \<Rightarrow> 'w \<Rightarrow> int \<times> 'w"
  sf_writef_int :: "nat \<Rightarrow> i32 list \<Rightarrow> int \<Rightarrow> 'w \<Rightarrow> int \<times> 'w"
  getMinFrameCount :: "i32 \<Rightarrow> audio_format_t \<Rightarrow> u32 \<Rightarrow> 'w \<Rightarrow> (status_t \<times> u64) \<times> 'w"
  new_AudioRecord :: "i32 \<Rightarrow> audio_format_t \<Rightarrow> u32 \<Rightarrow> u64 \<Rightarrow> u32 \<Rightarrow> 'w \<Rightarrow> nat \<times> 'w"
  record_initCheck :: "nat \<Rightarrow> 'w \<Rightarrow> status_t \<times> 'w"
  record_start :: "nat \<Rightarrow> 'w \<Rightarrow> (status_t \<times> record_event list) \<times> 'w"
  record_sleep :: "u32 \<Rightarrow> 'w \<Rightarrow> record_event list \<times> 'w"
  record_stop :: "nat \<Rightarrow> 'w \<Rightarrow> record_event list \<times> 'w"
  new_AudioTrack :: "i32 \<Rightarrow> audio_format_t \<Rightarrow> u32 \<Rightarrow> u64 \<Rightarrow> 'w \<Rightarrow> nat \<times> 'w"
  track_initCheck :: "nat \<Rightarrow> 'w \<Rightarrow> status_t \<times> 'w"
  track_setVolume :: "nat \<Rightarrow> rat \<Rightarrow> 'w \<Rightarrow> unit \<times> 'w"
  track_start :: "nat \<Rightarrow> 'w \<Rightarrow> (status_t \<times> track_event list) \<times> 'w"
  track_sleep :: "u32 \<Rightarrow> 'w \<Rightarrow> track_event list \<times> 'w"
  track_stop :: "nat \<Rightarrow> 'w \<Rightarrow> track_event list \<times> 'w"
  track_deliver :: "byte list \<Rightarrow> 'w \<Rightarrow> unit \<times> 'w"

section \<open>utils.cpp\<close>

definition ConvertToSndFileFormat :: "sf_consts \<Rightarrow> audio_format_t \<Rightarrow> i32" where
  "ConvertToSndFileFormat c format =
     (case format of
        AUDIO_FORMAT_PCM_8_BIT \<Rightarrow> SF_FORMAT_WAV c OR SF_FORMAT_PCM_U8 c
      | AUDIO_FORMAT_PCM_16_BIT \<Rightarrow> SF_FORMAT_WAV c OR SF_FORMAT_PCM_16 c
      | AUDIO_FORMAT_PCM_32_BIT \<Rightarrow> SF_FORMAT_WAV c OR SF_FORMAT_PCM_32 c
      | _ \<Rightarrow> -1)"

definition ConvertToAudioFormat :: "sf_consts \<Rightarrow> i32 \<Rightarrow> audio_format_t" where
  "ConvertToAudioFormat c format =
     (let format = format AND SF_FORMAT_SUBMASK c in
      if format = SF_FORMAT_PCM_U8 c then AUDIO_FORMAT_PCM_8_BIT
      else if format = SF_FORMAT_PCM_16 c then AUDIO_FORMAT_PCM_16_BIT
      else if format = SF_FORMAT_PCM_32 c then AUDIO_FORMAT_PCM_32_BIT
      else AUDIO_FORMAT_INVALID)"

section \<open>Views of memory\<close>

text \<open>The samples that a block of bytes is when it is read through a pointer to \<open>short\<close> or \<open>int\<close>.\<close>

fun i16s :: "byte list \<Rightarrow> i16 list" where
  "i16s (a # b # r) = le_val [a, b] # i16s r"
| "i16s _ = []"

fun i32s :: "byte list \<Rightarrow> i32 list" where
  "i32s (a # b # c # d # r) = le_val [a, b, c, d] # i32s r"
| "i32s _ = []"

definition int_bytes :: "i32 list \<Rightarrow> byte list" where
  "int_bytes xs = concat (map (le_bytes 4) xs)"

text \<open>A count that is stored in an \<open>int\<close>.\<close>

definition to_int :: "int \<Rightarrow> int" where
  "to_int n = sint (of_int n :: i32)"

text \<open>A write of \<open>bs\<close> to a buffer with the contents \<open>data\<close>, from its start.\<close>

definition fill :: "byte list \<Rightarrow> byte list \<Rightarrow> audio_end + byte list" where
  "fill bs data = (if length bs \<le> length data then Inr (blit 0 bs data) else Inl Heap_Overrun)"

section \<open>libmedia_record.cpp\<close>

definition RecordCallback :: "record_event \<Rightarrow> byte list \<Rightarrow> byte list" where
  "RecordCallback event audio_data =
     (case event of
        Record_More_Data buffer \<Rightarrow> fold (\<lambda>b d. d @ [b]) buffer audio_data
      | _ \<Rightarrow> audio_data)"

text \<open>\<open>while ((buf_count * frame_count) < min_frame_count) buf_count++\<close>.\<close>

definition buf_count_loop :: "u32 \<Rightarrow> u64 \<Rightarrow> audio_end + u64" where
  "buf_count_loop frame_count min_frame_count =
     (case while_option (\<lambda>buf_count. buf_count * ucast frame_count < min_frame_count) (\<lambda>buf_count. buf_count + 1) 2 of
        None \<Rightarrow> Inl Never_Ends | Some n \<Rightarrow> Inr n)"

text \<open>The chain of writes, one for each format; \<open>temp\<close> is the copy of 8-bit data in 16 bits.\<close>

definition write_frames ::
    "('w, 'z) audio_scheme \<Rightarrow> nat \<Rightarrow> audio_format_t \<Rightarrow> byte list \<Rightarrow> int \<Rightarrow> ('w, audio_end, unit) prog" where
  "write_frames a out_file audio_format audio_data file_frame_count =
     (if audio_format = AUDIO_FORMAT_PCM_8_BIT then
        let temp = map (i16_from_u8 a) audio_data in
        bnd (acall (sf_writef_short a out_file temp file_frame_count)) (\<lambda>frames_written.
        CHECK (to_int frames_written = file_frame_count))
      else if audio_format = AUDIO_FORMAT_PCM_16_BIT then
        bnd (acall (sf_writef_short a out_file (i16s audio_data) file_frame_count)) (\<lambda>frames_written.
        CHECK (to_int frames_written = file_frame_count))
      else if audio_format = AUDIO_FORMAT_PCM_32_BIT then
        bnd (acall (sf_writef_int a out_file (i32s audio_data) file_frame_count)) (\<lambda>frames_written.
        CHECK (to_int frames_written = file_frame_count))
      else ret ())"

text \<open>The part behind the recording: \<open>audio_data\<close> goes to the file.\<close>

definition save_recording ::
    "('w, 'z) audio_scheme \<Rightarrow> byte list \<Rightarrow> i32 \<Rightarrow> i32 \<Rightarrow> audio_format_t \<Rightarrow> status_t \<Rightarrow> byte list \<Rightarrow>
     ('w, audio_end, status_t) prog" where
  "save_recording a filename sample_rate num_channels audio_format status audio_data =
     (let info = \<lparr>frames = 0, samplerate = sample_rate, channels = num_channels,
                   sf_format = ConvertToSndFileFormat (sfc a) audio_format\<rparr> in
      if sf_format info = -1 then ret (st_BAD_TYPE a) else
      bnd (acall (sf_open_write a filename info)) (\<lambda>out_file.
      case out_file of None \<Rightarrow> ret (st_INVALID_OPERATION a) | Some out_file \<Rightarrow>
      let frame_size = audio_bytes_per_sample a audio_format * scast num_channels in
      if frame_size = 0 then fail Divides_By_Zero else
      let file_frame_count = sint (of_nat (length audio_data) div frame_size) in
      bnd (write_frames a out_file audio_format audio_data file_frame_count) (\<lambda>_.
      bnd (acall (sf_close a out_file)) (\<lambda>_.
      ret status))))"

text \<open>\<open>max_buffer_size\<close> is 2048. With the status, the recorded data.\<close>

definition LibmediaRecord_Record ::
    "('w, 'z) audio_scheme \<Rightarrow> byte list \<Rightarrow> i32 \<Rightarrow> i32 \<Rightarrow> audio_format_t \<Rightarrow> i32 \<Rightarrow> byte list \<Rightarrow>
     ('w, audio_end, status_t \<times> byte list) prog" where
  "LibmediaRecord_Record a filename sample_rate num_channels audio_format duration_secs audio_data =
     (let channel_in_mask = in_mask_from_count a num_channels in
      bnd (acall (getMinFrameCount a sample_rate audio_format channel_in_mask)) (\<lambda>(status, min_frame_count).
      if status \<noteq> OK then ret (status, audio_data) else
      let bytes = audio_bytes_per_sample a audio_format * scast num_channels in
      if bytes = 0 then fail Divides_By_Zero else
      let frame_count = ucast (2048 div bytes) in
      bnd (pure (buf_count_loop frame_count min_frame_count)) (\<lambda>buf_count.
      bnd (acall (new_AudioRecord a sample_rate audio_format channel_in_mask (buf_count * ucast frame_count) frame_count))
        (\<lambda>rec.
      bnd (acall (record_initCheck a rec)) (\<lambda>status.
      if status \<noteq> OK then ret (status, audio_data) else
      bnd (acall (record_start a rec)) (\<lambda>(status, events).
      let audio_data = fold RecordCallback events audio_data in
      if status \<noteq> OK then ret (status, audio_data) else
      bnd (acall (record_sleep a (ucast duration_secs))) (\<lambda>events.
      let audio_data = fold RecordCallback events audio_data in
      bnd (acall (record_stop a rec)) (\<lambda>events.
      let audio_data = fold RecordCallback events audio_data in
      bnd (save_recording a filename sample_rate num_channels audio_format status audio_data) (\<lambda>status.
      ret (status, audio_data))))))))))"

section \<open>libmedia_playback.cpp\<close>

text \<open>The fields \<open>pb_x\<close> are the members \<open>x_\<close>. \<open>None\<close> in \<open>pb_sine_data_buffer\<close> is NULL or, before any initialisation, whatever is there.\<close>

record LibmediaPlayback =
  pb_sine_data_buffer :: "nat option"
  pb_in_file :: "nat option"
  pb_source :: "SineSource option"
  pb_audio_format :: audio_format_t
  pb_sample_rate :: i32
  pb_num_channels :: i32

text \<open>The status of \<open>start\<close> and of \<open>read\<close> is not looked at.\<close>

definition InitSine ::
    "'d fp \<Rightarrow> ('w, 'z) audio_scheme \<Rightarrow> audio_format_t \<Rightarrow> i32 \<Rightarrow> i32 \<Rightarrow> LibmediaPlayback \<Rightarrow>
     ('w, audio_end, LibmediaPlayback) prog" where
  "InitSine f a audio_format sample_rate num_channels p =
     (let p = p\<lparr>pb_audio_format := audio_format, pb_sample_rate := sample_rate, pb_num_channels := num_channels,
               pb_in_file := None\<rparr> in
      bnd (SineSource_new (pb_sample_rate p) (pb_num_channels p)) (\<lambda>s.
      bnd (SineSource_start a s) (\<lambda>(_, s).
      bnd (SineSource_read f a s) (\<lambda>((_, out), s).
      ret (p\<lparr>pb_sine_data_buffer := out, pb_source := Some s\<rparr>)))))"

definition InitFile ::
    "('w, 'z) audio_scheme \<Rightarrow> byte list \<Rightarrow> LibmediaPlayback \<Rightarrow> ('w, audio_end, LibmediaPlayback) prog" where
  "InitFile a filename p =
     bnd (acall (sf_open_read a filename)) (\<lambda>(file, info).
     ret (p\<lparr>pb_in_file := file, pb_sample_rate := samplerate info, pb_num_channels := channels info,
            pb_audio_format := ConvertToAudioFormat (sfc a) (sf_format info)\<rparr>))"

text \<open>A product of two \<open>int\<close>s.\<close>

definition int_mul :: "int \<Rightarrow> int \<Rightarrow> audio_end + int" where
  "int_mul x y = (if - (2 ^ 31) \<le> x * y \<and> x * y < 2 ^ 31 then Inr (x * y) else Inl Undefined)"

text \<open>
  The new size and the new contents of the buffer. \<open>temp\<close> has room for one \<open>short\<close> per byte of
  \<open>data\<close>; the product is not divided by \<open>sample_size\<close>, which is 1 there.
\<close>

definition FillBuffer ::
    "('w, 'z) audio_scheme \<Rightarrow> LibmediaPlayback \<Rightarrow> byte list option \<Rightarrow> ('w, audio_end, nat \<times> byte list) prog" where
  "FillBuffer a p raw =
     (case raw of None \<Rightarrow> fail Check_Failed | Some data \<Rightarrow>
      (case pb_in_file p of
         Some in_file \<Rightarrow>
           let bytes = audio_bytes_per_sample a (pb_audio_format p);
               frame_size = ucast (bytes * scast (pb_num_channels p)) :: i32;
               sample_size = ucast bytes :: i32;
               count = sint (of_nat (length data) div scast frame_size :: u64) in
           if sample_size \<noteq> 1 \<and> sample_size \<noteq> 2 \<and> sample_size \<noteq> 4 then ret (0, data) else
           if frame_size = 0 then fail Divides_By_Zero else
           bnd (if sample_size = 1 then
                  bnd (acall (sf_readf_short a in_file count)) (\<lambda>(n, temp).
                  if length data < length temp then fail Heap_Overrun else
                  bnd (pure (int_mul (to_int n) (sint frame_size))) (\<lambda>num_samples.
                  bnd (pure (fill (map (u8_from_i16 a) (take (nat num_samples) temp)) data)) (\<lambda>data.
                  ret (to_int n, data))))
                else if sample_size = 2 then
                  bnd (acall (sf_readf_short a in_file count)) (\<lambda>(n, xs).
                  bnd (pure (fill (pcm_bytes xs) data)) (\<lambda>data. ret (to_int n, data)))
                else
                  bnd (acall (sf_readf_int a in_file count)) (\<lambda>(n, xs).
                  bnd (pure (fill (int_bytes xs) data)) (\<lambda>data. ret (to_int n, data)))) (\<lambda>(frames_read, data).
           bnd (pure (int_mul (sint frame_size) frames_read)) (\<lambda>size.
           ret (unat (of_int size :: u64), data)))
       | None \<Rightarrow>
           (case pb_sine_data_buffer p of None \<Rightarrow> fail Bad_Pointer | Some b \<Rightarrow>
            bnd (peek (buffer_size a b)) (\<lambda>n.
            let size = if length data < unat n then length data else unat n in
            bnd (peek (buffer_data a b)) (\<lambda>d.
            bnd (pure (fill (take size d) data)) (\<lambda>data.
            ret (size, data)))))))"

text \<open>The callback sets the size of the track's buffer; the track then takes that many bytes.\<close>

definition AudioCallback ::
    "('w, 'z) audio_scheme \<Rightarrow> LibmediaPlayback \<Rightarrow> track_event \<Rightarrow> ('w, audio_end, unit) prog" where
  "AudioCallback a p event =
     (case event of
        Track_More_Data raw \<Rightarrow>
          bnd (FillBuffer a p raw) (\<lambda>(size, data). acall (track_deliver a (take size data)))
      | _ \<Rightarrow> ret ())"

primrec track_callbacks ::
    "('w, 'z) audio_scheme \<Rightarrow> LibmediaPlayback \<Rightarrow> track_event list \<Rightarrow> ('w, audio_end, unit) prog" where
  "track_callbacks a p [] = ret ()"
| "track_callbacks a p (e # es) = bnd (AudioCallback a p e) (\<lambda>_. track_callbacks a p es)"

definition LibmediaPlayback_Play ::
    "('w, 'z) audio_scheme \<Rightarrow> LibmediaPlayback \<Rightarrow> i32 \<Rightarrow> ('w, audio_end, status_t) prog" where
  "LibmediaPlayback_Play a p duration_secs =
     bnd (acall (new_AudioTrack a (pb_sample_rate p) (pb_audio_format p) (out_mask_from_count a (pb_num_channels p)) 0)) (\<lambda>track.
     bnd (acall (track_initCheck a track)) (\<lambda>status.
     if status \<noteq> OK then ret status else
     bnd (acall (track_setVolume a track (9 / 10))) (\<lambda>_.
     bnd (acall (track_start a track)) (\<lambda>(status, events).
     bnd (track_callbacks a p events) (\<lambda>_.
     if status \<noteq> OK then ret status else
     bnd (acall (track_sleep a (ucast duration_secs))) (\<lambda>events.
     bnd (track_callbacks a p events) (\<lambda>_.
     bnd (acall (track_stop a track)) (\<lambda>events.
     bnd (track_callbacks a p events) (\<lambda>_.
     bnd (case pb_in_file p of
            Some h \<Rightarrow> bnd (acall (sf_close a h)) (\<lambda>_. ret ())
          | None \<Rightarrow> (case pb_sine_data_buffer p of None \<Rightarrow> fail Bad_Pointer | Some b \<Rightarrow> acall (release_buffer a b))) (\<lambda>_.
     ret status))))))))))"

text \<open>The destructor of the object, when it goes out of scope: it lets go of the source.\<close>

definition LibmediaPlayback_delete ::
    "('w, 'z) audio_scheme \<Rightarrow> LibmediaPlayback \<Rightarrow> ('w, audio_end, unit) prog" where
  "LibmediaPlayback_delete a p = (case pb_source p of None \<Rightarrow> ret () | Some s \<Rightarrow> SineSource_delete a s)"

section \<open>Formats\<close>

definition sf_doc :: "sf_consts \<Rightarrow> bool" where
  "sf_doc c \<longleftrightarrow>
     (\<forall>x\<in>{SF_FORMAT_PCM_U8 c, SF_FORMAT_PCM_16 c, SF_FORMAT_PCM_32 c}. x AND SF_FORMAT_SUBMASK c = x) \<and>
     distinct [SF_FORMAT_PCM_U8 c, SF_FORMAT_PCM_16 c, SF_FORMAT_PCM_32 c] \<and>
     SF_FORMAT_WAV c AND SF_FORMAT_SUBMASK c = 0 \<and> (SF_FORMAT_WAV c OR SF_FORMAT_SUBMASK c) \<noteq> -1"

definition supported :: "audio_format_t \<Rightarrow> bool" where
  "supported f \<longleftrightarrow> f = AUDIO_FORMAT_PCM_8_BIT \<or> f = AUDIO_FORMAT_PCM_16_BIT \<or> f = AUDIO_FORMAT_PCM_32_BIT"

lemma wav_or_sub:
  assumes "sf_doc c" "x \<in> {SF_FORMAT_PCM_U8 c, SF_FORMAT_PCM_16 c, SF_FORMAT_PCM_32 c}"
  shows "(SF_FORMAT_WAV c OR x) AND SF_FORMAT_SUBMASK c = x" "(SF_FORMAT_WAV c OR x) \<noteq> -1"
proof -
  have x: "x AND SF_FORMAT_SUBMASK c = x" and w: "SF_FORMAT_WAV c AND SF_FORMAT_SUBMASK c = 0"
    using assms unfolding sf_doc_def by blast+
  show "(SF_FORMAT_WAV c OR x) AND SF_FORMAT_SUBMASK c = x"
    by (simp add: bit.conj_disj_distrib2 x w)
  show "(SF_FORMAT_WAV c OR x) \<noteq> -1"
  proof
    assume eq: "(SF_FORMAT_WAV c OR x) = -1"
    have "x OR SF_FORMAT_SUBMASK c = (x AND SF_FORMAT_SUBMASK c) OR SF_FORMAT_SUBMASK c" by (simp only: x)
    also have "\<dots> = SF_FORMAT_SUBMASK c" by (rule bit_word_eqI) (auto simp: bit_simps)
    finally have "(SF_FORMAT_WAV c OR SF_FORMAT_SUBMASK c) = (SF_FORMAT_WAV c OR x) OR SF_FORMAT_SUBMASK c"
      by (simp add: or.assoc)
    also have "\<dots> = -1" by (simp only: eq) simp
    finally have "(SF_FORMAT_WAV c OR SF_FORMAT_SUBMASK c) = -1" .
    with assms(1) show False by (simp add: sf_doc_def)
  qed
qed

text \<open>The two translations of sample formats are inverse to each other: a format that the recorder
  can save is read back by the player as the same format, and every other one is refused by both.\<close>

lemma sample_formats_roundtrip:
  assumes "sf_doc c"
  shows "ConvertToAudioFormat c (ConvertToSndFileFormat c f) =
      (if supported f then f else ConvertToAudioFormat c (-1)) \<and>
    (ConvertToSndFileFormat c f = -1 \<longleftrightarrow> \<not> supported f) \<and>
    supported (ConvertToAudioFormat c s) = (ConvertToAudioFormat c s \<noteq> AUDIO_FORMAT_INVALID) \<and>
    (supported (ConvertToAudioFormat c s) \<longrightarrow>
       ConvertToSndFileFormat c (ConvertToAudioFormat c s) = SF_FORMAT_WAV c OR (s AND SF_FORMAT_SUBMASK c))"
proof -
  have d: "SF_FORMAT_PCM_U8 c \<noteq> SF_FORMAT_PCM_16 c" "SF_FORMAT_PCM_U8 c \<noteq> SF_FORMAT_PCM_32 c"
    "SF_FORMAT_PCM_16 c \<noteq> SF_FORMAT_PCM_32 c" using assms by (auto simp: sf_doc_def)
  note w = wav_or_sub [OF assms]
  show ?thesis
    using d d [symmetric] by (cases f) (auto simp: ConvertToSndFileFormat_def ConvertToAudioFormat_def supported_def Let_def w)
qed

definition doc_sf :: sf_consts where
  "doc_sf = \<lparr>SF_FORMAT_WAV = 0x10000, SF_FORMAT_PCM_U8 = 5, SF_FORMAT_PCM_16 = 2, SF_FORMAT_PCM_32 = 4,
     SF_FORMAT_SUBMASK = 0xFFFF\<rparr>"

lemma doc_sf_doc: "sf_doc doc_sf"
  by (simp add: sf_doc_def doc_sf_def)

lemma sample_formats_roundtrip_witness:
  "ConvertToAudioFormat doc_sf (ConvertToSndFileFormat doc_sf AUDIO_FORMAT_PCM_32_BIT) = AUDIO_FORMAT_PCM_32_BIT"
  using sample_formats_roundtrip [OF doc_sf_doc, of AUDIO_FORMAT_PCM_32_BIT 0] by (simp add: supported_def)

end
