(* ===== verification/Audio_Record.thy ===== *)
theory Audio_Record
  imports Audio_Libmedia
begin

text \<open>
  What \<open>LibmediaRecord::Record\<close> promises: the size it asks \<open>AudioRecord\<close> for, the file it writes when
  the framework does its part, and what is left of it when the framework does not.
\<close>

section \<open>The number of buffers\<close>

lemma buf_count_never:
  assumes "m \<noteq> 0"
  shows "buf_count_loop 0 m = Inl Never_Ends"
  using assms by (simp add: buf_count_loop_def while_option_def word_gt_0)

lemma buf_count_minimal:
  assumes fc: "fc \<noteq> 0" and m: "unat m \<le> 2 ^ 60"
  obtains n where "buf_count_loop fc m = Inr n" "unat m \<le> unat n * unat fc" "2 \<le> unat n"
    "n = 2 \<or> (unat n - 1) * unat fc < unat m" "unat (n * ucast fc) = unat n * unat fc"
proof -
  let ?b = "\<lambda>n. n * ucast fc < m" and ?c = "\<lambda>n :: u64. n + 1"
  define P where "P n \<longleftrightarrow> 2 \<le> unat n \<and> (n = 2 \<or> (unat n - 1) * unat fc < unat m)" for n :: u64
  have f: "1 \<le> unat fc" "unat fc < 2 ^ 32" using fc unsigned_less [of fc] by (auto simp: Suc_le_eq unat_gt_0)
  have bound: "unat n * unat fc < 2 ^ 61" "unat (n * ucast fc) = unat n * unat fc" "unat n < 2 ^ 61" if "P n" for n :: u64
  proof -
    have "(unat n - 1) * unat fc \<le> 2 ^ 60 + 2 ^ 32"
      using that f m by (auto simp: P_def)
    moreover have "unat n * unat fc = (unat n - 1) * unat fc + unat fc"
      using that by (cases "unat n") (auto simp: P_def)
    ultimately show *: "unat n * unat fc < 2 ^ 61" using f by simp
    then show "unat (n * ucast fc) = unat n * unat fc"
      by (simp add: unat_word_ariths take_bit_eq_mod)
    have "unat n \<le> unat n * unat fc" using f by simp
    from this * show "unat n < 2 ^ 61" by (rule order.strict_trans1)
  qed
  have step: "P (?c n)" "unat (?c n) = Suc (unat n)" if "P n" "?b n" for n
  proof -
    have lt: "unat n * unat fc < unat m" using that(2) bound(2) [OF that(1)] by (simp add: word_less_nat_alt)
    show u: "unat (?c n) = Suc (unat n)"
      using bound(3) [OF that(1)] by (simp add: unat_word_ariths take_bit_eq_mod)
    from lt that(1) show "P (?c n)" unfolding P_def u by simp
  qed
  have "\<exists>t. while_option ?b ?c 2 = Some t"
  proof (rule measure_while_option_Some [where P = P and f = "\<lambda>n. unat m - unat n * unat fc"])
    fix n assume n: "P n" "?b n"
    have "unat n * unat fc < unat m" using n(2) bound(2) [OF n(1)] by (simp add: word_less_nat_alt)
    then show "P (?c n) \<and> unat m - unat (?c n) * unat fc < unat m - unat n * unat fc"
      using step [OF n] f by (simp add: diff_less_mono2)
  qed (simp add: P_def)
  then obtain n where n: "while_option ?b ?c 2 = Some n" by blast
  have "P n" by (rule while_option_rule [where P = P, OF _ n]) (auto simp: step P_def [of 2])
  moreover have "\<not> ?b n" by (rule while_option_stop [OF n])
  ultimately show ?thesis
    using n bound(2) [of n] by (intro that) (auto simp: buf_count_loop_def P_def word_less_nat_alt not_less)
qed

section \<open>The documentation of the recorder and of libsndfile\<close>

text \<open>
  The view of the world: everything \<open>AudioRecord\<close> has handed to the callback so far, and for each file
  opened for writing its number of channels and the samples written.
\<close>

record rview =
  captured :: "byte list"
  sf_files :: "nat \<rightharpoonup> nat \<times> int list"

definition delivered :: "record_event list \<Rightarrow> byte list" where
  "delivered es = concat (map (\<lambda>e. case e of Record_More_Data bs \<Rightarrow> bs | _ \<Rightarrow> []) es)"

definition capturing :: "('w \<Rightarrow> rview) \<Rightarrow> record_event list \<Rightarrow> 'w \<Rightarrow> 'w \<Rightarrow> bool" where
  "capturing R es w w' \<longleftrightarrow> R w' = (R w)\<lparr>captured := captured (R w) @ delivered es\<rparr>"

definition sample_bytes :: "audio_format_t \<Rightarrow> nat" where
  "sample_bytes f = (case f of AUDIO_FORMAT_PCM_8_BIT \<Rightarrow> 1 | AUDIO_FORMAT_PCM_16_BIT \<Rightarrow> 2
     | AUDIO_FORMAT_PCM_32_BIT \<Rightarrow> 4 | _ \<Rightarrow> 0)"

text \<open>What holds of every call, whether it succeeds or not.\<close>

definition recorder_doc :: "('w, 'z) audio_scheme \<Rightarrow> ('w \<Rightarrow> rview) \<Rightarrow> bool" where
  "recorder_doc a R \<longleftrightarrow>
     sf_doc (sfc a) \<and> st_BAD_TYPE a \<noteq> OK \<and> st_INVALID_OPERATION a \<noteq> OK \<and>
     (\<forall>f. supported f \<longrightarrow> audio_bytes_per_sample a f = of_nat (sample_bytes f)) \<and>
     (\<forall>r f k w. R (snd (getMinFrameCount a r f k w)) = R w) \<and>
     (\<forall>r f k n c w. R (snd (new_AudioRecord a r f k n c w)) = R w) \<and>
     (\<forall>h w. R (snd (record_initCheck a h w)) = R w) \<and>
     (\<forall>h w. capturing R (snd (fst (record_start a h w))) w (snd (record_start a h w))) \<and>
     (\<forall>t w. capturing R (fst (record_sleep a t w)) w (snd (record_sleep a t w))) \<and>
     (\<forall>h w. capturing R (fst (record_stop a h w)) w (snd (record_stop a h w))) \<and>
     (\<forall>n i w. fst (sf_open_write a n i w) = None \<longrightarrow> R (snd (sf_open_write a n i w)) = R w) \<and>
     (\<forall>n i w h. fst (sf_open_write a n i w) = Some h \<longrightarrow> R (snd (sf_open_write a n i w)) =
        (R w)\<lparr>sf_files := (sf_files (R w))(h \<mapsto> (nat (sint (channels i)), []))\<rparr>) \<and>
     (\<forall>h w. R (snd (sf_close a h w)) = R w)"

text \<open>
  A framework that does what it is asked to: it accepts the parameters, delivers what it records and
  writes files in full. \<open>n\<close> frames of \<open>c\<close> channels are the first \<open>n * c\<close> samples.
\<close>

definition writes :: "('w \<Rightarrow> rview) \<Rightarrow> nat \<Rightarrow> int list \<Rightarrow> int \<Rightarrow> 'w \<Rightarrow> int \<times> 'w \<Rightarrow> bool" where
  "writes R h xs n w r \<longleftrightarrow> (\<forall>c d. sf_files (R w) h = Some (c, d) \<longrightarrow> 0 \<le> n \<longrightarrow> nat n * c \<le> length xs \<longrightarrow>
     fst r = n \<and> R (snd r) = (R w)\<lparr>sf_files := (sf_files (R w))(h \<mapsto> (c, d @ take (nat n * c) xs))\<rparr>)"

definition recorder_works :: "('w, 'z) audio_scheme \<Rightarrow> ('w \<Rightarrow> rview) \<Rightarrow> bool" where
  "recorder_works a R \<longleftrightarrow>
     (\<forall>r f k w. fst (fst (getMinFrameCount a r f k w)) = OK \<and> unat (snd (fst (getMinFrameCount a r f k w))) \<le> 2 ^ 60) \<and>
     (\<forall>h w. fst (record_initCheck a h w) = OK) \<and>
     (\<forall>h w. fst (fst (record_start a h w)) = OK \<and> length (delivered (snd (fst (record_start a h w)))) < 2 ^ 29) \<and>
     (\<forall>t w. length (delivered (fst (record_sleep a t w))) < 2 ^ 29) \<and>
     (\<forall>h w. length (delivered (fst (record_stop a h w))) < 2 ^ 29) \<and>
     (\<forall>n i w. fst (sf_open_write a n i w) \<noteq> None) \<and>
     (\<forall>h xs n w. writes R h (map sint xs) n w (sf_writef_short a h xs n w)) \<and>
     (\<forall>h xs n w. writes R h (map sint xs) n w (sf_writef_int a h xs n w))"

section \<open>The callback\<close>

lemma fold_push_back: "fold (\<lambda>b d. d @ [b]) bs d = d @ bs"
  by (induction bs arbitrary: d) simp_all

lemma RecordCallback_eq: "RecordCallback e d = d @ delivered [e]"
  by (cases e) (simp_all add: RecordCallback_def delivered_def fold_push_back)

lemma fold_RecordCallback [simp]: "fold RecordCallback es d = d @ delivered es"
  by (induction es arbitrary: d) (simp_all add: RecordCallback_eq delivered_def)

section \<open>Saving\<close>

text \<open>The samples of recorded bytes.\<close>

definition recorded_samples :: "('w, 'z) audio_scheme \<Rightarrow> audio_format_t \<Rightarrow> byte list \<Rightarrow> int list" where
  "recorded_samples a f d =
     (if f = AUDIO_FORMAT_PCM_8_BIT then map (\<lambda>b. sint (i16_from_u8 a b)) d
      else if f = AUDIO_FORMAT_PCM_16_BIT then map sint (i16s d) else map sint (i32s d))"

lemma length_i16s: "length (i16s bs) = length bs div 2"
  by (induction bs rule: i16s.induct) simp_all

lemma length_i32s: "length (i32s bs) = length bs div 4"
  by (induction bs rule: i32s.induct) simp_all

lemma length_recorded_samples:
  "supported f \<Longrightarrow> length (recorded_samples a f d) = length d div sample_bytes f"
  by (auto simp: supported_def recorded_samples_def sample_bytes_def length_i16s length_i32s)

text \<open>The frames of \<open>d\<close>, as the code counts them.\<close>

definition whole_frames :: "audio_format_t \<Rightarrow> nat \<Rightarrow> byte list \<Rightarrow> nat" where
  "whole_frames f c d = length d div (sample_bytes f * c)"

lemma to_int_small: "0 \<le> n \<Longrightarrow> n < 2 ^ 31 \<Longrightarrow> to_int n = n"
  by (simp add: to_int_def signed_of_int signed_take_bit_int_eq_self)

lemma u64_frames:
  assumes "sb \<le> 4" "0 < sb" "0 < sint ch" "length d < 2 ^ 31"
  defines "c \<equiv> nat (sint ch)"
  shows "of_nat sb * scast (ch :: i32) = (of_nat (sb * c) :: u64)" "(of_nat (sb * c) :: u64) \<noteq> 0"
    "sint (of_nat (length d) div of_nat (sb * c) :: u64) = int (length d div (sb * c))"
proof -
  have "sint ch < 2 ^ 31" using sint_lt [of ch] by simp
  then have c: "0 < c" "c < 2 ^ 31" using assms(3) by (simp_all add: c_def nat_less_iff)
  have "scast ch = (of_nat c :: u64)"
    unfolding c_def scast_eq using assms(3) by (simp only: of_nat_nat less_imp_le)
  then show "of_nat sb * scast ch = (of_nat (sb * c) :: u64)" by simp
  have "sb * c \<le> 4 * 2 ^ 31" by (rule mult_le_mono) (use assms(1) c(2) in simp_all)
  then have "sb * c < 2 ^ LENGTH(64)" by simp
  then have sc: "unat (of_nat (sb * c) :: u64) = sb * c" by (subst unat_of_nat) (rule mod_less)
  show "(of_nat (sb * c) :: u64) \<noteq> 0"
  proof
    assume "(of_nat (sb * c) :: u64) = 0"
    with sc have "sb * c = 0" by (simp del: of_nat_mult)
    with c(1) assms(2) show False by simp
  qed
  have ld: "unat (of_nat (length d) :: u64) = length d" using assms(4) by (simp add: unat_of_nat take_bit_eq_mod)
  have "unat (of_nat (length d) div of_nat (sb * c) :: u64) = length d div (sb * c)"
    by (simp only: unat_div_distrib sc ld)
  moreover have "length d div (sb * c) < 2 ^ 63" using assms(4) by (simp add: order.strict_trans1 [OF div_le_dividend])
  ultimately show "sint (of_nat (length d) div of_nat (sb * c) :: u64) = int (length d div (sb * c))"
    by (simp only: sint_uint uint_nat) (simp add: signed_take_bit_int_eq_self)
qed

lemma recorder_docD:
  assumes "recorder_doc a R"
  shows "sf_doc (sfc a)" "st_BAD_TYPE a \<noteq> OK" "st_INVALID_OPERATION a \<noteq> OK"
    "supported f \<Longrightarrow> audio_bytes_per_sample a f = of_nat (sample_bytes f)"
    "getMinFrameCount a r f k w = (x1, w') \<Longrightarrow> R w' = R w"
    "new_AudioRecord a r f k n c w = (x2, w') \<Longrightarrow> R w' = R w"
    "record_initCheck a h w = (x3, w') \<Longrightarrow> R w' = R w"
    "record_start a h w = ((x4, es), w') \<Longrightarrow> capturing R es w w'"
    "record_sleep a t w = (es, w') \<Longrightarrow> capturing R es w w'"
    "record_stop a h w = (es, w') \<Longrightarrow> capturing R es w w'"
    "sf_open_write a fn i w = (None, w') \<Longrightarrow> R w' = R w"
    "sf_open_write a fn i w = (Some h, w') \<Longrightarrow>
       R w' = (R w)\<lparr>sf_files := (sf_files (R w))(h \<mapsto> (nat (sint (channels i)), []))\<rparr>"
    "sf_close a h w = (x5, w') \<Longrightarrow> R w' = R w"
  using assms unfolding recorder_doc_def by (metis fst_conv snd_conv)+

lemma recorder_worksD:
  assumes "recorder_works a R"
  shows "\<exists>n w'. getMinFrameCount a r f k w = ((OK, n), w') \<and> unat n \<le> 2 ^ 60"
    "\<exists>w'. record_initCheck a h w = (OK, w')"
    "\<exists>es w'. record_start a h w = ((OK, es), w') \<and> length (delivered es) < 2 ^ 29"
    "\<exists>es w'. record_sleep a t w = (es, w') \<and> length (delivered es) < 2 ^ 29"
    "\<exists>es w'. record_stop a h w = (es, w') \<and> length (delivered es) < 2 ^ 29"
    "\<exists>h w'. sf_open_write a fn i w = (Some h, w')"
    "writes R h (map sint xs) n w (sf_writef_short a h xs n w)"
    "writes R h (map sint ys) n w (sf_writef_int a h ys n w)"
  using assms unfolding recorder_works_def by (metis prod.collapse not_None_eq)+

lemma writesD:
  assumes "writes R h xs n w r" "sf_files (R w) h = Some (c, [])" "0 \<le> n" "nat n * c \<le> length xs"
  obtains w' where "r = (n, w')" "R w' = (R w)\<lparr>sf_files := (sf_files (R w))(h \<mapsto> (c, take (nat n * c) xs))\<rparr>"
  using assms unfolding writes_def by (metis append_Nil prod.collapse)

lemma save_ok:
  assumes doc: "recorder_doc a R" and works: "recorder_works a R" and f: "supported f"
    and ch: "0 < sint ch" and d: "length d < 2 ^ 31"
  defines "c \<equiv> nat (sint ch)"
  obtains h w' where "save_recording a fn rate ch f OK d w = (Inr OK, w')"
    "R w' = (R w)\<lparr>sf_files := (sf_files (R w))(h \<mapsto> (c, take (whole_frames f c d * c) (recorded_samples a f d)))\<rparr>"
proof -
  let ?i = "\<lparr>frames = 0, samplerate = rate, channels = ch, sf_format = ConvertToSndFileFormat (sfc a) f\<rparr>"
  let ?n = "int (whole_frames f c d)" and ?xs = "recorded_samples a f d"
  have sb: "sample_bytes f \<le> 4" "0 < sample_bytes f" using f by (auto simp: supported_def sample_bytes_def)
  note u = u64_frames [OF sb ch d, folded c_def]
  have fmt: "ConvertToSndFileFormat (sfc a) f \<noteq> -1"
    using f by (auto simp: supported_def ConvertToSndFileFormat_def wav_or_sub(2) [OF recorder_docD(1) [OF doc]])
  obtain h w1 where o: "sf_open_write a fn ?i w = (Some h, w1)" using recorder_worksD(6) [OF works] by blast
  have f1: "sf_files (R w1) h = Some (c, [])" and r1: "R w1 = (R w)\<lparr>sf_files := (sf_files (R w))(h \<mapsto> (c, []))\<rparr>"
    using recorder_docD(12) [OF doc o] by (simp_all add: c_def)
  have "whole_frames f c d \<le> length d" by (simp add: whole_frames_def)
  then have small: "to_int ?n = ?n" using d by (intro to_int_small) simp_all
  have "whole_frames f c d * (sample_bytes f * c) \<le> length d" by (simp add: whole_frames_def)
  then have "whole_frames f c d * c * sample_bytes f div sample_bytes f \<le> length d div sample_bytes f"
    by (intro div_le_mono) (simp add: ac_simps)
  then have len: "nat ?n * c \<le> length ?xs" using sb(2) by (simp add: length_recorded_samples [OF f])
  have wrote: "\<exists>w2. r = (?n, w2) \<and> R w2 = (R w)\<lparr>sf_files := (sf_files (R w))(h \<mapsto> (c, take (whole_frames f c d * c) ?xs))\<rparr>"
    if "writes R h ?xs ?n w1 r" for r
    by (rule writesD [OF that f1 _ len]) (simp_all add: r1)
  have "\<exists>w2. write_frames a h f d ?n w1 = (Inr (), w2) \<and>
      R w2 = (R w)\<lparr>sf_files := (sf_files (R w))(h \<mapsto> (c, take (whole_frames f c d * c) ?xs))\<rparr>"
    using f small wrote [of "sf_writef_short a h (map (i16_from_u8 a) d) ?n w1"] wrote [of "sf_writef_short a h (i16s d) ?n w1"]
      wrote [of "sf_writef_int a h (i32s d) ?n w1"] recorder_worksD(7) [OF works, of h "map (i16_from_u8 a) d" ?n w1]
      recorder_worksD(7) [OF works, of h "i16s d" ?n w1] recorder_worksD(8) [OF works, of h "i32s d" ?n w1]
    by (auto simp: supported_def write_frames_def recorded_samples_def comp_def)
  then obtain w2 where w2: "write_frames a h f d ?n w1 = (Inr (), w2)"
    "R w2 = (R w)\<lparr>sf_files := (sf_files (R w))(h \<mapsto> (c, take (whole_frames f c d * c) ?xs))\<rparr>" by blast
  obtain x w3 where cl: "sf_close a h w2 = (x, w3)" by fastforce
  have "save_recording a fn rate ch f OK d w = (Inr OK, w3)"
    using o w2(1) cl fmt u
    by (simp add: save_recording_def Let_def recorder_docD(4) [OF doc f] whole_frames_def)
  moreover have "R w3 = R w2" by (rule recorder_docD(13) [OF doc cl])
  ultimately show ?thesis using w2(2) that by simp
qed

section \<open>Recording\<close>

lemma capturing_twice:
  "capturing R es w w1 \<Longrightarrow> capturing R fs w1 w2 \<Longrightarrow> capturing R (es @ fs) w w2"
  by (simp add: capturing_def delivered_def)

text \<open>When the framework does its part, a recording in one of the three formats with one to 512 channels
  succeeds, the program keeps exactly the bytes that \<open>AudioRecord\<close> handed to the callback between the
  start and the stop, in order, and the file it creates has the asked number of channels and holds
  exactly the whole frames of them.\<close>

lemma libmedia_record_saves:
  assumes doc: "recorder_doc a R" and works: "recorder_works a R" and f: "supported f"
    and ch: "0 < sint ch" "sint ch \<le> 512"
  shows "\<exists>d h w'. LibmediaRecord_Record a fn rate ch f dur [] w = (Inr (OK, d), w') \<and>
      R w' = (R w)\<lparr>captured := captured (R w) @ d,
        sf_files := (sf_files (R w))(h \<mapsto> (nat (sint ch), take (whole_frames f (nat (sint ch)) d * nat (sint ch)) (recorded_samples a f d)))\<rparr>"
proof -
  define c where "c = nat (sint ch)"
  have sb: "sample_bytes f \<le> 4" "0 < sample_bytes f" using f by (auto simp: supported_def sample_bytes_def)
  note u = u64_frames [OF sb ch(1), of "[]", folded c_def, simplified]
  have c: "0 < c" "c \<le> 512" using ch by (auto simp: c_def)
  have le: "sample_bytes f * c \<le> 2048" using mult_le_mono [OF sb(1) c(2)] by simp
  then have sc: "unat (of_nat (sample_bytes f * c) :: u64) = sample_bytes f * c"
    by (subst unat_of_nat) (rule mod_less, simp)
  have "unat (2048 div of_nat (sample_bytes f * c) :: u64) = 2048 div (sample_bytes f * c)"
    by (simp only: unat_div_distrib sc) simp
  then have "unat (ucast (2048 div of_nat (sample_bytes f * c) :: u64) :: u32) =
      2048 div (sample_bytes f * c) mod 2 ^ LENGTH(32)"
    by (simp only: unsigned_ucast_eq take_bit_nat_def)
  also have "\<dots> = 2048 div (sample_bytes f * c)"
    by (rule mod_less, rule order.strict_trans1 [OF div_le_dividend]) simp
  finally have "unat (ucast (2048 div of_nat (sample_bytes f * c) :: u64) :: u32) = 2048 div (sample_bytes f * c)" .
  moreover have "0 < 2048 div (sample_bytes f * c)" using le sb(2) c(1) by (simp add: div_greater_zero_iff)
  ultimately have fc: "ucast (2048 div of_nat (sample_bytes f * c) :: u64) \<noteq> (0 :: u32)"
    by (metis less_irrefl unat_0)
  obtain n0 w1 where g: "getMinFrameCount a rate f (in_mask_from_count a ch) w = ((OK, n0), w1)" "unat n0 \<le> 2 ^ 60"
    using recorder_worksD(1) [OF works] by blast
  obtain n where n: "buf_count_loop (ucast (2048 div of_nat (sample_bytes f * c) :: u64)) n0 = Inr n"
    by (rule buf_count_minimal [OF fc g(2)])
  obtain r w2 where r: "new_AudioRecord a rate f (in_mask_from_count a ch)
      (n * ucast (ucast (2048 div of_nat (sample_bytes f * c) :: u64) :: u32))
      (ucast (2048 div of_nat (sample_bytes f * c) :: u64)) w1 = (r, w2)" by fastforce
  obtain w3 where i: "record_initCheck a r w2 = (OK, w3)" using recorder_worksD(2) [OF works] by blast
  obtain e1 w4 where st: "record_start a r w3 = ((OK, e1), w4)" "length (delivered e1) < 2 ^ 29"
    using recorder_worksD(3) [OF works] by blast
  obtain e2 w5 where sl: "record_sleep a (ucast dur) w4 = (e2, w5)" "length (delivered e2) < 2 ^ 29"
    using recorder_worksD(4) [OF works] by blast
  obtain e3 w6 where sp: "record_stop a r w5 = (e3, w6)" "length (delivered e3) < 2 ^ 29"
    using recorder_worksD(5) [OF works] by blast
  have R3: "R w3 = R w"
    using recorder_docD(5) [OF doc g(1)] recorder_docD(6) [OF doc r] recorder_docD(7) [OF doc i] by simp
  define d where "d = delivered e1 @ delivered e2 @ delivered e3"
  have R6: "R w6 = (R w)\<lparr>captured := captured (R w) @ d\<rparr>"
    using recorder_docD(8) [OF doc st(1)] recorder_docD(9) [OF doc sl(1)] recorder_docD(10) [OF doc sp(1)] R3
    by (simp add: capturing_def d_def)
  have "length d < 2 ^ 31" using st(2) sl(2) sp(2) by (simp add: d_def)
  then obtain h w' where s: "save_recording a fn rate ch f OK d w6 = (Inr OK, w')"
    "R w' = (R w6)\<lparr>sf_files := (sf_files (R w6))(h \<mapsto> (c, take (whole_frames f c d * c) (recorded_samples a f d)))\<rparr>"
    using save_ok [OF doc works f ch(1)] unfolding c_def by blast
  have "LibmediaRecord_Record a fn rate ch f dur [] w = (Inr (OK, d), w')"
    using g(1) n r i st(1) sl(1) sp(1) s(1) u(1,2)
    by (simp add: LibmediaRecord_Record_def Let_def recorder_docD(4) [OF doc f] d_def)
  with s(2) show "\<exists>d h w'. LibmediaRecord_Record a fn rate ch f dur [] w = (Inr (OK, d), w') \<and>
      R w' = (R w)\<lparr>captured := captured (R w) @ d,
        sf_files := (sf_files (R w))(h \<mapsto> (nat (sint ch), take (whole_frames f (nat (sint ch)) d * nat (sint ch)) (recorded_samples a f d)))\<rparr>"
    unfolding R6 c_def by auto
qed

section \<open>What failing leaves behind\<close>

lemma save_failed:
  assumes "recorder_doc a R" "save_recording a fn rate ch f st d w = (Inr st', w')" "st' \<noteq> st"
  shows "R w' = R w"
  using assms(2,3) recorder_docD(11) [OF assms(1)]
  by (auto simp: save_recording_def Let_def acall_def CHECK_def split: if_splits prod.splits option.splits elim!: bnd_eq_InrE)

text \<open>A recording that reports an error has not created or changed any file, and what was recorded until then
  is kept.\<close>

lemma libmedia_record_error:
  assumes doc: "recorder_doc a R" and run: "LibmediaRecord_Record a fn rate ch f dur d0 w = (Inr (st, d), w')" and st: "st \<noteq> OK"
  shows "sf_files (R w') = sf_files (R w) \<and> (\<exists>e. d = d0 @ e \<and> captured (R w') = captured (R w) @ e)"
proof -
  have files: "\<And>es w w'. capturing R es w w' \<Longrightarrow> sf_files (R w') = sf_files (R w) \<and>
      captured (R w') = captured (R w) @ delivered es" by (simp add: capturing_def)
  have saved: "\<And>e v. save_recording a fn rate ch f OK e v = (Inr st, w') \<Longrightarrow> R w' = R v"
    using save_failed [OF doc] st by blast
  from run st show ?thesis
    unfolding LibmediaRecord_Record_def Let_def
    by (auto simp: acall_def split: if_splits prod.splits elim!: bnd_eq_InrE
        dest!: recorder_docD(5-10) [OF doc] files saved)
qed

section \<open>A framework that is its documentation\<close>

text \<open>It delivers one buffer while the program records, asks for one while it plays, and has no file to read.\<close>

record rworld = mworld +
  heard :: "byte list"
  disk :: "(nat \<times> int list) list"
  sent :: "byte list"

definition rworld_view :: "'z rworld_scheme \<Rightarrow> rview" where
  "rworld_view w = \<lparr>captured = heard w, sf_files = (\<lambda>h. if h < length (disk w) then Some (disk w ! h) else None)\<rparr>"

definition doc_write :: "nat \<Rightarrow> int list \<Rightarrow> int \<Rightarrow> 'z rworld_scheme \<Rightarrow> int \<times> 'z rworld_scheme" where
  "doc_write h xs n w = (n, w\<lparr>disk := (disk w)[h := (fst (disk w ! h), snd (disk w ! h) @ take (nat n * fst (disk w ! h)) xs)]\<rparr>)"

definition doc_audio :: "('z rworld_scheme) audio" where
  "doc_audio = media.extend doc_media (audio.fields
     (\<lambda>f. of_nat (sample_bytes f)) (\<lambda>c. 0x10) (\<lambda>c. 3) (\<lambda>b. push_bit 8 (ucast b - 128)) (\<lambda>x. ucast (drop_bit 8 x) + 128)
     (-2147483647) (-38) doc_sf
     (\<lambda>n w. ((None, \<lparr>frames = 0, samplerate = 0, channels = 0, sf_format = 0\<rparr>), w))
     (\<lambda>n i w. (Some (length (disk w)), w\<lparr>disk := disk w @ [(nat (sint (channels i)), [])]\<rparr>))
     (\<lambda>h w. (0, w)) (\<lambda>h n w. (if 1 \<le> n then (1, [7, 8]) else (0, []), w)) (\<lambda>h n w. (if 1 \<le> n then (1, [7, 8]) else (0, []), w))
     (\<lambda>h xs. doc_write h (map sint xs)) (\<lambda>h xs. doc_write h (map sint xs))
     (\<lambda>r f k w. ((OK, 3000), w)) (\<lambda>r f k n c w. (0, w)) (\<lambda>h w. (OK, w)) (\<lambda>h w. ((OK, []), w))
     (\<lambda>t w. ([Record_More_Data [1, 2, 3, 4, 5]], w\<lparr>heard := heard w @ [1, 2, 3, 4, 5]\<rparr>)) (\<lambda>h w. ([], w))
     (\<lambda>r f k n w. (0, w)) (\<lambda>h w. (OK, w)) (\<lambda>h v w. ((), w)) (\<lambda>h w. ((OK, []), w)) (\<lambda>t w. ([Track_More_Data (Some [0, 0, 0, 0])], w)) (\<lambda>h w. ([], w))
     (\<lambda>bs w. ((), w\<lparr>sent := sent w @ bs\<rparr>)))"

lemma doc_audio_doc: "recorder_doc doc_audio rworld_view"
  unfolding recorder_doc_def
  by (auto simp: doc_audio_def audio.defs media.defs doc_sf_doc OK_def capturing_def delivered_def rworld_view_def fun_eq_iff
      nth_append)

lemma doc_audio_works: "recorder_works doc_audio rworld_view"
  unfolding recorder_works_def
  by (auto simp: doc_audio_def audio.defs media.defs OK_def delivered_def rworld_view_def fun_eq_iff writes_def doc_write_def
      split: if_splits)

definition silent_world :: rworld where
  "silent_world = \<lparr>group_list = [], buffer_list = [], heard = [], disk = [], sent = []\<rparr>"

end
