(* ===== verification/Audio_Playback.thy ===== *)
theory Audio_Playback
  imports Audio_Record
begin

text \<open>
  What \<open>LibmediaPlayback\<close> does with the buffers of \<open>AudioTrack\<close>: it stays inside them, it plays the
  start of the tone over and over, and it takes a file that cannot be opened for a tone.
\<close>

section \<open>The documentation of reading and of the track\<close>

text \<open>
  The view of the world: the number of channels of each file opened for reading, and what the track
  has been given. A read of \<open>n\<close> frames gives at most \<open>n\<close>, and a sample for each channel of each.
\<close>

record pview =
  read_channels :: "nat \<rightharpoonup> nat"
  played :: "byte list"

definition reads :: "nat \<Rightarrow> int \<Rightarrow> int \<times> 's list \<Rightarrow> bool" where
  "reads c n r \<longleftrightarrow> 0 \<le> fst r \<and> fst r \<le> n \<and> length (snd r) = nat (fst r) * c"

definition player_doc :: "('w, 'z) audio_scheme \<Rightarrow> ('w \<Rightarrow> pview) \<Rightarrow> ('w \<Rightarrow> mview) \<Rightarrow> bool" where
  "player_doc a P V \<longleftrightarrow>
     (\<forall>f. audio_bytes_per_sample a f = of_nat (sample_bytes f)) \<and>
     (\<forall>h n w c. read_channels (P w) h = Some c \<longrightarrow> 0 \<le> n \<longrightarrow>
        reads c n (fst (sf_readf_short a h n w)) \<and> reads c n (fst (sf_readf_int a h n w))) \<and>
     (\<forall>bs w. V (snd (track_deliver a bs w)) = V w \<and> P (snd (track_deliver a bs w)) = (P w)\<lparr>played := played (P w) @ bs\<rparr>)"

section \<open>FillBuffer\<close>

text \<open>A player that has been set up: with a file of as many channels, or with a block of the tone.\<close>

definition player_ready :: "('w \<Rightarrow> pview) \<Rightarrow> ('w \<Rightarrow> mview) \<Rightarrow> byte list \<Rightarrow> LibmediaPlayback \<Rightarrow> 'w \<Rightarrow> bool" where
  "player_ready P V bytes p w \<longleftrightarrow>
     (case pb_in_file p of
        Some h \<Rightarrow> 0 < sint (pb_num_channels p) \<and> sint (pb_num_channels p) \<le> 512 \<and>
          read_channels (P w) h = Some (nat (sint (pb_num_channels p)))
      | None \<Rightarrow> \<exists>b s. pb_sine_data_buffer p = Some b \<and> source_at V s b True bytes w)"

lemma fill_ok: "length bs \<le> length data \<Longrightarrow> fill bs data = Inr (bs @ drop (length bs) data)"
  by (simp add: fill_def)

lemma fill_sine:
  assumes "media_doc a V" "source_at V s b True bytes w" "pb_in_file p = None" "pb_sine_data_buffer p = Some b"
  shows "FillBuffer a p (Some data) w =
    (let n = min (length data) kBufferSize in (Inr (n, take n bytes @ drop n data), w))"
proof -
  note d = data_of_block [OF assms(1,2)]
  have "unat (of_nat kBufferSize :: u64) = kBufferSize" by (simp add: kBufferSize_def)
  then show ?thesis
    using d(3) by (simp add: FillBuffer_def assms(3,4) d(1,2) fill_ok Let_def min_def)
qed

lemma int_mul_nat: "x * y < 2 ^ 31 \<Longrightarrow> int_mul (int x) (int y) = Inr (int (x * y))"
  unfolding int_mul_def of_nat_mult [symmetric] by (simp del: of_nat_mult)

lemma length_int_bytes [simp]: "length (int_bytes xs) = 4 * length xs"
  by (induction xs) (simp_all add: int_bytes_def)

text \<open>The numbers of one callback: frames of \<open>sb * c\<close> bytes, and at most as many as fit.\<close>

lemma frame_numbers:
  assumes "0 < sb" "sb \<le> 4" "0 < sint ch" "sint ch \<le> 512" "len < 2 ^ 31"
  defines "c \<equiv> nat (sint ch)"
  shows "(ucast (of_nat sb * scast (ch :: i32) :: u64) :: i32) = of_nat (sb * c)" "(of_nat (sb * c) :: i32) \<noteq> 0"
    "sint (of_nat (sb * c) :: i32) = int (sb * c)" "(ucast (of_nat sb :: u64) :: i32) = of_nat sb"
    "sint (of_nat len div scast (of_nat (sb * c) :: i32) :: u64) = int (len div (sb * c))"
proof -
  have c: "0 < c" "c \<le> 512" using assms(3,4) by (auto simp: c_def)
  have le: "sb * c \<le> 2048" using mult_le_mono [OF assms(2) c(2)] by simp
  have "length (replicate len ()) < 2 ^ 31" using assms(5) by simp
  note u = u64_frames [OF assms(2,1,3) this, folded c_def]
  show s: "sint (of_nat (sb * c) :: i32) = int (sb * c)"
    by (simp only: signed_of_nat of_int_eq_id id_apply) (rule signed_take_bit_int_eq_self; use le in \<open>simp flip: of_nat_mult\<close>)
  show "(ucast (of_nat sb * scast ch :: u64) :: i32) = of_nat (sb * c)"
    unfolding u(1) unsigned_of_nat by (rule arg_cong [of _ _ of_nat], rule take_bit_nat_eq_self) (use le in simp)
  show "(ucast (of_nat sb :: u64) :: i32) = of_nat sb"
    unfolding unsigned_of_nat by (rule arg_cong [of _ _ of_nat], rule take_bit_nat_eq_self) (use assms(2) in simp)
  show "(of_nat (sb * c) :: i32) \<noteq> 0"
  proof
    assume "(of_nat (sb * c) :: i32) = 0"
    with s have "int (sb * c) = 0" by (simp del: of_nat_mult)
    with c(1) assms(1) show False by simp
  qed
  have "(scast (of_nat (sb * c) :: i32) :: u64) = of_nat (sb * c)"
    unfolding scast_eq s by simp
  with u(3) show "sint (of_nat len div scast (of_nat (sb * c) :: i32) :: u64) = int (len div (sb * c))" by simp
qed

lemma fill_8:
  assumes "pb_in_file p = Some h" "(ucast (audio_bytes_per_sample a (pb_audio_format p) * scast (pb_num_channels p)) :: i32) = fs"
    "fs \<noteq> 0" "(ucast (audio_bytes_per_sample a (pb_audio_format p)) :: i32) = 1"
    "sint (of_nat (length data) div scast fs :: u64) = n" "sf_readf_short a h n w = ((int m, xs), w1)"
    "to_int (int m) = int m" "int_mul (int m) (sint fs) = Inr (int t)" "int_mul (sint fs) (int m) = Inr (int t)"
    "length xs = t" "t \<le> length data" "unat (of_int (int t) :: u64) = t"
  shows "FillBuffer a p (Some data) w = (Inr (t, map (u8_from_i16 a) xs @ drop t data), w1)"
  using assms by (simp add: FillBuffer_def Let_def fill_ok)

lemma fill_16:
  assumes "pb_in_file p = Some h" "(ucast (audio_bytes_per_sample a (pb_audio_format p) * scast (pb_num_channels p)) :: i32) = fs"
    "fs \<noteq> 0" "(ucast (audio_bytes_per_sample a (pb_audio_format p)) :: i32) = 2"
    "sint (of_nat (length data) div scast fs :: u64) = n" "sf_readf_short a h n w = ((int m, xs), w1)"
    "to_int (int m) = int m" "int_mul (sint fs) (int m) = Inr (int t)"
    "2 * length xs = t" "t \<le> length data" "unat (of_int (int t) :: u64) = t"
  shows "FillBuffer a p (Some data) w = (Inr (t, pcm_bytes xs @ drop t data), w1)"
  using assms by (simp add: FillBuffer_def Let_def fill_ok)

lemma fill_32:
  assumes "pb_in_file p = Some h" "(ucast (audio_bytes_per_sample a (pb_audio_format p) * scast (pb_num_channels p)) :: i32) = fs"
    "fs \<noteq> 0" "(ucast (audio_bytes_per_sample a (pb_audio_format p)) :: i32) = 4"
    "sint (of_nat (length data) div scast fs :: u64) = n" "sf_readf_int a h n w = ((int m, xs), w1)"
    "to_int (int m) = int m" "int_mul (sint fs) (int m) = Inr (int t)"
    "4 * length xs = t" "t \<le> length data" "unat (of_int (int t) :: u64) = t"
  shows "FillBuffer a p (Some data) w = (Inr (t, int_bytes xs @ drop t data), w1)"
  using assms by (simp add: FillBuffer_def Let_def fill_ok)

text \<open>What a filled buffer looks like: the new data, and what was behind it.\<close>

definition filled :: "byte list \<Rightarrow> nat \<times> byte list \<Rightarrow> bool" where
  "filled data r \<longleftrightarrow> fst r \<le> length data \<and> length (snd r) = length data \<and> drop (fst r) (snd r) = drop (fst r) data"

lemma filled_fill:
  "length bs = n \<Longrightarrow> n \<le> length data \<Longrightarrow> filled data (n, bs @ drop (length bs) data)"
  by (simp add: filled_def)

lemma fill_file:
  assumes doc: "player_doc a P V" and h: "pb_in_file p = Some h" and f: "supported (pb_audio_format p)"
    and ch: "0 < sint (pb_num_channels p)" "sint (pb_num_channels p) \<le> 512"
    and C: "read_channels (P w) h = Some (nat (sint (pb_num_channels p)))" and len: "length data < 2 ^ 31"
  shows "\<exists>r w'. FillBuffer a p (Some data) w = (Inr r, w') \<and> filled data r"
proof -
  define sb where "sb = sample_bytes (pb_audio_format p)"
  define c where "c = nat (sint (pb_num_channels p))"
  define n where "n = int (length data div (sb * c))"
  have sb: "sb = 1 \<or> sb = 2 \<or> sb = 4" using f by (auto simp: sb_def supported_def sample_bytes_def)
  then have sb': "0 < sb" "sb \<le> 4" by auto
  have c: "0 < c" using ch by (simp add: c_def)
  note nums = frame_numbers [OF sb' ch len, folded c_def]
  have bps: "audio_bytes_per_sample a (pb_audio_format p) = of_nat sb" using doc by (simp add: player_doc_def sb_def)
  have "0 \<le> n" by (simp add: n_def)
  then have rs: "reads c n (fst (sf_readf_short a h n w))" and ri: "reads c n (fst (sf_readf_int a h n w))"
    using doc C unfolding player_doc_def c_def by blast+
  have pos: "0 < sb * c" using sb' c by simp
  have small: "to_int (int m) = int m" "int_mul (int (sb * c)) (int m) = Inr (int (m * (sb * c)))"
    "int_mul (int m) (int (sb * c)) = Inr (int (m * (sb * c)))"
    "unat (of_int (int (m * (sb * c))) :: u64) = m * (sb * c)" if "m * (sb * c) \<le> length data" for m
  proof -
    have lt: "m * (sb * c) < 2 ^ 31" using that len by simp
    moreover have "m \<le> m * (sb * c)" using pos by simp
    ultimately have "m < 2 ^ 31" by (rule order.strict_trans1 [rotated])
    then show "to_int (int m) = int m" by (intro to_int_small) simp_all
    show "int_mul (int (sb * c)) (int m) = Inr (int (m * (sb * c)))"
      "int_mul (int m) (int (sb * c)) = Inr (int (m * (sb * c)))"
      using int_mul_nat [of "sb * c" m] int_mul_nat [of m "sb * c"] lt by (simp_all only: mult.commute [of m])
    have "unat (of_nat (m * (sb * c)) :: u64) = m * (sb * c)"
      by (subst unat_of_nat) (rule mod_less, use lt in simp)
    then show "unat (of_int (int (m * (sb * c))) :: u64) = m * (sb * c)" by (simp only: of_int_of_nat_eq)
  qed
  have got: "\<exists>m xs w'. r = ((int m, xs), w') \<and> m * (sb * c) \<le> length data \<and> length xs = m * c"
    if r: "reads c n (fst r)" for r :: "(int \<times> 's list) \<times> 'w"
  proof -
    obtain k xs w' where e: "r = ((k, xs), w')" by (metis prod.collapse)
    have k: "0 \<le> k" "k \<le> n" "length xs = nat k * c" using r by (simp_all add: e reads_def)
    have "nat k \<le> length data div (sb * c)" using k(1,2) by (simp add: n_def nat_le_iff)
    then have "nat k * (sb * c) \<le> length data div (sb * c) * (sb * c)" by (rule mult_le_mono1)
    also have "\<dots> \<le> length data" by (rule div_times_less_eq_dividend)
    finally show ?thesis using k e by (intro exI [of _ "nat k"]) simp
  qed
  obtain m xs w1 where s: "sf_readf_short a h n w = ((int m, xs), w1)" "m * (sb * c) \<le> length data" "length xs = m * c"
    using got [OF rs] by blast
  obtain l ys w2 where i: "sf_readf_int a h n w = ((int l, ys), w2)" "l * (sb * c) \<le> length data" "length ys = l * c"
    using got [OF ri] by blast
  note mul = small [OF s(2), unfolded nums(3) [symmetric]] small [OF i(2), unfolded nums(3) [symmetric]]
  note base = nums(1) [folded bps] nums(2)
  from sb show ?thesis
  proof (elim disjE)
    assume "sb = 1"
    then have "FillBuffer a p (Some data) w = (Inr (m * (sb * c), map (u8_from_i16 a) xs @ drop (m * (sb * c)) data), w1)"
      using nums(4) s(3) by (intro fill_8 [OF h base _ nums(5) [folded n_def] s(1) mul(1,3,2) _ s(2) mul(4)]) (simp_all add: bps)
    then show ?thesis using s(2,3) \<open>sb = 1\<close> by (auto simp: filled_def)
  next
    assume "sb = 2"
    then have "FillBuffer a p (Some data) w = (Inr (m * (sb * c), pcm_bytes xs @ drop (m * (sb * c)) data), w1)"
      using nums(4) s(3) by (intro fill_16 [OF h base _ nums(5) [folded n_def] s(1) mul(1,2) _ s(2) mul(4)]) (simp_all add: bps)
    then show ?thesis using s(2,3) \<open>sb = 2\<close> by (auto simp: filled_def)
  next
    assume "sb = 4"
    then have "FillBuffer a p (Some data) w = (Inr (l * (sb * c), int_bytes ys @ drop (l * (sb * c)) data), w2)"
      using nums(4) i(3) by (intro fill_32 [OF h base _ nums(5) [folded n_def] i(1) mul(5,6) _ i(2) mul(8)]) (simp_all add: bps)
    then show ?thesis using i(2,3) \<open>sb = 4\<close> by (auto simp: filled_def)
  qed
qed

lemma fill_unsupported:
  assumes "player_doc a P V" "pb_in_file p = Some h" "\<not> supported (pb_audio_format p)"
  shows "FillBuffer a p (Some data) w = (Inr (0, data), w)"
proof -
  have "sample_bytes (pb_audio_format p) = 0" using assms(3) by (cases "pb_audio_format p") (auto simp: supported_def sample_bytes_def)
  then show ?thesis using assms(1,2) by (simp add: FillBuffer_def player_doc_def Let_def)
qed

text \<open>C36: a callback never writes outside the track's buffer and never reports more bytes than it has room for:
  whatever the sample format, with a file or with the tone, and for every buffer below 2 GiB, it ends, the
  buffer keeps its length and what lies behind the reported bytes. A callback without a buffer is the only
  one that aborts.\<close>

theorem fill_buffer_stays_inside:
  assumes "player_doc a P V" "media_doc a V" "player_ready P V bytes p w" "length data < 2 ^ 31"
  shows "(\<exists>r w'. FillBuffer a p (Some data) w = (Inr r, w') \<and> filled data r) \<and>
    FillBuffer a p None w = (Inl Check_Failed, w)"
proof (rule conjI)
  show "\<exists>r w'. FillBuffer a p (Some data) w = (Inr r, w') \<and> filled data r"
  proof (cases "pb_in_file p")
    case None
    with assms(3) obtain b s where b: "pb_sine_data_buffer p = Some b" "source_at V s b True bytes w"
      by (auto simp: player_ready_def)
    then have "length bytes = kBufferSize" by (simp add: source_at_def)
    with fill_sine [OF assms(2) b(2) None b(1)] show ?thesis by (auto simp: Let_def filled_def)
  next
    case (Some h)
    show ?thesis
    proof (cases "supported (pb_audio_format p)")
      case True
      with assms(3) Some show ?thesis
        by (intro fill_file [OF assms(1) Some True _ _ _ assms(4)]) (simp_all add: player_ready_def)
    next
      case False
      from fill_unsupported [OF assms(1) Some this] show ?thesis by (auto simp: filled_def)
    qed
  qed
qed (simp add: FillBuffer_def)

section \<open>The tone through libmedia\<close>

lemma sine_callbacks:
  assumes doc: "player_doc a P V" "media_doc a V" and p: "pb_in_file p = None" "pb_sine_data_buffer p = Some b"
    and src: "source_at V s b True bytes w"
  shows "\<exists>w'. track_callbacks a p (map (\<lambda>d. Track_More_Data (Some d)) ds) w = (Inr (), w') \<and>
    played (P w') = played (P w) @ concat (map (\<lambda>d. take (length d) bytes) ds) \<and> source_at V s b True bytes w'"
  using src
proof (induction ds arbitrary: w)
  case (Cons d ds)
  have len: "length bytes = kBufferSize" using Cons.prems by (simp add: source_at_def)
  let ?n = "min (length d) kBufferSize"
  obtain w1 where w1: "track_deliver a (take ?n bytes) w = ((), w1)" by (metis old.unit.exhaust prod.exhaust)
  have "V (snd (track_deliver a (take ?n bytes) w)) = V w"
    "P (snd (track_deliver a (take ?n bytes) w)) = (P w)\<lparr>played := played (P w) @ take ?n bytes\<rparr>"
    using doc(1) unfolding player_doc_def by blast+
  then have "V w1 = V w" "played (P w1) = played (P w) @ take ?n bytes" unfolding w1 by simp_all
  moreover have "take ?n bytes = take (length d) bytes" using len by (simp add: min_def)
  ultimately have v: "V w1 = V w" "played (P w1) = played (P w) @ take (length d) bytes" by simp_all
  have "source_at V s b True bytes w1" using Cons.prems by (simp add: source_at_def v(1))
  from Cons.IH [OF this] obtain w' where w': "track_callbacks a p (map (\<lambda>d. Track_More_Data (Some d)) ds) w1 = (Inr (), w')"
    "played (P w') = played (P w1) @ concat (map (\<lambda>d. take (length d) bytes) ds)" "source_at V s b True bytes w'" by blast
  have "AudioCallback a p (Track_More_Data (Some d)) w = (Inr (), w1)"
    using fill_sine [OF doc(2) Cons.prems p] w1 len by (simp add: AudioCallback_def Let_def)
  with w' show ?case by (simp add: v(2))
qed simp

lemma init_sine:
  assumes "media_doc a V" "ch = 1 \<or> ch = 2" "rate \<noteq> 0"
  obtains s b w' where "InitSine exact_fp a f rate ch p w = (Inr (p\<lparr>pb_audio_format := f, pb_sample_rate := rate,
      pb_num_channels := ch, pb_in_file := None, pb_sine_data_buffer := Some b, pb_source := Some s\<rparr>), w')"
    "source_at V s b True (tone_bytes rate ch [0 ..< (if ch = 2 then 2048 else 4096)]) w'"
proof -
  obtain s b bytes w1 where s: "bnd (SineSource_new rate ch) (SineSource_start a) w = (Inr (OK, s), w1)"
    "source_at V s b False bytes w1" "mSampleRate s = rate" "mNumChannels s = ch" "mPhase s = 0"
    by (rule sine_start [OF assms(1,2)])
  obtain w2 where w2: "SineSource_read exact_fp a s w1 =
      (Inr ((OK, Some b), s\<lparr>mPhase := mPhase s + of_nat (frames_per_buffer s)\<rparr>), w2)"
    "source_at V s b True (tone_bytes rate ch [0 ..< frames_per_buffer s]) w2"
    using read_exact [OF assms(1) s(2)] s(3-5) assms(3) by auto
  obtain s0 w0 where "SineSource_new rate ch w = (Inr s0, w0)" "SineSource_start a s0 w0 = (Inr (OK, s), w1)"
    by (rule bnd_eq_InrE [OF s(1)])
  then have "InitSine exact_fp a f rate ch p w = (Inr (p\<lparr>pb_audio_format := f, pb_sample_rate := rate, pb_num_channels := ch,
      pb_in_file := None, pb_sine_data_buffer := Some b, pb_source := Some (s\<lparr>mPhase := mPhase s + of_nat (frames_per_buffer s)\<rparr>)\<rparr>), w2)"
    using w2(1) by (simp add: InitSine_def Let_def)
  moreover have "source_at V (s\<lparr>mPhase := mPhase s + of_nat (frames_per_buffer s)\<rparr>) b True
      (tone_bytes rate ch [0 ..< (if ch = 2 then 2048 else 4096)]) w2"
    using w2(2) s(4) by (simp add: frames_per_buffer_def)
  ultimately show ?thesis by (rule that)
qed

text \<open>C39: the tone is not carried over from one callback to the next: \<open>InitSine\<close> reads one buffer of the
  source, and each callback answers with the beginning of that buffer. For buffers of the sizes \<open>ns\<close>, and
  whatever the sample format is that the track was told, it gets the first \<open>n\<close> bytes of the 16-bit tone, at
  most 8192, for each \<open>n\<close>: the sine jumps back to its start at every callback.\<close>

theorem libmedia_tone_restarts:
  assumes "player_doc a P V" "media_doc a V" "ch = 1 \<or> ch = 2" "rate \<noteq> 0"
  shows "\<exists>p w1 w2. InitSine exact_fp a f rate ch p0 w = (Inr p, w1) \<and> pb_audio_format p = f \<and>
    track_callbacks a p (map (\<lambda>n. Track_More_Data (Some (replicate n x))) ns) w1 = (Inr (), w2) \<and>
    played (P w2) = played (P w1) @ concat (map (\<lambda>n. take n (tone_bytes rate ch [0 ..< (if ch = 2 then 2048 else 4096)])) ns)"
proof -
  obtain s b w1 where i: "InitSine exact_fp a f rate ch p0 w = (Inr (p0\<lparr>pb_audio_format := f, pb_sample_rate := rate,
      pb_num_channels := ch, pb_in_file := None, pb_sine_data_buffer := Some b, pb_source := Some s\<rparr>), w1)"
    and src: "source_at V s b True (tone_bytes rate ch [0 ..< (if ch = 2 then 2048 else 4096)]) w1"
    by (rule init_sine [OF assms(2-4)])
  let ?p = "p0\<lparr>pb_audio_format := f, pb_sample_rate := rate, pb_num_channels := ch, pb_in_file := None,
      pb_sine_data_buffer := Some b, pb_source := Some s\<rparr>"
  have "pb_in_file ?p = None" "pb_sine_data_buffer ?p = Some b" by simp_all
  from sine_callbacks [OF assms(1,2) this src, of "map (\<lambda>n. replicate n x) ns"] i show ?thesis
    by (auto simp: comp_def)
qed

section \<open>A file that cannot be opened\<close>

text \<open>C40: a file that cannot be opened is not reported. \<open>InitFile\<close> ends as if all were well, with parameters
  from an info that nobody filled in, and \<open>Play\<close> never succeeds: unless the track refuses those parameters,
  it uses a block of the tone that was never read, in the first callback that asks for data or, at the
  latest, at its end.\<close>

theorem missing_file_is_no_error:
  assumes "sf_open_read a fn w = ((None, info), w1)" "pb_sine_data_buffer p0 = None"
  shows "\<exists>p. InitFile a fn p0 w = (Inr p, w1) \<and> pb_num_channels p = channels info \<and>
    (fst (LibmediaPlayback_Play a p dur v) \<in> {Inl Bad_Pointer, Inl Check_Failed} \<or>
     (\<exists>st. st \<noteq> OK \<and> fst (LibmediaPlayback_Play a p dur v) = Inr st)) \<and>
    ((\<forall>h u. fst (track_initCheck a h u) = OK) \<and> (\<forall>h u. fst (fst (track_start a h u)) = OK) \<longrightarrow>
     fst (LibmediaPlayback_Play a p dur v) \<in> {Inl Bad_Pointer, Inl Check_Failed})"
proof -
  define p where "p = p0\<lparr>pb_in_file := None, pb_sample_rate := samplerate info, pb_num_channels := channels info,
            pb_audio_format := ConvertToAudioFormat (sfc a) (sf_format info)\<rparr>"
  have i: "InitFile a fn p0 w = (Inr p, w1)" using assms(1) by (simp add: InitFile_def p_def)
  have f: "pb_in_file p = None" "pb_sine_data_buffer p = None" using assms(2) by (simp_all add: p_def)
  have cb: "fst (track_callbacks a p es w) = Inr () \<or> fst (track_callbacks a p es w) \<in> {Inl Bad_Pointer, Inl Check_Failed}" for es w
  proof (induction es arbitrary: w)
    case (Cons e es)
    then show ?case
      by (cases e) (auto simp: AudioCallback_def FillBuffer_def f bnd_def split: option.splits)
  qed simp
  have ends: "fst (bnd (track_callbacks a p es) (\<lambda>_. m) w) \<in> {Inl Bad_Pointer, Inl Check_Failed} \<or>
      (\<exists>w'. bnd (track_callbacks a p es) (\<lambda>_. m) w = m w')" for es w and m :: "('a, audio_end, status_t) prog"
    using cb [of es w] by (cases "track_callbacks a p es w") (auto simp: bnd_def)
  define A where "A \<longleftrightarrow> (\<forall>h u. fst (track_initCheck a h u) = OK) \<and> (\<forall>h u. fst (fst (track_start a h u)) = OK)"
  define G :: "audio_end + status_t \<Rightarrow> bool" where
    "G x \<longleftrightarrow> x \<in> {Inl Bad_Pointer, Inl Check_Failed} \<or> (\<not> A \<and> (\<exists>st. st \<noteq> OK \<and> x = Inr st))" for x
  have step: "G (fst (bnd (track_callbacks a p es) (\<lambda>_. m) w))" if "\<And>w'. G (fst (m w'))"
    for es w and m :: "('a, audio_end, status_t) prog"
    using ends [of es m w]
  proof
    assume "\<exists>w'. bnd (track_callbacks a p es) (\<lambda>_. m) w = m w'"
    with that show ?thesis by metis
  qed (simp add: G_def)
  have acall: "bnd (acall g) k w = k (fst (g w)) (snd (g w))" for g w and k :: "'c \<Rightarrow> ('a, audio_end, status_t) prog"
    by (simp add: acall_def bnd_def split: prod.split)
  have cond: "G (fst ((if c then x else y) w))" if "c \<Longrightarrow> G (fst (x w))" "\<not> c \<Longrightarrow> G (fst (y w))"
    for c w and x y :: "('a, audio_end, status_t) prog" using that by simp
  have "G (fst (LibmediaPlayback_Play a p dur v))"
    unfolding LibmediaPlayback_Play_def case_prod_beta f option.case
    unfolding acall
    by (intro step cond) (auto simp: G_def A_def)
  with i show ?thesis by (intro exI [of _ p]) (auto simp: G_def A_def p_def)
qed

section \<open>The same framework, for the player\<close>

definition pworld_view :: "'z rworld_scheme \<Rightarrow> pview" where
  "pworld_view w = \<lparr>read_channels = (\<lambda>h. Some 2), played = sent w\<rparr>"

lemma doc_audio_ops:
  "track_deliver doc_audio = (\<lambda>bs w. ((), w\<lparr>sent := sent w @ bs\<rparr>))"
  "sf_readf_short doc_audio = (\<lambda>h n w. (if 1 \<le> n then (1, [7, 8]) else (0, []), w))"
  "sf_readf_int doc_audio = (\<lambda>h n w. (if 1 \<le> n then (1, [7, 8]) else (0, []), w))"
  "audio_bytes_per_sample doc_audio = (\<lambda>f. of_nat (sample_bytes f))"
  "sf_open_read doc_audio = (\<lambda>n w. ((None, \<lparr>frames = 0, samplerate = 0, channels = 0, sf_format = 0\<rparr>), w))"
  "track_initCheck doc_audio = (\<lambda>h w. (OK, w))" "track_start doc_audio = (\<lambda>h w. ((OK, []), w))"
  by (simp_all add: doc_audio_def audio.defs media.defs)

lemma doc_audio_player: "player_doc doc_audio pworld_view mworld_view"
  by (auto simp: player_doc_def doc_audio_ops pworld_view_def mworld_view_def reads_def)

lemma doc_audio_media: "media_doc doc_audio (mworld_view :: 'z rworld_scheme \<Rightarrow> mview)"
proof -
  have "new_doc doc_audio V = new_doc doc_media V" "acquire_doc doc_audio V = acquire_doc doc_media V"
    "contents_doc doc_audio V = contents_doc doc_media V" for V :: "'z rworld_scheme \<Rightarrow> mview"
    by (simp_all add: new_doc_def acquire_doc_def contents_doc_def doc_audio_def audio.defs media.defs)
  then show ?thesis by (simp add: media_doc_def doc_media_doc [unfolded media_doc_def])
qed

definition file_player :: LibmediaPlayback where
  "file_player = \<lparr>pb_sine_data_buffer = None, pb_in_file = Some 0, pb_source = None,
     pb_audio_format = AUDIO_FORMAT_PCM_16_BIT, pb_sample_rate = 48000, pb_num_channels = 2\<rparr>"

theorem fill_buffer_stays_inside_witness:
  "\<exists>r w'. FillBuffer doc_audio file_player (Some [0, 0, 0, 0, 0, 0, 0]) silent_world = (Inr r, w') \<and> filled [0, 0, 0, 0, 0, 0, 0] r"
proof -
  have "player_ready pworld_view mworld_view [] file_player silent_world"
    by (simp add: player_ready_def file_player_def pworld_view_def)
  from fill_buffer_stays_inside [OF doc_audio_player doc_audio_media this, of "[0, 0, 0, 0, 0, 0, 0]"]
  show ?thesis by simp
qed

theorem libmedia_tone_restarts_witness:
  "\<exists>p w1 w2. InitSine exact_fp doc_audio AUDIO_FORMAT_PCM_8_BIT 48000 1 file_player silent_world = (Inr p, w1) \<and>
     track_callbacks doc_audio p (map (\<lambda>n. Track_More_Data (Some (replicate n 0))) [960, 960]) w1 = (Inr (), w2) \<and>
     played (pworld_view w2) = played (pworld_view w1) @ take 960 (tone_bytes 48000 1 [0 ..< 4096]) @ take 960 (tone_bytes 48000 1 [0 ..< 4096])"
  using libmedia_tone_restarts [OF doc_audio_player doc_audio_media, of 1 48000 AUDIO_FORMAT_PCM_8_BIT file_player silent_world 0 "[960, 960]"]
  by auto

theorem missing_file_is_no_error_witness:
  "\<exists>p. InitFile doc_audio (cstr ''x'') file_player silent_world = (Inr p, silent_world) \<and>
     fst (LibmediaPlayback_Play doc_audio p 10 silent_world) \<in> {Inl Bad_Pointer, Inl Check_Failed}"
  using missing_file_is_no_error [of doc_audio "cstr ''x''" silent_world _ silent_world file_player 10 silent_world]
  by (auto simp: doc_audio_ops file_player_def)

end
