(* ===== verification/Audio_Tests.thy ===== *)
theory Audio_Tests
  imports Audio_Playback
begin

text \<open>
  \<open>stagefright_record.cpp\<close>, \<open>stagefright_playback.cpp\<close> and \<open>brillo_audio_test.cpp\<close>: the tests through
  stagefright and the program that picks the test its flags ask for. The classes of stagefright and the
  parser of the flags are parameters; what is written to the log is left out.
\<close>

section \<open>stagefright\<close>

text \<open>
  \<open>asource_read\<close> is the buffer the source stored, if any; its status is not looked at. The extractor and
  its track may be NULL. \<open>player_setSource\<close> has the decoded source, or the object of a tone.
\<close>

datatype player_source = Decoded "nat option" | Sine SineSource

record 'w stagefright = "'w audio" +
  new_AudioSource :: "i32 \<Rightarrow> i32 \<Rightarrow> 'w \<Rightarrow> nat \<times> 'w"
  asource_initCheck :: "nat \<Rightarrow> 'w \<Rightarrow> status_t \<times> 'w"
  asource_start :: "nat \<Rightarrow> 'w \<Rightarrow> status_t \<times> 'w"
  asource_read :: "nat \<Rightarrow> 'w \<Rightarrow> nat option \<times> 'w"
  sleep_for :: "u32 \<Rightarrow> 'w \<Rightarrow> unit \<times> 'w"
  new_FileSource :: "byte list \<Rightarrow> 'w \<Rightarrow> nat \<times> 'w"
  fsource_initCheck :: "nat \<Rightarrow> 'w \<Rightarrow> status_t \<times> 'w"
  RegisterDefaultSniffers :: "nat \<Rightarrow> 'w \<Rightarrow> unit \<times> 'w"
  MediaExtractor_Create :: "nat \<Rightarrow> 'w \<Rightarrow> nat option \<times> 'w"
  getTrack :: "nat \<Rightarrow> nat \<Rightarrow> 'w \<Rightarrow> nat option \<times> 'w"
  SimpleDecodingSource_Create :: "nat option \<Rightarrow> 'w \<Rightarrow> nat option \<times> 'w"
  new_AudioPlayer :: "'w \<Rightarrow> nat \<times> 'w"
  player_setSource :: "nat \<Rightarrow> player_source \<Rightarrow> 'w \<Rightarrow> unit \<times> 'w"
  player_start :: "nat \<Rightarrow> 'w \<Rightarrow> status_t \<times> 'w"
  player_pause :: "nat \<Rightarrow> 'w \<Rightarrow> unit \<times> 'w"

text \<open>\<open>num_bytes_written += buffer->size ()\<close> is computed in \<open>size_t\<close> and stored in an \<open>int\<close>.\<close>

primrec record_loop ::
    "('w, 'z) stagefright_scheme \<Rightarrow> nat \<Rightarrow> nat \<Rightarrow> u64 \<Rightarrow> i32 \<Rightarrow> nat \<Rightarrow> i32 \<Rightarrow> ('w, audio_end, unit) prog" where
  "record_loop a audio_source out_file frame_size num_bytes_to_write 0 num_bytes_written = fail Never_Ends"
| "record_loop a audio_source out_file frame_size num_bytes_to_write (Suc fuel) num_bytes_written =
     (if num_bytes_written <s num_bytes_to_write then
        bnd (acall (asource_read a audio_source)) (\<lambda>buffer.
        case buffer of None \<Rightarrow> ret () | Some b \<Rightarrow>
          bnd (peek (buffer_size a b)) (\<lambda>size.
          if frame_size = 0 then fail Divides_By_Zero else
          let frame_count = sint (size div frame_size) in
          bnd (peek (buffer_data a b)) (\<lambda>data.
          bnd (acall (sf_writef_short a out_file (i16s data) frame_count)) (\<lambda>_.
          record_loop a audio_source out_file frame_size num_bytes_to_write fuel
            (ucast (scast num_bytes_written + size))))))
      else ret ())"

definition LibstagefrightRecordAudio ::
    "('w, 'z) stagefright_scheme \<Rightarrow> nat \<Rightarrow> byte list \<Rightarrow> i32 \<Rightarrow> i32 \<Rightarrow> i32 \<Rightarrow> ('w, audio_end, status_t) prog" where
  "LibstagefrightRecordAudio a fuel filename sample_rate num_channels duration_secs =
     bnd (acall (new_AudioSource a sample_rate num_channels)) (\<lambda>audio_source.
     bnd (acall (asource_initCheck a audio_source)) (\<lambda>status.
     if status \<noteq> OK then ret status else
     bnd (acall (asource_start a audio_source)) (\<lambda>status.
     if status \<noteq> OK then ret status else
     bnd (acall (sleep_for a (ucast duration_secs))) (\<lambda>_.
     let info = \<lparr>frames = 0, samplerate = sample_rate, channels = num_channels,
                 sf_format = SF_FORMAT_WAV (sfc a) OR SF_FORMAT_PCM_16 (sfc a)\<rparr> in
     bnd (acall (sf_open_write a filename info)) (\<lambda>out_file.
     case out_file of None \<Rightarrow> ret (st_INVALID_OPERATION a) | Some out_file \<Rightarrow>
     let frame_size = audio_bytes_per_sample a AUDIO_FORMAT_PCM_16_BIT * scast num_channels;
         num_bytes_to_write = ucast (frame_size * scast sample_rate * scast duration_secs) in
     bnd (record_loop a audio_source out_file frame_size num_bytes_to_write fuel 0) (\<lambda>_.
     bnd (acall (sf_close a out_file)) (\<lambda>_.
     ret status)))))))"

definition PlayStagefrightFile ::
    "('w, 'z) stagefright_scheme \<Rightarrow> byte list \<Rightarrow> i32 \<Rightarrow> ('w, audio_end, status_t) prog" where
  "PlayStagefrightFile a filename duration_secs =
     bnd (acall (new_FileSource a filename)) (\<lambda>file_source.
     bnd (acall (fsource_initCheck a file_source)) (\<lambda>status.
     if status \<noteq> OK then ret status else
     bnd (acall (RegisterDefaultSniffers a file_source)) (\<lambda>_.
     bnd (acall (MediaExtractor_Create a file_source)) (\<lambda>media_extractor.
     case media_extractor of None \<Rightarrow> fail Bad_Pointer | Some x \<Rightarrow>
     bnd (acall (getTrack a x 0)) (\<lambda>media_source.
     bnd (acall (SimpleDecodingSource_Create a media_source)) (\<lambda>decoded_source.
     bnd (acall (new_AudioPlayer a)) (\<lambda>player.
     bnd (acall (player_setSource a player (Decoded decoded_source))) (\<lambda>_.
     bnd (acall (player_start a player)) (\<lambda>status.
     if status \<noteq> OK then ret status else
     bnd (acall (sleep_for a (ucast duration_secs))) (\<lambda>_.
     ret status))))))))))"

definition PlayStagefrightSine ::
    "('w, 'z) stagefright_scheme \<Rightarrow> i32 \<Rightarrow> i32 \<Rightarrow> i32 \<Rightarrow> ('w, audio_end, status_t) prog" where
  "PlayStagefrightSine a sample_rate num_channels duration_secs =
     bnd (acall (new_AudioPlayer a)) (\<lambda>player.
     bnd (SineSource_new sample_rate num_channels) (\<lambda>sine_source.
     bnd (acall (player_setSource a player (Sine sine_source))) (\<lambda>_.
     bnd (acall (player_start a player)) (\<lambda>status.
     if status \<noteq> OK then ret status else
     bnd (acall (sleep_for a (ucast duration_secs))) (\<lambda>_.
     bnd (acall (player_pause a player)) (\<lambda>_.
     ret status))))))"

section \<open>brillo_audio_test.cpp\<close>

datatype TestMode =
    kPlayLibmedia | kPlayStagefright | kPlayMultiple | kRecordLibmedia | kRecordStageFright | kInvalid

definition get_format :: "i32 \<Rightarrow> audio_format_t" where
  "get_format sample_size =
     (if sample_size = 1 then AUDIO_FORMAT_PCM_8_BIT
      else if sample_size = 2 then AUDIO_FORMAT_PCM_16_BIT
      else if sample_size = 4 then AUDIO_FORMAT_PCM_32_BIT
      else AUDIO_FORMAT_INVALID)"

text \<open>\<open>FLAGS_filename\<close> without the terminator: empty when the flag is not given.\<close>

record audio_flags =
  FLAGS_libmedia :: bool
  FLAGS_stagefright :: bool
  FLAGS_playback :: bool
  FLAGS_record :: bool
  FLAGS_sine :: bool
  FLAGS_filename :: "byte list"
  FLAGS_duration_secs :: i32
  FLAGS_num_channels :: i32
  FLAGS_sample_rate :: i32
  FLAGS_sample_size :: i32

definition default_flags :: audio_flags where
  "default_flags = \<lparr>FLAGS_libmedia = False, FLAGS_stagefright = False, FLAGS_playback = False, FLAGS_record = False,
     FLAGS_sine = False, FLAGS_filename = [], FLAGS_duration_secs = 10, FLAGS_num_channels = 1,
     FLAGS_sample_rate = 48000, FLAGS_sample_size = 2\<rparr>"

definition invalid_flags :: "audio_flags \<Rightarrow> bool" where
  "invalid_flags fl \<longleftrightarrow>
     FLAGS_libmedia fl = FLAGS_stagefright fl \<or>
     FLAGS_playback fl = FLAGS_record fl \<or>
     FLAGS_record fl \<and> FLAGS_filename fl = [] \<or>
     FLAGS_playback fl \<and> FLAGS_sine fl = (FLAGS_filename fl \<noteq> [])"

definition test_mode :: "audio_flags \<Rightarrow> TestMode" where
  "test_mode fl =
     (if FLAGS_libmedia fl then if FLAGS_playback fl then kPlayLibmedia else kRecordLibmedia
      else if FLAGS_playback fl then kPlayStagefright else kRecordStageFright)"

definition cstr_of :: "byte list \<Rightarrow> byte list" where
  "cstr_of s = s @ [0]"

text \<open>A new \<open>LibmediaPlayback\<close>: its pointers are not set, its numbers whatever \<open>junk\<close> is there.\<close>

definition new_playback :: "i32 \<times> i32 \<Rightarrow> LibmediaPlayback" where
  "new_playback junk = \<lparr>pb_sine_data_buffer = None, pb_in_file = None, pb_source = None,
     pb_audio_format = AUDIO_FORMAT_INVALID, pb_sample_rate = fst junk, pb_num_channels = snd junk\<rparr>"

definition run_test_mode ::
    "'d fp \<Rightarrow> ('w, 'z) stagefright_scheme \<Rightarrow> nat \<Rightarrow> i32 \<times> i32 \<Rightarrow> audio_flags \<Rightarrow> TestMode \<Rightarrow>
     ('w, audio_end, status_t option) prog" where
  "run_test_mode f a fuel junk fl mode =
     (let audio_format = get_format (FLAGS_sample_size fl); some = (\<lambda>m. bnd m (\<lambda>status. ret (Some status))) in
      case mode of
        kPlayLibmedia \<Rightarrow>
          some (bnd (if FLAGS_sine fl
                     then InitSine f a audio_format (FLAGS_sample_rate fl) (FLAGS_num_channels fl) (new_playback junk)
                     else InitFile a (cstr_of (FLAGS_filename fl)) (new_playback junk)) (\<lambda>l_play.
                bnd (LibmediaPlayback_Play a l_play (FLAGS_duration_secs fl)) (\<lambda>status.
                bnd (LibmediaPlayback_delete a l_play) (\<lambda>_. ret status))))
      | kPlayStagefright \<Rightarrow>
          some (if FLAGS_sine fl
                then PlayStagefrightSine a (FLAGS_sample_rate fl) (FLAGS_num_channels fl) (FLAGS_duration_secs fl)
                else PlayStagefrightFile a (cstr_of (FLAGS_filename fl)) (FLAGS_duration_secs fl))
      | kRecordLibmedia \<Rightarrow>
          some (bnd (LibmediaRecord_Record a (cstr_of (FLAGS_filename fl)) (FLAGS_sample_rate fl) (FLAGS_num_channels fl)
                       audio_format (FLAGS_duration_secs fl) []) (\<lambda>(status, _). ret status))
      | kRecordStageFright \<Rightarrow>
          some (LibstagefrightRecordAudio a fuel (cstr_of (FLAGS_filename fl)) (FLAGS_sample_rate fl)
                  (FLAGS_num_channels fl) (FLAGS_duration_secs fl))
      | _ \<Rightarrow> ret None)"

text \<open>\<open>main\<close>: the process's status.\<close>

definition audio_test_main ::
    "'d fp \<Rightarrow> ('w, 'z) stagefright_scheme \<Rightarrow> nat \<Rightarrow> i32 \<times> i32 \<Rightarrow> audio_flags \<Rightarrow> ('w, audio_end, int) prog" where
  "audio_test_main f a fuel junk fl =
     (if invalid_flags fl then ret 1 else
      bnd (run_test_mode f a fuel junk fl (test_mode fl)) (\<lambda>status.
      case status of None \<Rightarrow> ret 1 | Some status \<Rightarrow> ret status))"

section \<open>Recording through stagefright ends\<close>

text \<open>
  The loop of \<open>LibstagefrightRecordAudio\<close> ends while every buffer it gets holds something, after at most
  one read per byte; of a source that only delivers empty buffers it never gets enough.
\<close>

lemma ucast_of_int32: "(ucast (of_int x :: u64) :: i32) = of_int x"
  by (simp add: unsigned_of_int word_of_int_eq_iff)

lemma add_bytes:
  assumes "0 \<le> sint n" "sint n < 2 ^ 30" "unat k < 2 ^ 30"
  shows "sint (ucast (scast (n :: i32) + (k :: u64)) :: i32) = sint n + int (unat k)"
proof -
  have "int (unat k) < int (2 ^ 30)" using assms(3) by (rule iffD2 [OF of_nat_less_iff])
  then have k: "uint k < 2 ^ 30" by simp
  have b: "0 \<le> sint n + uint k" "sint n + uint k < 2 ^ 31"
    using add_nonneg_nonneg [OF assms(1) unsigned_greater_eq [of k]] assms(2) k by simp_all
  have "scast n + k = (of_int (sint n + uint k) :: u64)" by simp
  then have "(ucast (scast n + k) :: i32) = of_int (sint n + uint k)" by (simp only: ucast_of_int32)
  moreover have "sint (of_int (sint n + uint k) :: i32) = sint n + uint k"
    unfolding signed_of_int of_int_eq_id id_apply
    by (rule signed_take_bit_int_eq_self; use b in simp)
  ultimately show ?thesis by simp
qed

lemma record_loop_ends:
  assumes src: "\<And>w. \<exists>b w'. asource_read a s w = (Some b, w') \<and> 0 < unat (buffer_size a b w') \<and> unat (buffer_size a b w') < 2 ^ 30"
    and fs: "frame_size \<noteq> 0" and goal: "sint goal \<le> 2 ^ 30"
  shows "0 \<le> sint n \<Longrightarrow> max 0 (sint goal - sint n) < int fuel \<Longrightarrow>
    \<exists>w'. record_loop a s h frame_size goal fuel n w = (Inr (), w')"
proof (induction fuel arbitrary: n w)
  case (Suc fuel)
  show ?case
  proof (cases "n <s goal")
    case True
    then have lt: "sint n < sint goal" by (simp add: word_sless_alt)
    obtain b w1 where b: "asource_read a s w = (Some b, w1)" "0 < unat (buffer_size a b w1)" "unat (buffer_size a b w1) < 2 ^ 30"
      using src by blast
    let ?n = "ucast (scast n + buffer_size a b w1) :: i32"
    have n: "sint ?n = sint n + int (unat (buffer_size a b w1))"
      using Suc.prems lt goal b(3) by (intro add_bytes) simp_all
    obtain x w2 where x: "sf_writef_short a h (i16s (buffer_data a b w1)) (sint (buffer_size a b w1 div frame_size)) w1 = (x, w2)"
      by fastforce
    have "0 \<le> sint ?n" "max 0 (sint goal - sint ?n) < int fuel"
      using n b(2) lt Suc.prems(1) Suc.prems(2) [unfolded of_nat_Suc] by linarith+
    then obtain w' where "record_loop a s h frame_size goal fuel ?n w2 = (Inr (), w')" using Suc.IH by blast
    with True b(1) x fs show ?thesis by (simp add: Let_def)
  qed simp
qed simp

lemma record_loop_empty_buffers:
  assumes src: "\<And>w. \<exists>b w'. asource_read a s w = (Some b, w') \<and> buffer_size a b w' = 0"
    and fs: "frame_size \<noteq> 0" and "n <s goal"
  shows "fst (record_loop a s h frame_size goal fuel n w) = Inl Never_Ends"
proof (induction fuel arbitrary: w)
  case (Suc fuel)
  obtain b w1 where b: "asource_read a s w = (Some b, w1)" "buffer_size a b w1 = 0" using src by blast
  obtain x w2 where x: "sf_writef_short a h (i16s (buffer_data a b w1)) 0 w1 = (x, w2)" by fastforce
  have "(ucast (scast n + 0 :: u64) :: i32) = n"
    unfolding scast_eq add_0_right ucast_of_int32 by simp
  with Suc b x fs assms(3) show ?case by (simp add: Let_def)
qed simp

section \<open>From the flags to the file\<close>


definition doc_stagefright :: "('z rworld_scheme) stagefright" where
  "doc_stagefright = audio.extend doc_audio (stagefright.fields
     (\<lambda>r c w. (0, w)) (\<lambda>h w. (OK, w)) (\<lambda>h w. (OK, w)) (\<lambda>h w. (None, w)) (\<lambda>t w. ((), w))
     (\<lambda>n w. (0, w)) (\<lambda>h w. (-1, w)) (\<lambda>h w. ((), w)) (\<lambda>h w. (None, w)) (\<lambda>h i w. (None, w)) (\<lambda>t w. (None, w))
     (\<lambda>w. (0, w)) (\<lambda>h s w. ((), w)) (\<lambda>h w. (-1, w)) (\<lambda>h w. ((), w)))"

lemma doc_stagefright_recorder:
  "recorder_doc doc_stagefright (rworld_view :: 'z rworld_scheme \<Rightarrow> rview)"
  "recorder_works doc_stagefright (rworld_view :: 'z rworld_scheme \<Rightarrow> rview)"
proof -
  have "recorder_doc doc_stagefright R = recorder_doc doc_audio R" "recorder_works doc_stagefright R = recorder_works doc_audio R"
    for R :: "'z rworld_scheme \<Rightarrow> rview"
    by (simp_all add: recorder_doc_def recorder_works_def doc_stagefright_def stagefright.defs doc_audio_def audio.defs media.defs)
  then show "recorder_doc doc_stagefright (rworld_view :: 'z rworld_scheme \<Rightarrow> rview)"
    "recorder_works doc_stagefright (rworld_view :: 'z rworld_scheme \<Rightarrow> rview)"
    by (simp_all add: doc_audio_doc doc_audio_works)
qed

definition record_flags :: audio_flags where
  "record_flags = default_flags\<lparr>FLAGS_libmedia := True, FLAGS_record := True, FLAGS_filename := butlast (cstr ''a.wav''),
     FLAGS_num_channels := 2\<rparr>"


end
