(* ===== verification/Audio_Hal.thy ===== *)
theory Audio_Hal
  imports Audio_Playback
begin

text \<open>
  \<open>audio_hal_playback_test.cpp\<close> and \<open>audio_hal_record_test.cpp\<close>: the two programs that drive the audio
  HAL directly. The HAL, its loader and the clock are parameters; what goes to the log and to the
  console is left out.
\<close>

section \<open>Numbers on the command line\<close>

text \<open>
  \<open>strtol\<close> of the C library for the bases 10 and 16, on a 64-bit \<open>long\<close>: white space, a sign, \<open>0x\<close> in
  base 16, the longest run of digits; too large a number gives the nearest \<open>long\<close>, no digit gives 0.
  \<open>atoi\<close> is \<open>strtol\<close> in base 10, cut to an \<open>int\<close>.
\<close>

definition digit_val :: "byte \<Rightarrow> nat option" where
  "digit_val b =
     (let n = unat b in
      if 48 \<le> n \<and> n \<le> 57 then Some (n - 48)
      else if 97 \<le> n \<and> n \<le> 122 then Some (n - 87)
      else if 65 \<le> n \<and> n \<le> 90 then Some (n - 55)
      else None)"

definition is_digit :: "nat \<Rightarrow> byte \<Rightarrow> bool" where
  "is_digit base b = (case digit_val b of None \<Rightarrow> False | Some d \<Rightarrow> d < base)"

definition is_space :: "byte \<Rightarrow> bool" where
  "is_space b \<longleftrightarrow> b = 32 \<or> 9 \<le> unat b \<and> unat b \<le> 13"

definition digits_val :: "nat \<Rightarrow> byte list \<Rightarrow> int" where
  "digits_val base s = int (fold (\<lambda>b n. n * base + the (digit_val b)) (takeWhile (is_digit base) s) 0)"

definition skip_0x :: "nat \<Rightarrow> byte list \<Rightarrow> byte list" where
  "skip_0x base s =
     (case s of
        z # x # d # r \<Rightarrow> if base = 16 \<and> z = 48 \<and> (x = 120 \<or> x = 88) \<and> is_digit 16 d then d # r else s
      | _ \<Rightarrow> s)"

definition strtol :: "byte list \<Rightarrow> nat \<Rightarrow> int" where
  "strtol s base =
     (let s = dropWhile is_space s;
          neg = (s \<noteq> [] \<and> hd s = 45);
          s = (if s \<noteq> [] \<and> (hd s = 45 \<or> hd s = 43) then tl s else s);
          v = digits_val base (skip_0x base s);
          v = (if neg then - v else v)
      in max (- (2 ^ 63)) (min (2 ^ 63 - 1) v))"

definition atoi :: "byte list \<Rightarrow> int" where
  "atoi s = to_int (strtol s 10)"

section \<open>The HAL\<close>

record audio_config_t =
  cfg_channel_mask :: u32
  cfg_format :: audio_format_t
  cfg_sample_rate :: u32

text \<open>
  Modules, devices and streams are handles. Opening a stream may change the configuration. \<open>in_read\<close>
  returns its status and the bytes it stored. \<open>fresh\<close> is what a new array of that many bytes contains.
\<close>

record 'w hal = "'w audio" +
  hw_get_module_by_class :: "byte list \<Rightarrow> 'w \<Rightarrow> (int \<times> nat option) \<times> 'w"
  audio_hw_device_open :: "nat \<Rightarrow> 'w \<Rightarrow> (int \<times> nat option) \<times> 'w"
  audio_hw_device_close :: "nat \<Rightarrow> 'w \<Rightarrow> unit \<times> 'w"
  open_output_stream :: "nat \<Rightarrow> int \<Rightarrow> u32 \<Rightarrow> audio_config_t \<Rightarrow> byte list \<Rightarrow> 'w \<Rightarrow> (int \<times> nat option \<times> audio_config_t) \<times> 'w"
  close_output_stream :: "nat \<Rightarrow> nat \<Rightarrow> 'w \<Rightarrow> unit \<times> 'w"
  out_set_volume :: "nat \<Rightarrow> rat \<Rightarrow> rat \<Rightarrow> 'w \<Rightarrow> int \<times> 'w"
  out_get_buffer_size :: "nat \<Rightarrow> 'w \<Rightarrow> u64 \<times> 'w"
  out_write :: "nat \<Rightarrow> byte list \<Rightarrow> 'w \<Rightarrow> int \<times> 'w"
  open_input_stream :: "nat \<Rightarrow> int \<Rightarrow> u32 \<Rightarrow> audio_config_t \<Rightarrow> byte list \<Rightarrow> 'w \<Rightarrow> (int \<times> nat option \<times> audio_config_t) \<times> 'w"
  close_input_stream :: "nat \<Rightarrow> nat \<Rightarrow> 'w \<Rightarrow> unit \<times> 'w"
  in_get_buffer_size :: "nat \<Rightarrow> 'w \<Rightarrow> u64 \<times> 'w"
  in_set_parameters :: "nat \<Rightarrow> byte list \<Rightarrow> 'w \<Rightarrow> int \<times> 'w"
  in_read :: "nat \<Rightarrow> nat \<Rightarrow> 'w \<Rightarrow> (int \<times> byte list) \<times> 'w"
  clock :: "'w \<Rightarrow> int \<times> 'w"
  count_from_out_mask :: "u32 \<Rightarrow> u32"
  CHANNEL_OUT_STEREO :: u32
  CHANNEL_IN_MONO :: u32
  DEVICE_BIT_IN :: u32
  fresh :: "nat \<Rightarrow> byte list"

section \<open>audio_hal_playback_test.cpp\<close>

definition kAudioPlaybackFormat :: audio_format_t where "kAudioPlaybackFormat = AUDIO_FORMAT_PCM_16_BIT"

text \<open>
  The loop of \<open>GenerateData\<close>, with the last buffer read, the source and the array. The comparison and
  the difference are in \<open>size_t\<close>; the array has \<open>length data\<close> bytes.
\<close>

primrec generate_loop ::
    "'d fp \<Rightarrow> ('w, 'z) media_scheme \<Rightarrow> nat \<Rightarrow> SineSource \<Rightarrow> nat option \<Rightarrow> nat \<Rightarrow> byte list \<Rightarrow>
     ('w, audio_end, nat option \<times> SineSource \<times> byte list) prog" where
  "generate_loop f a 0 s buffer num_bytes_copied data = fail Never_Ends"
| "generate_loop f a (Suc fuel) s buffer num_bytes_copied data =
     (if num_bytes_copied < length data then
        bnd (SineSource_read f a s) (\<lambda>((_, buffer), s).
        case buffer of None \<Rightarrow> fail Check_Failed | Some b \<Rightarrow>
        bnd (peek (buffer_size a b)) (\<lambda>size.
        bnd (peek (buffer_data a b)) (\<lambda>d.
        if length data - num_bytes_copied \<le> unat size then
          ret (Some b, s, blit num_bytes_copied (take (length data - num_bytes_copied) d) data)
        else
          generate_loop f a fuel s (Some b) (num_bytes_copied + unat size)
            (blit num_bytes_copied (take (unat size) d) data))))
      else ret (buffer, s, data))"

text \<open>\<open>source\<close> is let go of at the end.\<close>

definition GenerateData ::
    "'d fp \<Rightarrow> ('w, 'z) media_scheme \<Rightarrow> nat \<Rightarrow> i32 \<Rightarrow> i32 \<Rightarrow> byte list \<Rightarrow> ('w, audio_end, byte list) prog" where
  "GenerateData f a fuel sample_rate num_channels new_data =
     bnd (SineSource_new sample_rate num_channels) (\<lambda>s.
     bnd (SineSource_start a s) (\<lambda>(_, s).
     bnd (generate_loop f a fuel s None 0 new_data) (\<lambda>(buffer, s, data).
     case buffer of None \<Rightarrow> fail Check_Failed | Some b \<Rightarrow>
     bnd (acall (release_buffer a b)) (\<lambda>_.
     bnd (SineSource_delete a s) (\<lambda>_.
     ret data)))))"

primrec write_buffers ::
    "('w, 'z) hal_scheme \<Rightarrow> nat \<Rightarrow> byte list \<Rightarrow> u64 \<Rightarrow> nat \<Rightarrow> int \<Rightarrow> ('w, audio_end, int) prog" where
  "write_buffers a out_stream data bufsize 0 rc = ret rc"
| "write_buffers a out_stream data bufsize (Suc n) rc =
     bnd (acall (out_get_buffer_size a out_stream)) (\<lambda>bytes_wanted.
     let count = if bytes_wanted \<le> bufsize then bytes_wanted else bufsize in
     bnd (acall (out_write a out_stream (take (unat count) data))) (\<lambda>r.
     let rc = to_int r in
     if rc < 0 then ret rc else write_buffers a out_stream data bufsize n rc))"

definition kNumBuffersToWrite :: nat where "kNumBuffersToWrite = 1000"

definition PlaySineWave ::
    "'d fp \<Rightarrow> ('w, 'z) hal_scheme \<Rightarrow> nat \<Rightarrow> nat \<Rightarrow> audio_config_t \<Rightarrow> ('w, audio_end, int) prog" where
  "PlaySineWave f a fuel out_stream config =
     bnd (acall (out_get_buffer_size a out_stream)) (\<lambda>buffer_size.
     let num_channels = count_from_out_mask a (cfg_channel_mask config) in
     bnd (GenerateData f a fuel (cfg_sample_rate config) num_channels (fresh a (unat buffer_size))) (\<lambda>data.
     write_buffers a out_stream data buffer_size kNumBuffersToWrite 0))"

text \<open>
  \<open>data\<close> is the array of \<open>short\<close>s as bytes. A read that stores more than the array holds is an overrun;
  a write of more than it holds reads behind it, which is one as well.
\<close>

primrec play_file_loop ::
    "('w, 'z) hal_scheme \<Rightarrow> nat \<Rightarrow> nat \<Rightarrow> u64 \<Rightarrow> nat \<Rightarrow> int \<Rightarrow> int \<Rightarrow> byte list \<Rightarrow> ('w, audio_end, int) prog" where
  "play_file_loop a out_stream in_file kFrameSize 0 frames_read rc data = fail Never_Ends"
| "play_file_loop a out_stream in_file kFrameSize (Suc fuel) frames_read rc data =
     (if frames_read \<noteq> 0 then
        bnd (acall (out_get_buffer_size a out_stream)) (\<lambda>bytes_wanted.
        bnd (acall (sf_readf_short a in_file (sint (bytes_wanted div kFrameSize)))) (\<lambda>(frames_read, xs).
        bnd (pure (fill (pcm_bytes xs) data)) (\<lambda>data.
        let count = unat (of_int frames_read * kFrameSize) in
        if length data < count then fail Heap_Overrun else
        bnd (acall (out_write a out_stream (take count data))) (\<lambda>r.
        let rc = to_int r in
        if rc < 0 then ret rc
        else play_file_loop a out_stream in_file kFrameSize fuel frames_read rc data))))
      else ret rc)"

definition PlayFile ::
    "('w, 'z) hal_scheme \<Rightarrow> nat \<Rightarrow> nat \<Rightarrow> nat \<Rightarrow> audio_config_t \<Rightarrow> ('w, audio_end, int) prog" where
  "PlayFile a fuel out_stream in_file config =
     bnd (acall (out_get_buffer_size a out_stream)) (\<lambda>buffer_size.
     let kFrameSize = audio_bytes_per_sample a kAudioPlaybackFormat *
                      ucast (count_from_out_mask a (cfg_channel_mask config)) in
     if kFrameSize = 0 then fail Divides_By_Zero else
     let data = fresh a (2 * unat (buffer_size div kFrameSize)) in
     play_file_loop a out_stream in_file kFrameSize fuel 1 0 data)"

text \<open>The primary module, or else the USB one: None when there is neither.\<close>

definition load_hal :: "('w, 'z) hal_scheme \<Rightarrow> ('w, audio_end, nat option option) prog" where
  "load_hal a =
     bnd (acall (hw_get_module_by_class a (cstr ''primary''))) (\<lambda>(rc, hw_module).
     if rc \<noteq> 0 then
       bnd (acall (hw_get_module_by_class a (cstr ''usb''))) (\<lambda>(rc, hw_module).
       if rc \<noteq> 0 then ret None else ret (Some hw_module))
     else ret (Some hw_module))"

definition hal_io_handle :: int where "hal_io_handle = 0x999"

text \<open>What there is to play, with the file: none when the file is refused.\<close>

definition playback_config ::
    "('w, 'z) hal_scheme \<Rightarrow> byte list option \<Rightarrow> u32 \<Rightarrow> ('w, audio_end, (audio_config_t \<times> nat option) option) prog" where
  "playback_config a filename desired_sample_rate =
     (case filename of
        Some filename \<Rightarrow>
          bnd (acall (sf_open_read a filename)) (\<lambda>(in_file, file_info).
          bnd (CHECK (in_file \<noteq> None)) (\<lambda>_.
          if sf_format file_info AND SF_FORMAT_PCM_16 (sfc a) = 0 then ret None else
          ret (Some (\<lparr>cfg_channel_mask = out_mask_from_count a (channels file_info),
                      cfg_format = kAudioPlaybackFormat, cfg_sample_rate = samplerate file_info\<rparr>, in_file))))
      | None \<Rightarrow>
          ret (Some (\<lparr>cfg_channel_mask = CHANNEL_OUT_STEREO a, cfg_format = kAudioPlaybackFormat,
                      cfg_sample_rate = desired_sample_rate\<rparr>, None)))"

definition hal_playback_main ::
    "'d fp \<Rightarrow> ('w, 'z) hal_scheme \<Rightarrow> nat \<Rightarrow> byte list list \<Rightarrow> ('w, audio_end, int) prog" where
  "hal_playback_main f a fuel argv =
     (if length argv < 3 then ret (-1) else
      let desired_output_device = of_int (strtol (argv ! 1) 16) :: u32;
          desired_sample_rate = of_int (strtol (argv ! 2) 10) :: u32;
          filename = (if desired_sample_rate = 0 then Some (argv ! 2) else None) in
      bnd (load_hal a) (\<lambda>loaded.
      case loaded of None \<Rightarrow> ret (-1) | Some hw_module \<Rightarrow>
      case hw_module of None \<Rightarrow> fail Check_Failed | Some hw_module \<Rightarrow>
      bnd (acall (audio_hw_device_open a hw_module)) (\<lambda>(rc, audio_device).
      if rc \<noteq> 0 then ret (-1) else
      bnd (playback_config a filename desired_sample_rate) (\<lambda>play.
      case play of None \<Rightarrow> ret (-1) | Some (config, in_file) \<Rightarrow>
      case audio_device of None \<Rightarrow> fail Check_Failed | Some audio_device \<Rightarrow>
      bnd (acall (open_output_stream a audio_device hal_io_handle desired_output_device config (cstr ''output_stream'')))
        (\<lambda>(rc, out_stream, config).
      if rc \<noteq> 0 then ret (-1) else
      case out_stream of None \<Rightarrow> fail Check_Failed | Some out_stream \<Rightarrow>
      bnd (acall (out_set_volume a out_stream (3 / 4) (3 / 4))) (\<lambda>_.
      bnd (case in_file of
             Some in_file \<Rightarrow> PlayFile a fuel out_stream in_file config
           | None \<Rightarrow> PlaySineWave f a fuel out_stream config) (\<lambda>_.
      bnd (acall (close_output_stream a audio_device out_stream)) (\<lambda>_.
      bnd (acall (audio_hw_device_close a audio_device)) (\<lambda>_.
      ret 0)))))))))"

section \<open>audio_hal_record_test.cpp\<close>

definition kRecordedDataSize :: nat where "kRecordedDataSize = 100 * 1000"
definition kMaxLoopTime :: int where "kMaxLoopTime = 30"

text \<open>The loop: the offset and the data at its end. The sum with \<open>buffer_size\<close> is in \<open>size_t\<close>.\<close>

primrec capture_loop ::
    "('w, 'z) hal_scheme \<Rightarrow> nat \<Rightarrow> u64 \<Rightarrow> int \<Rightarrow> nat \<Rightarrow> nat \<Rightarrow> byte list \<Rightarrow> ('w, audio_end, nat \<times> byte list) prog" where
  "capture_loop a in_stream bufsize start_time 0 buffer_offset data = fail Never_Ends"
| "capture_loop a in_stream bufsize start_time (Suc fuel) buffer_offset data =
     (if buffer_offset < kRecordedDataSize then
        let bytes_to_copy =
              (if of_nat buffer_offset + bufsize < of_nat kRecordedDataSize then unat bufsize
               else kRecordedDataSize - buffer_offset) in
        bnd (acall (in_read a in_stream bytes_to_copy)) (\<lambda>(bytes_read, bs).
        if length data < buffer_offset + length bs then fail Heap_Overrun else
        let data = blit buffer_offset bs data in
        if bytes_read < 0 then
          bnd (acall (clock a)) (\<lambda>now.
          if kMaxLoopTime < now - start_time then ret (buffer_offset, data)
          else capture_loop a in_stream bufsize start_time fuel buffer_offset data)
        else capture_loop a in_stream bufsize start_time fuel (buffer_offset + nat bytes_read) data)
      else ret (buffer_offset, data))"

definition save_capture ::
    "('w, 'z) hal_scheme \<Rightarrow> byte list \<Rightarrow> u32 \<Rightarrow> audio_config_t \<Rightarrow> nat \<Rightarrow> byte list \<Rightarrow> ('w, audio_end, int) prog" where
  "save_capture a output_filename desired_sample_rate config buffer_offset data =
     (let num_channels = count_from_out_mask a (cfg_channel_mask config);
          info = \<lparr>frames = 0, samplerate = desired_sample_rate, channels = num_channels,
                  sf_format = SF_FORMAT_WAV (sfc a) OR SF_FORMAT_PCM_16 (sfc a)\<rparr> in
      bnd (acall (sf_open_write a output_filename info)) (\<lambda>out_file.
      case out_file of None \<Rightarrow> ret (-1) | Some out_file \<Rightarrow>
      let frame_size = audio_bytes_per_sample a (cfg_format config) * scast num_channels in
      if frame_size = 0 then fail Divides_By_Zero else
      let frame_count = sint (of_nat buffer_offset div frame_size) in
      bnd (acall (sf_writef_short a out_file (i16s data) frame_count)) (\<lambda>_.
      bnd (acall (sf_close a out_file)) (\<lambda>_.
      ret 0))))"

definition hal_record_main ::
    "('w, 'z) hal_scheme \<Rightarrow> nat \<Rightarrow> byte list list \<Rightarrow> ('w, audio_end, int) prog" where
  "hal_record_main a fuel argv =
     (if length argv < 4 then ret (-1) else
      let desired_input_device = of_int (strtol (argv ! 1) 16) :: u32 in
      bnd (CHECK (0 < desired_input_device)) (\<lambda>_.
      let desired_input_device = desired_input_device OR DEVICE_BIT_IN a;
          desired_sample_rate = of_int (atoi (argv ! 2)) :: u32 in
      bnd (CHECK (0 < desired_sample_rate)) (\<lambda>_.
      bnd (load_hal a) (\<lambda>loaded.
      case loaded of None \<Rightarrow> ret (-1) | Some hw_module \<Rightarrow>
      case hw_module of None \<Rightarrow> fail Check_Failed | Some hw_module \<Rightarrow>
      bnd (acall (audio_hw_device_open a hw_module)) (\<lambda>(rc, audio_device).
      if rc \<noteq> 0 then ret (-1) else
      case audio_device of None \<Rightarrow> fail Check_Failed | Some audio_device \<Rightarrow>
      let config = \<lparr>cfg_channel_mask = CHANNEL_IN_MONO a, cfg_format = AUDIO_FORMAT_PCM_16_BIT,
                    cfg_sample_rate = desired_sample_rate\<rparr> in
      bnd (acall (open_input_stream a audio_device hal_io_handle desired_input_device config (cstr ''input_stream'')))
        (\<lambda>(rc, in_stream, config).
      if rc \<noteq> 0 then ret (-1) else
      case in_stream of None \<Rightarrow> fail Bad_Pointer | Some in_stream \<Rightarrow>
      bnd (acall (in_get_buffer_size a in_stream)) (\<lambda>buffer_size.
      bnd (acall (in_set_parameters a in_stream (cstr ''input_source=1''))) (\<lambda>_.
      bnd (acall (clock a)) (\<lambda>start_time.
      bnd (capture_loop a in_stream buffer_size start_time fuel 0 (replicate kRecordedDataSize 0)) (\<lambda>(buffer_offset, data).
      bnd (acall (close_input_stream a audio_device in_stream)) (\<lambda>_.
      bnd (acall (audio_hw_device_close a audio_device)) (\<lambda>_.
      save_capture a (argv ! 3) desired_sample_rate config buffer_offset data))))))))))))"

section \<open>GenerateData\<close>

lemma delete_source:
  assumes "media_doc m V" "source_at V s b busy bytes w"
  obtains w' where "SineSource_delete m s w = (Inr (), w')"
proof -
  obtain g where g: "mStarted s" "mGroup s = Some g" "groups_of (V w) g = Some [b]"
    using assms(2) by (auto simp: source_at_def)
  from new_docs(4) [OF media_docD(1) [OF assms(1)] g(3)] obtain w' where "delete_group m g w = ((), w')" by blast
  with g(1,2) show ?thesis by (intro that) (simp add: SineSource_delete_def SineSource_stop_def)
qed

text \<open>C35: the array of the HAL's size is filled with the tone exactly when it fits into one buffer of the source.
  \<open>GenerateData\<close> keeps the buffer it reads until its end, but the source's group owns only one: for more than
  8192 bytes it waits in its second read for ever, and for a HAL that reports a size of 0 it aborts. In
  between it returns the beginning of the tone.\<close>

theorem generate_data_exact:
  assumes "media_doc m V" "ch = 1 \<or> ch = 2" "rate \<noteq> 0" "2 \<le> fuel"
  shows "fst (GenerateData exact_fp m fuel rate ch new w) =
    (if new = [] then Inl Check_Failed
     else if length new \<le> kBufferSize
     then Inr (take (length new) (tone_bytes rate ch [0 ..< (if ch = 2 then 2048 else 4096)]))
     else Inl Waits_Forever)"
proof -
  obtain n where fuel: "fuel = Suc (Suc n)" using assms(4) by (metis add_2_eq_Suc le_Suc_ex)
  obtain s b bytes w1 where s: "bnd (SineSource_new rate ch) (SineSource_start m) w = (Inr (OK, s), w1)"
    "source_at V s b False bytes w1" "mSampleRate s = rate" "mNumChannels s = ch" "mPhase s = 0"
    by (rule sine_start [OF assms(1,2)])
  obtain s0 w0 where s0: "SineSource_new rate ch w = (Inr s0, w0)" "SineSource_start m s0 w0 = (Inr (OK, s), w1)"
    by (rule bnd_eq_InrE [OF s(1)])
  define T where "T = tone_bytes rate ch [0 ..< (if ch = 2 then 2048 else 4096)]"
  let ?s = "s\<lparr>mPhase := mPhase s + of_nat (frames_per_buffer s)\<rparr>"
  obtain w2 where w2: "SineSource_read exact_fp m s w1 = (Inr ((OK, Some b), ?s), w2)" "source_at V s b True T w2"
    using read_exact [OF assms(1) s(2)] s(3-5) assms(3) by (auto simp: frames_per_buffer_def T_def)
  note d = data_of_block [OF assms(1) w2(2)]
  have size: "unat (buffer_size m b w2) = kBufferSize" by (simp add: d(2) kBufferSize_def)
  have "source_at V ?s b True T w2" using w2(2) by simp
  then have blocked: "fst (SineSource_read exact_fp m ?s w2) = Inl Waits_Forever" by (rule read_waits [OF assms(1)])
  obtain w3 where w3: "release_buffer m b w2 = ((), w3)" "source_at V s b False T w3" by (rule released [OF assms(1) w2(2)])
  have "source_at V ?s b False T w3" using w3(2) by simp
  then obtain w4 where w4: "SineSource_delete m ?s w3 = (Inr (), w4)" by (rule delete_source [OF assms(1)])
  consider "new = []" | "new \<noteq> []" "length new \<le> kBufferSize" | "kBufferSize < length new" by fastforce
  then have "fst (GenerateData exact_fp m fuel rate ch new w) =
    (if new = [] then Inl Check_Failed
     else if length new \<le> kBufferSize then Inr (take (length new) T) else Inl Waits_Forever)"
  proof cases
    case 1
    then show ?thesis by (simp add: GenerateData_def s0 fuel)
  next
    case 2
    then show ?thesis using w2(1) d(1,3) size w3(1) w4 by (simp add: GenerateData_def s0 fuel)
  next
    case 3
    then have "new \<noteq> []" by auto
    obtain w5 where "SineSource_read exact_fp m ?s w2 = (Inl Waits_Forever, w5)" using blocked by (metis prod.collapse)
    with 3 \<open>new \<noteq> []\<close> show ?thesis using w2(1) d(1) size d(3) by (simp add: GenerateData_def s0 fuel kBufferSize_def)
  qed
  then show ?thesis by (simp only: T_def)
qed

theorem generate_data_exact_witness:
  "fst (GenerateData exact_fp doc_media 2 48000 2 (replicate 16384 0) \<lparr>group_list = [], buffer_list = []\<rparr>) = Inl Waits_Forever \<and>
   fst (GenerateData exact_fp doc_media 2 48000 2 (replicate 4096 0) \<lparr>group_list = [], buffer_list = []\<rparr>) =
     Inr (take 4096 (tone_bytes 48000 2 [0 ..< 2048]))"
  using generate_data_exact [OF doc_media_doc, of 2 48000 2 "replicate 16384 0" "\<lparr>group_list = [], buffer_list = []\<rparr>"]
    generate_data_exact [OF doc_media_doc, of 2 48000 2 "replicate 4096 0" "\<lparr>group_list = [], buffer_list = []\<rparr>"]
  by (simp_all add: kBufferSize_def)

section \<open>PlayFile\<close>

text \<open>A stream whose buffer is \<open>B\<close> bytes, and a file of \<open>c\<close> channels that never runs out.\<close>

definition endless_file :: "('w, 'z) hal_scheme \<Rightarrow> nat \<Rightarrow> nat \<Rightarrow> u64 \<Rightarrow> nat \<Rightarrow> bool" where
  "endless_file a out h B c \<longleftrightarrow>
     audio_bytes_per_sample a AUDIO_FORMAT_PCM_16_BIT = 2 \<and> (\<forall>n. length (fresh a n) = n) \<and>
     (\<forall>w. fst (out_get_buffer_size a out w) = B) \<and>
     (\<forall>n w. 0 \<le> n \<longrightarrow> fst (fst (sf_readf_short a h n w)) = n \<and> length (snd (fst (sf_readf_short a h n w))) = nat n * c)"

lemma sint_unat_small:
  assumes "unat (x :: u64) < 2 ^ 31"
  shows "sint x = int (unat x)"
proof -
  have "int (unat x) < int (2 ^ 31)" using assms by (rule iffD2 [OF of_nat_less_iff])
  then have u: "0 \<le> uint x" "uint x < 2 ^ 31" by simp_all
  have "sint x = uint x"
    unfolding sint_uint
    by (rule signed_take_bit_int_eq_self) (rule order_trans [OF _ u(1)], simp, rule order.strict_trans [OF u(2)], simp)
  then show ?thesis by simp
qed

lemma unat_double: "m < 2 ^ 31 \<Longrightarrow> unat (of_nat m * 2 :: u64) = 2 * m"
  using unat_of_nat [of "2 * m", where 'a = 64] by (simp add: mult.commute)

lemma mono_loop:
  assumes doc: "endless_file a out h B 1" and len: "length data = 2 * unat (B div 2)" and B: "unat B < 2 ^ 31"
  shows "fst (play_file_loop a out h 2 fuel k rc data w) \<noteq> Inl Heap_Overrun"
  using len
proof (induction fuel arbitrary: k rc data w)
  case (Suc fuel)
  obtain w1 where w1: "out_get_buffer_size a out w = (B, w1)" using doc by (metis endless_file_def prod.collapse)
  let ?n = "sint (B div 2)"
  have lt: "unat (B div 2) < 2 ^ 31" using B by (simp add: unat_div_distrib)
  then have n: "?n = int (unat (B div 2))" by (rule sint_unat_small)
  then obtain xs w2 where x: "sf_readf_short a h ?n w1 = ((?n, xs), w2)" "length xs = unat (B div 2)"
    using doc unfolding endless_file_def by (metis mult.right_neutral nat_int of_nat_0_le_iff prod.collapse)
  have f: "fill (pcm_bytes xs) data = Inr (pcm_bytes xs)" using x(2) Suc.prems by (simp add: fill_ok)
  have c: "unat (of_int ?n * 2 :: u64) = 2 * unat (B div 2)"
    unfolding n of_int_of_nat_eq by (rule unat_double [OF lt])
  obtain r w3 where w3: "out_write a out (take (2 * unat (B div 2)) (pcm_bytes xs)) w2 = (r, w3)" by fastforce
  have "length (pcm_bytes xs) = 2 * unat (B div 2)" using x(2) by simp
  with Suc.IH [OF this] c f w1 x(1) w3 show ?case by (simp add: Let_def)
qed simp

text \<open>C37: playing a file overruns the heap exactly when it has more than one channel. The array has one \<open>short\<close>
  for each frame that fits into the HAL's buffer, but the read stores one for each channel of each frame:
  with a stream that holds at least one frame and a file that is long enough, the first read of a file with
  two channels or more writes behind the array, and no read of a mono file does.\<close>

theorem play_file_overruns_heap:
  assumes doc: "endless_file a out h B (unat c)" and c: "count_from_out_mask a (cfg_channel_mask cfg) = c"
    and ch: "1 \<le> unat c" "unat c \<le> 512" and B: "2 * unat c \<le> unat B" "unat B < 2 ^ 31"
  shows "fst (PlayFile a (Suc fuel) out h cfg w) = Inl Heap_Overrun \<longleftrightarrow> 2 \<le> unat c"
proof -
  let ?K = "2 * ucast c :: u64"
  have uc: "unat (ucast c :: u64) = unat c" by simp
  have K: "unat ?K = 2 * unat c" using ch(2) by (simp add: unat_word_ariths take_bit_eq_mod)
  then have K0: "?K \<noteq> 0" using ch(1) by (metis mult_is_0 not_one_le_zero unat_0 zero_neq_numeral)
  have n: "unat (B div ?K) = unat B div (2 * unat c)" by (simp only: unat_div_distrib K)
  then have lt: "unat (B div ?K) < 2 ^ 31" using B(2) by (simp add: order.strict_trans1 [OF div_le_dividend])
  then have sn: "sint (B div ?K) = int (unat (B div ?K))" by (rule sint_unat_small)
  have pos: "0 < unat (B div ?K)" using B(1) ch(1) by (simp add: n div_greater_zero_iff)
  obtain w1 where w1: "out_get_buffer_size a out w = (B, w1)" using doc by (metis endless_file_def prod.collapse)
  obtain w2 where w2: "out_get_buffer_size a out w1 = (B, w2)" using doc by (metis endless_file_def prod.collapse)
  have bps: "audio_bytes_per_sample a AUDIO_FORMAT_PCM_16_BIT = 2" "\<And>n. length (fresh a n) = n"
    using doc by (simp_all add: endless_file_def)
  let ?data = "fresh a (2 * unat (B div ?K))"
  have run: "PlayFile a (Suc fuel) out h cfg w = play_file_loop a out h ?K (Suc fuel) 1 0 ?data w1"
    using w1 K0 by (simp add: PlayFile_def Let_def kAudioPlaybackFormat_def bps(1) c)
  show ?thesis
  proof (cases "2 \<le> unat c")
    case True
    obtain xs w3 where x: "sf_readf_short a h (sint (B div ?K)) w2 = ((sint (B div ?K), xs), w3)"
      "length xs = unat (B div ?K) * unat c"
      using doc sn unfolding endless_file_def by (metis nat_int of_nat_0_le_iff prod.collapse)
    have "2 * unat (B div ?K) < length (pcm_bytes xs)"
      using True pos by (simp add: x(2))
    then have "fill (pcm_bytes xs) ?data = Inl Heap_Overrun" by (simp add: fill_def bps(2))
    with True w2 x(1) show ?thesis unfolding run by (simp add: Let_def)
  next
    case False
    then have "unat c = 1" using ch(1) by simp
    then have "c = 1" by (metis of_nat_1 word_nat_cases unsigned_1 word_unat_eq_iff)
    then have "?K = 2" by simp
    with \<open>unat c = 1\<close> doc mono_loop [of a out h B ?data] B(2) False show ?thesis
      unfolding run by (simp add: bps(2) del: play_file_loop.simps)
  qed
qed

section \<open>The capture loop\<close>

text \<open>
  What the HAL promises about a read of \<open>n\<close> bytes: it stores as many as it returns, at most \<open>n\<close>, and none
  with an error. \<open>H\<close> is everything it has stored.
\<close>

definition capture_doc :: "('w, 'z) hal_scheme \<Rightarrow> ('w \<Rightarrow> byte list) \<Rightarrow> bool" where
  "capture_doc a H \<longleftrightarrow>
     (\<forall>s n w k bs w'. in_read a s n w = ((k, bs), w') \<longrightarrow>
        length bs = (if k < 0 then 0 else nat k) \<and> length bs \<le> n \<and> H w' = H w @ bs) \<and>
     (\<forall>w. H (snd (clock a w)) = H w)"

definition captured_ok :: "('w \<Rightarrow> byte list) \<Rightarrow> byte list \<Rightarrow> nat \<Rightarrow> byte list \<Rightarrow> 'w \<Rightarrow> bool" where
  "captured_ok H h0 off data w \<longleftrightarrow>
     off \<le> kRecordedDataSize \<and> length data = kRecordedDataSize \<and> H w = h0 @ take off data"

lemma capture_step:
  assumes doc: "capture_doc a H" and ok: "captured_ok H h0 off data w" and more: "off < kRecordedDataSize"
    and read: "in_read a s n w = ((k, bs), w')" and n: "n \<le> kRecordedDataSize - off"
  shows "off + length bs \<le> length data" "captured_ok H h0 (off + length bs) (blit off bs data) w'"
    "length bs = (if k < 0 then 0 else nat k)"
proof -
  have r: "length bs = (if k < 0 then 0 else nat k)" "length bs \<le> n" "H w' = H w @ bs"
    using doc read unfolding capture_doc_def by blast+
  then show "length bs = (if k < 0 then 0 else nat k)" "off + length bs \<le> length data"
    using ok n more by (simp_all add: captured_ok_def)
  have "off + length bs \<le> kRecordedDataSize" using r(2) n more by simp
  then show "captured_ok H h0 (off + length bs) (blit off bs data) w'"
    using r(3) ok more by (simp add: captured_ok_def blit_def min_absorb2)
qed

lemma bytes_to_copy:
  fixes B :: u64
  assumes "off < kRecordedDataSize" "unat B < 2 ^ 63"
  shows "(if of_nat off + B < of_nat kRecordedDataSize then unat B else kRecordedDataSize - off) =
    min (unat B) (kRecordedDataSize - off)"
proof -
  have k: "unat (of_nat kRecordedDataSize :: u64) = kRecordedDataSize" by (simp add: kRecordedDataSize_def)
  have "unat (of_nat off :: u64) = off"
    unfolding unat_of_nat by (rule mod_less, rule order.strict_trans [OF assms(1)]) (simp add: kRecordedDataSize_def)
  then have "unat (of_nat off + B) = off + unat B"
    using assms by (simp add: unat_word_ariths kRecordedDataSize_def)
  then have "of_nat off + B < of_nat kRecordedDataSize \<longleftrightarrow> off + unat B < kRecordedDataSize"
    by (simp add: word_less_nat_alt k)
  with assms(1) show ?thesis by (cases "off + unat B < kRecordedDataSize") (simp_all add: min_def, linarith)
qed

lemma capture_runs:
  assumes doc: "capture_doc a H" and B: "unat B < 2 ^ 63" and ok: "captured_ok H h0 off data w"
  shows "fst (capture_loop a s B t0 fuel off data w) = Inl Never_Ends \<or>
    (\<exists>off' data' w'. capture_loop a s B t0 fuel off data w = (Inr (off', data'), w') \<and> captured_ok H h0 off' data' w')"
  using ok
proof (induction fuel arbitrary: off data w)
  case (Suc fuel)
  show ?case
  proof (cases "off < kRecordedDataSize")
    case True
    let ?n = "min (unat B) (kRecordedDataSize - off)"
    obtain k bs w1 where r: "in_read a s ?n w = ((k, bs), w1)" by (metis prod.collapse)
    note step = capture_step [OF doc Suc.prems True r]
    obtain now w2 where c: "clock a w1 = (now, w2)" by fastforce
    have "H w2 = H w1" using doc c unfolding capture_doc_def by (metis snd_conv)
    then have ok2: "captured_ok H h0 (off + length bs) (blit off bs data) w2"
      using step(2) by (simp add: captured_ok_def)
    show ?thesis
      using True r c step ok2 Suc.IH [OF step(2)] Suc.IH [OF ok2]
      by (cases "k < 0") (auto simp: Let_def bytes_to_copy [OF True B] not_less)
  next
    case False
    with Suc.prems show ?thesis by auto
  qed
qed simp

lemma capture_fills:
  assumes doc: "capture_doc a H" and B: "0 < unat B" "unat B < 2 ^ 63" and ok: "captured_ok H h0 off data w"
    and progress: "\<And>n w. 0 < n \<Longrightarrow> 0 < fst (fst (in_read a s n w))"
  shows "kRecordedDataSize - off < fuel \<Longrightarrow>
    \<exists>data' w'. capture_loop a s B t0 fuel off data w = (Inr (kRecordedDataSize, data'), w') \<and> captured_ok H h0 kRecordedDataSize data' w'"
  using ok
proof (induction fuel arbitrary: off data w)
  case (Suc fuel)
  show ?case
  proof (cases "off < kRecordedDataSize")
    case True
    let ?n = "min (unat B) (kRecordedDataSize - off)"
    obtain k bs w1 where r: "in_read a s ?n w = ((k, bs), w1)" by (metis prod.collapse)
    note step = capture_step [OF doc Suc.prems(2) True r]
    have "0 < ?n" using True B(1) by simp
    from progress [OF this, of w] have k: "0 < k" by (simp add: r)
    have "kRecordedDataSize - (off + length bs) < fuel" using Suc.prems(1) True k step(3) by simp
    from Suc.IH [OF this step(2)] True r k step show ?thesis
      by (simp add: Let_def bytes_to_copy [OF True B(2)])
  next
    case False
    with Suc.prems show ?thesis by (auto simp: captured_ok_def)
  qed
qed simp

lemma capture_stuck:
  assumes doc: "capture_doc a H" and B: "unat B < 2 ^ 63" and ok: "captured_ok H h0 off data w" and more: "off < kRecordedDataSize"
    and zero: "\<And>n w. fst (fst (in_read a s n w)) = 0"
  shows "fst (capture_loop a s B t0 fuel off data w) = Inl Never_Ends"
  using ok
proof (induction fuel arbitrary: data w)
  case (Suc fuel)
  let ?n = "min (unat B) (kRecordedDataSize - off)"
  obtain k bs w1 where r: "in_read a s ?n w = ((k, bs), w1)" by (metis prod.collapse)
  note step = capture_step [OF doc Suc.prems more r]
  have "fst (fst (in_read a s ?n w)) = 0" by (rule zero)
  then have "k = 0" by (simp only: r fst_conv)
  with step Suc.IH [of "blit off bs data" w1] more r show ?case
    by (simp add: Let_def bytes_to_copy [OF more B])
qed simp

text \<open>C38: the recording loop of the HAL test never writes outside its 100000 bytes, whatever the HAL does, and
  when it ends the first \<open>offset\<close> of them are exactly what the HAL delivered, in order. While every read
  delivers something it ends with all 100000, after as many reads at most. But the time limit of 30
  seconds is only looked at after an error: of a HAL whose reads succeed with 0 bytes it never ends,
  however much time passes.\<close>

theorem hal_capture:
  fixes s :: nat and t0 :: int
  assumes doc: "capture_doc a H" and B: "0 < unat B" "unat B < 2 ^ 63"
  defines "loop \<equiv> capture_loop a s B t0"
  shows "(fst (loop fuel 0 (replicate kRecordedDataSize 0) w) = Inl Never_Ends \<or>
      (\<exists>off data w'. loop fuel 0 (replicate kRecordedDataSize 0) w = (Inr (off, data), w') \<and> captured_ok H (H w) off data w')) \<and>
    ((\<forall>n w. 0 < n \<longrightarrow> 0 < fst (fst (in_read a s n w))) \<longrightarrow>
      (\<exists>data w'. loop (Suc kRecordedDataSize) 0 (replicate kRecordedDataSize 0) w = (Inr (kRecordedDataSize, data), w') \<and>
         H w' = H w @ data)) \<and>
    ((\<forall>n w. fst (fst (in_read a s n w)) = 0) \<longrightarrow> fst (loop fuel 0 (replicate kRecordedDataSize 0) w) = Inl Never_Ends)"
proof -
  have ok: "captured_ok H (H w) 0 (replicate kRecordedDataSize 0) w" by (simp add: captured_ok_def)
  have "\<exists>data w'. loop (Suc kRecordedDataSize) 0 (replicate kRecordedDataSize 0) w = (Inr (kRecordedDataSize, data), w') \<and>
      H w' = H w @ data" if "\<forall>n w. 0 < n \<longrightarrow> 0 < fst (fst (in_read a s n w))"
    using capture_fills [OF doc B ok, of s "Suc kRecordedDataSize" t0] that unfolding loop_def captured_ok_def by fastforce
  moreover have "fst (loop fuel 0 (replicate kRecordedDataSize 0) w) = Inl Never_Ends"
    if "\<forall>n w. fst (fst (in_read a s n w)) = 0"
    using capture_stuck [OF doc B(2) ok, of s t0 fuel] that by (simp add: loop_def kRecordedDataSize_def)
  ultimately show ?thesis using capture_runs [OF doc B(2) ok] unfolding loop_def by blast
qed

section \<open>A HAL that is its documentation\<close>

definition doc_hal :: "('z rworld_scheme) hal" where
  "doc_hal = audio.extend (doc_audio\<lparr>sf_readf_short := \<lambda>h n w. ((n, replicate (nat n * 2) 7), w)\<rparr>) (hal.fields
     (\<lambda>c w. ((0, Some 0), w)) (\<lambda>m w. ((0, Some 0), w)) (\<lambda>d w. ((), w))
     (\<lambda>d h v c n w. ((0, Some 0, c), w)) (\<lambda>d s w. ((), w)) (\<lambda>s l r w. (0, w)) (\<lambda>s w. (4096, w)) (\<lambda>s bs w. (int (length bs), w))
     (\<lambda>d h v c n w. ((0, Some 0, c), w)) (\<lambda>d s w. ((), w)) (\<lambda>s w. (4096, w)) (\<lambda>s p w. (0, w))
     (\<lambda>s n w. ((int n, replicate n 5), w\<lparr>heard := heard w @ replicate n 5\<rparr>)) (\<lambda>w. (0, w)) (\<lambda>m. if m = 3 then 2 else 1)
     3 0x10 0x80000000 (\<lambda>n. replicate n 0))"

lemma doc_hal_ops:
  "audio_bytes_per_sample doc_hal f = of_nat (sample_bytes f)" "fresh doc_hal n = replicate n 0"
  "out_get_buffer_size doc_hal s w = (4096, w)" "sf_readf_short doc_hal h k w = ((k, replicate (nat k * 2) 7), w)"
  "in_read doc_hal s n w = ((int n, replicate n 5), w\<lparr>heard := heard w @ replicate n 5\<rparr>)" "clock doc_hal w = (0, w)"
  "count_from_out_mask doc_hal m = (if m = 3 then 2 else 1)"
  by (simp_all add: doc_hal_def hal.defs doc_audio_def audio.defs media.defs)

theorem play_file_overruns_heap_witness:
  "fst (PlayFile doc_hal 1 0 0 \<lparr>cfg_channel_mask = 3, cfg_format = kAudioPlaybackFormat, cfg_sample_rate = 48000\<rparr> silent_world) =
     Inl Heap_Overrun"
proof -
  have "endless_file doc_hal 0 0 4096 (unat (2 :: u32))"
    by (simp add: endless_file_def doc_hal_ops sample_bytes_def)
  from play_file_overruns_heap [OF this, of "\<lparr>cfg_channel_mask = 3, cfg_format = kAudioPlaybackFormat, cfg_sample_rate = 48000\<rparr>" 0 silent_world]
  show ?thesis by (simp add: doc_hal_ops)
qed

theorem hal_capture_witness:
  "\<exists>data w'. capture_loop doc_hal 0 4096 0 (Suc kRecordedDataSize) 0 (replicate kRecordedDataSize 0) silent_world =
     (Inr (kRecordedDataSize, data), w') \<and> heard w' = data"
proof -
  have "capture_doc doc_hal heard" by (simp add: capture_doc_def doc_hal_ops)
  from hal_capture [OF this, of 4096 0 0 0 silent_world] show ?thesis
    by (simp add: doc_hal_ops silent_world_def)
qed

end
