(* ===== verification/Spec2Isabelle.thy ===== *)
theory Spec2Isabelle
  imports Boot_Guarantees Ab_Guarantees Uefi_Guarantees Bub_AbUnittest Make_Misc_Unittest Wifi_Init Sensor_Shim
    Seccomp_Schedule Audio_Tests Audio_Hal
begin

text \<open>
  The Brillo UEFI A/B boot loader (\<open>src/brillo_uefi_x86_64\<close>) and the host tool that prepares its
  metadata, as a shallow embedding.

  The program. A device has two copies of its system, in the boot partitions \<open>boot_a\<close> and \<open>boot_b\<close>,
  and a partition \<open>misc\<close> whose first 64 bytes are the A/B metadata: a magic number, for each slot a
  priority (4 bits), the number of boot attempts left (3 bits) and a flag for a confirmed boot, and a
  checksum. At every power-up \<open>efi_main\<close> (\<open>bub_main.c\<close>) finds the disk it was started from
  (\<open>bub_init\<close> in \<open>bub_boot_kernel.c\<close>), asks \<open>bub_ab_flow\<close> (\<open>bub_ab_flow.c\<close>) for a slot, and loads
  and starts the kernel of that slot's partition (\<open>bub_boot_kernel\<close>). The A/B code reaches the disk
  only through the function pointers of \<open>BubOps\<close> (\<open>bub_ops.h\<close>). On the device these are the
  functions of \<open>bub_ops_uefi.c\<close>, which look the partition up in the GUID partition table and call
  the firmware; on the host, in the unit tests and in \<open>make_misc_image\<close>, those of
  \<open>bub_image_util.cc\<close>, over image files.

  The theories.

  \<^item> \<open>Bub_Prelude\<close>: bytes and words, list updates by offset (\<open>chunk\<close>, \<open>blit\<close>), little-endian images,
    and the monad of the model. A C function that has an effect is a function from a world to a
    world and either a result or a fault (an access outside an object, a NULL access, an abort, a
    loop that never ends); a pure one returns the sum type alone.
  \<^item> \<open>Bub_Sysdeps\<close> (\<open>bub_sysdeps.h\<close>, \<open>bub_sysdeps_posix.c\<close>, \<open>bub_sysdeps_uefi.c\<close>): \<open>bub_memcmp\<close>,
    \<open>bub_memcpy\<close>, \<open>bub_strlen\<close> and the others, with the bounds of the accessed memory.
  \<^item> \<open>Bub_Crc32\<close> (\<open>bub_crc32.c\<close>): the table and the loop, their equality with the bitwise shift
    register, and the errors the checksum detects.
  \<^item> \<open>Bub_Util\<close> (\<open>bub_util.c\<close>): byte order and UTF-8 to UCS-2, with termination, memory safety and
    the round trip.
  \<^item> \<open>Bub_Ops\<close> (\<open>bub_ops.h\<close>): the record of operations and the locale \<open>partition_io\<close>, its contract.
  \<^item> \<open>Bub_AbData\<close> (\<open>bub_ab_flow.h\<close>): the packed metadata and its byte image.
  \<^item> \<open>Bub_AbPolicy\<close>: the abstract specification of the A/B flow, over unbootable, tried and confirmed
    slots, as a function and as a step relation, and what follows from it for sequences of boots. The
    slot names are ordered, and the choice is the best slot in the order of priority and name.
  \<^item> \<open>Bub_AbFlow\<close> (\<open>bub_ab_flow.c\<close>): every function of the file. The locale \<open>ab_store\<close> extends
    \<open>partition_io\<close> by a misc partition; inside it the code is shown to refine the policy.
  \<^item> \<open>Bub_AbErrors\<close>: the flow on operations of which nothing is assumed, and on a read-only disk.
  \<^item> \<open>Image_Util\<close> (\<open>bub_image_util.cc\<close>) and \<open>Make_Misc_Image\<close> (\<open>make_misc_image.cc\<close>, \<open>main.cc\<close>): the
    host side. The interpretation \<open>host\<close> gives it every lemma of \<open>ab_store\<close>.
  \<^item> \<open>Ab_Test\<close> (the fixture \<open>AbTest\<close> of \<open>bub_image_util.cc\<close>, the heap of \<open>bub_sysdeps_posix.c\<close>),
    \<open>Bub_AbUnittest\<close> (\<open>bub_ab_flow_unittest.cc\<close>) and \<open>Make_Misc_Unittest\<close>
    (\<open>make_misc_image_unittest.cc\<close>): the unit tests as programs. That they pass is a theorem, from the
    exact form of the refinement (\<open>flow_exact\<close>: the metadata after a boot is \<open>flow_slots\<close> of the
    metadata before it), except for the one test that reads behind its own literal.
  \<^item> \<open>Bub_Efi\<close> (\<open>bub_sysdeps_uefi.c\<close>): the UEFI boot services and the gnu-efi helpers as a record of
    parameters over an abstract firmware state, and the allocator, console and abort on top of them.
  \<^item> \<open>Bub_Gpt\<close> and \<open>Bub_Lookup\<close> (\<open>bub_boot_kernel.h\<close>, \<open>bub_boot_kernel.c\<close>): the partition table, the
    header check and the search by name, and their meaning on the bytes of a disk.
  \<^item> \<open>Bub_Ops_Uefi\<close> (\<open>bub_ops_uefi.c\<close>): partition reads and writes with the offset arithmetic of the
    code on 64-bit words. The interpretations \<open>uefi\<close> and \<open>uefi_frame\<close> give the device the lemmas of
    \<open>ab_store\<close>, the second one with the rest of the disk unchanged.
  \<^item> \<open>Ram_Device\<close>: a concrete firmware with a concrete disk, on which the hypotheses hold.
  \<^item> \<open>Bub_BootKernel\<close> (\<open>bub_boot_kernel.c\<close>): the search for the disk, and loading a kernel with its
    parameters.
  \<^item> \<open>Bub_Main\<close> (\<open>bub_main.c\<close>): the loop of \<open>efi_main\<close>, its error handling and its turns.
  \<^item> \<open>Boot_Guarantees\<close>: which disk \<open>bub_init\<close> settles on, and what exactly reaches the firmware from a
    boot partition, as kernel and as command line.
  \<^item> \<open>Ab_Guarantees\<close>, \<open>Uefi_Guarantees\<close>: what the parts guarantee together on a working device, for a
    single boot (\<open>flow_selects_best\<close>), for all sequences of boots and invalidations (refinement,
    layout, fallback, settling) and for partition transfers, the ones that leave the partition included.
  \<^item> This theory: the device and the host back end give the same results, and the image of the host
    tool makes the device boot as the command line says.

  Programs of the repository that do not take part in booting are modelled as well.

  \<^item> \<open>Wifi_Init\<close> (\<open>wifi_driver_hal/\<close>): the Wi-Fi start-up program over an arbitrary driver, and the
    order of its calls as runs of a step relation.
  \<^item> \<open>Sensor_Shim\<close> (\<open>sensor/\<close>): the sensor and looper functions of the NDK over the framework classes.
  \<^item> \<open>Seccomp_Harness\<close> (\<open>pts/seccomp/test_harness.h\<close>): how the tests register themselves in a linked list
    before \<open>main\<close>, the verdict on a finished test and the loop over the list, which runs every test once
    and in order on either kind of tool chain.
  \<^item> \<open>Seccomp_Filter\<close>, \<open>Seccomp_Process\<close>, \<open>Seccomp_Tests\<close> (\<open>pts/seccomp/seccomp_bpf.c\<close>): filter programs as
    the macros build them, the macros of the framework over a process with an arbitrary kernel and C
    library, and the tests that run in one process, as programs.
  \<^item> \<open>Seccomp_Doc\<close> and \<open>Seccomp_Pass\<close>: the documented behaviour of the system calls as a hypothesis on that
    kernel, rules that run a statement against it, and the theorem that the tests pass.
  \<^item> \<open>Seccomp_Tsync\<close>, \<open>Seccomp_Sync\<close>, \<open>Seccomp_Schedule\<close>: the tests of the fixture TSYNC with their three
    threads. A schedule is a list of the threads that take the steps. Assertions at the points of the main
    thread, computed by an abstract run of it and not disturbed by the siblings, give the result for
    every schedule; a rank that every step lowers gives the end of every run.
  \<^item> \<open>Audio_Sine\<close> (\<open>pts/audio/common/\<close>): the source of the test tone as an object over the buffers of the
    media framework, and what the buffers it fills contain.
  \<^item> \<open>Audio_Libmedia\<close> (\<open>utils.cpp\<close>, \<open>libmedia_record.cpp\<close>, \<open>libmedia_playback.cpp\<close> of
    \<open>pts/audio/brillo-audio-test/\<close>): recording and playing through callbacks, with the pointer casts between
    bytes and samples written out. \<open>Audio_Record\<close> and \<open>Audio_Playback\<close> show what a recording leaves in
    its file and what a callback leaves in the track's buffer.
  \<^item> \<open>Audio_Tests\<close> (\<open>stagefright_record.cpp\<close>, \<open>stagefright_playback.cpp\<close>, \<open>brillo_audio_test.cpp\<close>): the tests
    through stagefright and the program that picks one of the tests.
  \<^item> \<open>Audio_Hal\<close> (\<open>pts/audio/hal-test/\<close>): the two programs that drive the audio HAL, with the conversion of
    their arguments, the loops that fill, write and capture, and where these overrun or do not end.

  What the hypotheses say. \<open>pool_ok\<close> is the discipline of the UEFI memory pool; \<open>dev_ok\<close> adds that
  block and disk transfers inside the disk succeed and that a request is served while fewer than 16
  blocks are live (the loader never holds more than eight at once on the paths considered);
  \<open>table_ok\<close> and \<open>disk_ok\<close> that the partition table is well-formed with at most 128 entries and that
  the partitions lie on the disk; \<open>uefi_inv\<close> collects them, with a misc partition of at least 64
  bytes. \<open>host_inv\<close> is the same for image files. \<open>seccomp_doc\<close> says of a kernel and a C library that the
  system calls of the tests do what \<open>prctl(2)\<close> and \<open>seccomp(2)\<close> describe, wherever \<open>doc_call\<close> has an answer,
  and \<open>forks_fresh\<close> that the harness forks processes without filters; \<open>doc_linux\<close> is such a kernel.
  \<open>media_doc\<close> says what \<open>MediaBufferGroup\<close> and \<open>MediaBuffer\<close> promise: a buffer that is in use is waited for,
  for ever if nobody gives it back. \<open>recorder_doc\<close> and \<open>player_doc\<close> say what the audio classes and libsndfile
  promise about what they deliver and store, \<open>recorder_works\<close> that the device and the file do not fail, and
  \<open>capture_doc\<close> that a read of the HAL stores as many bytes as it returns. Each theorem that has such a
  hypothesis is followed by a witness, a theorem that applies it to \<open>ram_fw\<close>, to a concrete host or to a
  framework that is its documentation (\<open>doc_media\<close>, \<open>doc_audio\<close>, \<open>doc_stagefright\<close>, \<open>doc_hal\<close>).

  Bounds. Sizes and offsets are 64-bit words and wrap as in C; the numbers 14 (attempts two slots can
  have left) and 128 (entries of a table) come from the widths and constants of the source. Structural
  recursion or a measure covers the bounded loops of the loader, and its two loops whose bound depends on
  data (\<open>utf8_loop\<close>, \<open>boot_loop\<close>) are partial functions in which not returning is a value of its own;
  \<open>buf_count_loop\<close> is a \<open>while_option\<close> for the same reason. The loops of the audio tests that go on until a
  device has delivered enough take fuel, one unit for each turn, and answer \<open>Never_Ends\<close> without it. Two
  turns are enough for \<open>generate_loop\<close> (\<open>generate_data_exact\<close>), one more than the bytes wanted for
  \<open>capture_loop\<close> and \<open>record_loop\<close> while every read delivers something (\<open>hal_capture\<close>,
  \<open>record_loop_ends\<close>), and no number is where a device delivers nothing (\<open>hal_capture\<close>,
  \<open>record_loop_empty_buffers\<close>); \<open>play_file_loop\<close> ends only with the file. The samples of the tone are computed by
  operations that are a parameter; the theorems about them take exact real arithmetic (\<open>exact_fp\<close>).

  What is left out. On the device: the \<open>Print\<close> calls under \<open>BUB_ENABLE_DEBUG\<close>, which the EFI build does
  not define (\<open>bub_debug\<close> is empty there for the same reason), and \<open>InitializeLib\<close> and the formatting of
  gnu-efi, which are not in the repository. The warnings are modelled: every function that prints one
  takes the \<open>bub_print\<close> it is linked with. On the host: the texts written to \<open>stderr\<close> and to the log,
  and of gtest everything but the number of failed expectations. The addresses of objects other than
  pool blocks: an object is its contents, and overlapping objects do not occur in the code. The
  seccomp tests in which one process traces another (\<open>TRACE_poke\<close>, \<open>TRACE_syscall\<close>, \<open>syscall_restart\<close>), and
  of the audio tests their log and console output. The remaining directories of the repository hold no
  program (file system and kernel configuration, security policy).
\<close>

section \<open>Across the components\<close>

text \<open>C10: the firmware and the host back end are interchangeable for the A/B code: with metadata that
  means the same, every sequence of boots and invalidations reports the same results on a working
  device as on a directory of image files, with or without assertions.\<close>

theorem host_and_device_agree:
  assumes "uefi_inv fw bio dio live img good w" "host_inv cb h" "ab_wf ab0" "ab_wf ab1"
    and "3 \<le> length suffix" "3 \<le> n"
    and "ab_valid (misc_image (uefi_part img) w)" "ab_valid (misc_image (host_part cb) h)"
    and "abs_meta (misc_image (uefi_part img) w) = abs_meta (misc_image (host_part cb) h)"
  shows "fst (run_ab_ops debug (bub_print fw) ab0 (uefi_ops fw bio dio) suffix n xs w) =
    fst (run_ab_ops debug' bub_print_posix ab1 (my_bub_ops cb) suffix n xs h)"
  using uefi.run_ops [OF assms(1,3,5-7), of debug xs] host.run_ops [OF assms(2,4-6,8), of debug' xs] assms(9)
  by auto

theorem host_and_device_agree_witness:
  "fst (run_ab_ops False (bub_print ram_fw) zero_ab_data (uefi_ops ram_fw 1 2) [0, 0, 0] 3 [Flow, Mark Slot_A, Flow]
      (ram_world (replicate 2048 0))) =
   fst (run_ab_ops True bub_print_posix zero_ab_data (my_bub_ops test_chrome) [0, 0, 0] 3 [Flow, Mark Slot_A, Flow]
      [img_path test_chrome (butlast misc) \<mapsto>
        \<lparr>data = ab_bytes (ab_seal reset_ab_data), readable = True, writable = True, faulty = False\<rparr>])"
proof -
  let ?h = "[img_path test_chrome (butlast misc) \<mapsto>
      \<lparr>data = ab_bytes (ab_seal reset_ab_data), readable = True, writable = True, faulty = False\<rparr>]"
  have m: "takeWhile (\<lambda>c. c \<noteq> 0) misc = butlast misc" by (simp add: misc_def cstr_def)
  have len: "length (ab_bytes (ab_seal reset_ab_data)) = 64" by (simp add: length_ab_bytes)
  have inv: "host_inv test_chrome ?h" using len by (simp add: host_inv_def m)
  have img: "misc_image (host_part test_chrome) ?h = ab_bytes (ab_seal reset_ab_data)"
    using len by (simp add: misc_image_def host_part_def zero_in_misc m)
  have "ab_valid (ab_bytes (ab_seal reset_ab_data))" by (simp add: ab_valid_ab_seal)
  then show ?thesis
    by (intro host_and_device_agree [OF ram_world_inv inv ab_wf_zero ab_wf_zero]) (simp_all add: ram_world_misc img)
qed

text \<open>C9: the image the host tool writes boots as its six numbers say: flashed to the misc partition of a
  working device, it makes the first boot take the slot the policy chooses for the two slot states
  given on the command line.\<close>

theorem tool_image_boots:
  assumes "set_slots_from_tokens conv st [m0, m1] = (Inr (), ms)"
    and "six_values conv st = Some [p, t, x, q, u, y]"
    and "chrome_writes cb" "0 \<notin> set fname"
    and "make_misc_image cb ms fname h = (Inr ok, h')" "h' (dir_path cb fname) = Some f"
    and "uefi_inv fw bio dio live img good w" "misc_image (uefi_part img) w = data f"
    and "ab_wf ab0" "3 \<le> length suffix" "3 \<le> n"
  shows "\<exists>w'. bub_ab_flow debug (bub_print fw) ab0 (uefi_ops fw bio dio) (Some suffix) n w =
    (Inr (flow_report (fst (policy_step (slot_of_values p t x, slot_of_values q u y))) suffix), w')"
proof -
  obtain s0 s1 where s: "ms = [s0, s1]" "abs_slot s0 = slot_of_values p t x" "abs_slot s1 = slot_of_values q u y"
    by (rule set_slots_mean [OF assms(1,2)])
  then have "ab_valid (data f)" "abs_meta (data f) = (slot_of_values p t x, slot_of_values q u y)"
    using make_misc_image_run [OF assms(3,4), of s0 s1 h] assms(5,6) by auto
  then show ?thesis
    using uefi.flow_run_valid [OF assms(7,9-11), of debug] assms(8) by auto
qed

theorem tool_image_boots_witness:
  "\<exists>w w'. bub_ab_flow False (bub_print ram_fw) zero_ab_data (uefi_ops ram_fw 1 2) (Some [0, 0, 0]) 3 w =
    (Inr (BUB_AB_FLOW_RESULT_OK, cstr ''_b''), w')"
proof -
  have t: "set_slots_from_tokens (\<lambda>t. Some (uint (hd t))) [[9], [3], [0], [14], [0], [1]] [zero_slot, zero_slot] =
    (Inr (), [zero_slot\<lparr>priority := 9, tries_remaining := 3\<rparr>, zero_slot\<lparr>priority := 14, successful_boot := 1\<rparr>])"
    by (simp add: slot_from_tokens_def zero_slot_def)
  have v: "six_values (\<lambda>t. Some (uint (hd t))) [[9], [3], [0], [14], [0], [1]] = Some [9, 3, 0, 14, 0, 1]"
    by (simp add: six_values_def)
  have n: "0 \<notin> set [109 :: byte]" by simp
  obtain f where f: "make_misc_image test_chrome
      [zero_slot\<lparr>priority := 9, tries_remaining := 3\<rparr>, zero_slot\<lparr>priority := 14, successful_boot := 1\<rparr>] [109] (\<lambda>_. None) =
      (Inr 1, (\<lambda>_. None)(dir_path test_chrome [109] \<mapsto> f))" "length (data f) = 64"
    using make_misc_image_run [OF chrome_writes_test n] by blast
  let ?m = "data f @ replicate 960 0"
  let ?w = "\<lparr>ram_disk = ram_image ?m (replicate 2048 0) (replicate 2048 0), blocks = []\<rparr>"
  have inv: "uefi_inv ram_fw 1 2 ram_live ram_disk ram_good ?w" by (rule ram_inv) (simp_all add: f(2))
  have "uefi_part ram_disk ?w misc = Some ?m"
    by (rule ram_parts [of ?m "replicate 2048 0" "replicate 2048 0"]) (simp_all add: f(2))
  then have img: "misc_image (uefi_part ram_disk) ?w = data f" by (simp add: misc_image_def f(2))
  have "((\<lambda>_. None)(dir_path test_chrome [109] \<mapsto> f)) (dir_path test_chrome [109]) = Some f" by simp
  from tool_image_boots [OF t v chrome_writes_test n f(1) this inv img ab_wf_zero, of "[0, 0, 0]" 3 False]
  show ?thesis
    by (auto simp: slot_of_values_def policy_step_def policy_choice_def flow_report_def)
qed

end
